(* ===== verification/Prelude.thy ===== *)
theory Prelude
  imports
    Main
    "HOL-Library.Word"
    "HOL-Library.Char_ord"
    "HOL-Library.List_Lexorder"
    "HOL-Library.Code_Target_Nat"
begin

text \<open>
  What every component of the development shares: the machine integers and the error values of
  the code, the \<open>?\<close> operator as \<open>and_then\<close>, loops that stop at the first error, and the string
  operations of the standard library.

  A Rust \<open>str\<close> is the list of its UTF-8 octets, a value of type \<open>string\<close> (HOL characters are
  octets), so \<open>length\<close> is \<open>str::len\<close> and the lexicographic order of \<open>List_Lexorder\<close> over the octet
  order of \<open>Char_ord\<close> is \<open>str\<close>'s \<open>Ord\<close>.
\<close>

named_theorems res_simps \<open>rewriting of fallible computations\<close>
named_theorems code_defs \<open>definitions a component's proofs unfold\<close>

section \<open>Machine integers\<close>

type_synonym u8 = "8 word"
type_synonym u32 = "32 word"
type_synonym u64 = "64 word"

text \<open>
  An \<open>i64\<close> is an \<open>int\<close> together with the range check the code performs (\<open>checked_mul\<close>,
  \<open>checked_add\<close>) or that an overflow trap performs: the release profile of the workspace sets
  \<open>overflow-checks = true\<close>, so an overflowing \<open>+\<close> panics in every build.
\<close>

definition i64_min :: int where "i64_min = - (2 ^ 63)"
definition i64_max :: int where "i64_max = 2 ^ 63 - 1"

definition in_i64 :: "int \<Rightarrow> bool" where
  "in_i64 x \<longleftrightarrow> i64_min \<le> x \<and> x \<le> i64_max"

definition checked_i64 :: "int \<Rightarrow> int option" where
  "checked_i64 x = (if in_i64 x then Some x else None)"

definition checked_add_u64 :: "u64 \<Rightarrow> u64 \<Rightarrow> u64 option" where
  "checked_add_u64 a b = (if unat a + unat b < 2 ^ 64 then Some (a + b) else None)"

definition saturating_sub_u64 :: "u64 \<Rightarrow> u64 \<Rightarrow> u64" where
  "saturating_sub_u64 a b = (if b \<le> a then a - b else 0)"

lemma checked_i64_Some [simp]: "checked_i64 x = Some y \<longleftrightarrow> in_i64 x \<and> y = x"
  by (auto simp: checked_i64_def)

lemma checked_add_u64_Some:
  "checked_add_u64 a b = Some c \<Longrightarrow> unat c = unat a + unat b"
  by (auto simp: checked_add_u64_def unat_word_ariths split: if_splits)

section \<open>Errors\<close>

text \<open>
  \<open>Error\<close> of \<open>error.rs\<close>: the normative code and, where verification failed inside a chain, the
  position. The \<open>detail\<close> text is human-facing and never contractual, so it is left out.
  \<open>Panic\<close> is a trap of the program itself (arithmetic overflow).
\<close>

datatype error = Err (code: string) (seq_of: "u64 option") | Panic

type_synonym 'a res = "error + 'a"

definition err :: "string \<Rightarrow> error" where
  "err c = Err c None"

fun at_seq :: "u64 \<Rightarrow> error \<Rightarrow> error" where
  "at_seq s (Err c _) = Err c (Some s)"
| "at_seq s Panic = Panic"

lemma err_eq_iff [simp]: "err c = err d \<longleftrightarrow> c = d"
  by (simp add: err_def)

lemma err_neq_Panic [simp]: "err c \<noteq> Panic" "Panic \<noteq> err c"
  by (simp_all add: err_def)

lemma code_err [simp]: "code (err c) = c"
  by (simp add: err_def)

subsection \<open>The question mark operator\<close>

fun and_then :: "'a res \<Rightarrow> ('a \<Rightarrow> 'b res) \<Rightarrow> 'b res" where
  "and_then (Inl e) k = Inl e"
| "and_then (Inr x) k = k x"

definition ok_or :: "'a option \<Rightarrow> string \<Rightarrow> 'a res" where
  "ok_or x c = (case x of None \<Rightarrow> Inl (err c) | Some y \<Rightarrow> Inr y)"

fun map_err :: "(error \<Rightarrow> error) \<Rightarrow> 'a res \<Rightarrow> 'a res" where
  "map_err f (Inl e) = Inl (f e)"
| "map_err f (Inr x) = Inr x"

text \<open>\<open>check b c\<close> is \<open>if !b { return Err(c) }\<close>.\<close>

definition check :: "bool \<Rightarrow> string \<Rightarrow> unit res" where
  "check b c = (if b then Inr () else Inl (err c))"

lemma and_then_eq_Inr [simp, res_simps]:
  "and_then r k = Inr v \<longleftrightarrow> (\<exists>x. r = Inr x \<and> k x = Inr v)"
  by (cases r) auto

lemma and_then_eq_Inl [res_simps]:
  "and_then r k = Inl e \<longleftrightarrow> r = Inl e \<or> (\<exists>x. r = Inr x \<and> k x = Inl e)"
  by (cases r) auto

lemma and_then_assoc: "and_then (and_then r k) h = and_then r (\<lambda>x. and_then (k x) h)"
  by (cases r) auto

lemma ok_or_simps [simp, res_simps]:
  "ok_or None c = Inl (err c)" "ok_or (Some x) c = Inr x"
  by (simp_all add: ok_or_def)

lemma ok_or_eq_Inr [simp, res_simps]: "ok_or x c = Inr y \<longleftrightarrow> x = Some y"
  by (cases x) auto

lemma ok_or_eq_Inl [simp, res_simps]: "ok_or x c = Inl e \<longleftrightarrow> x = None \<and> e = err c"
  by (cases x) auto

lemma check_simps [simp, res_simps]:
  "check True c = Inr ()" "check False c = Inl (err c)"
  by (simp_all add: check_def)

lemma check_eq_Inr [simp, res_simps]: "check b c = Inr u \<longleftrightarrow> b"
  by (simp add: check_def)

lemma check_eq_Inl [simp, res_simps]: "check b c = Inl e \<longleftrightarrow> \<not> b \<and> e = err c"
  by (auto simp: check_def)

lemma if_Inl_eq_Inr [simp, res_simps]:
  "(if b then Inl e else r) = Inr v \<longleftrightarrow> \<not> b \<and> r = Inr v"
  "(if b then r else Inl e) = Inr v \<longleftrightarrow> b \<and> r = Inr v"
  by auto

lemma map_err_eq_Inr [simp, res_simps]: "map_err f r = Inr x \<longleftrightarrow> r = Inr x"
  by (cases r) auto

lemma and_then_cong [fundef_cong]:
  "r = r' \<Longrightarrow> (\<And>x. r' = Inr x \<Longrightarrow> k x = k' x) \<Longrightarrow> and_then r k = and_then r' k'"
  by (cases r') auto

subsection \<open>Loops that stop at the first error\<close>

fun for_each :: "('a \<Rightarrow> unit res) \<Rightarrow> 'a list \<Rightarrow> unit res" where
  "for_each f [] = Inr ()"
| "for_each f (x # xs) = and_then (f x) (\<lambda>_. for_each f xs)"

fun map_res :: "('a \<Rightarrow> 'b res) \<Rightarrow> 'a list \<Rightarrow> 'b list res" where
  "map_res f [] = Inr []"
| "map_res f (x # xs) = and_then (f x) (\<lambda>y. and_then (map_res f xs) (\<lambda>ys. Inr (y # ys)))"

lemma for_each_eq_Inr [simp, res_simps]:
  "for_each f xs = Inr u \<longleftrightarrow> (\<forall>x\<in>set xs. f x = Inr ())"
  by (induction xs) auto

lemma for_each_eq_Inl:
  "for_each f xs = Inl e \<longleftrightarrow>
     (\<exists>ys x zs. xs = ys @ x # zs \<and> (\<forall>y\<in>set ys. f y = Inr ()) \<and> f x = Inl e)"
proof (induction xs)
  case Nil
  then show ?case by simp
next
  case (Cons a xs)
  show ?case
  proof (cases "f a")
    case (Inl e')
    show ?thesis
    proof
      assume "for_each f (a # xs) = Inl e"
      with Inl show "\<exists>ys x zs. a # xs = ys @ x # zs \<and> (\<forall>y\<in>set ys. f y = Inr ()) \<and> f x = Inl e"
        by (intro exI [of _ "[]"]) auto
    next
      assume "\<exists>ys x zs. a # xs = ys @ x # zs \<and> (\<forall>y\<in>set ys. f y = Inr ()) \<and> f x = Inl e"
      with Inl show "for_each f (a # xs) = Inl e"
        by (auto simp: Cons_eq_append_conv)
    qed
  next
    case (Inr u)
    with Cons.IH show ?thesis
      by (auto simp: Cons_eq_append_conv) (metis list.set_intros(1,2) set_ConsD)+
  qed
qed

lemma map_res_eq_Inr:
  "map_res f xs = Inr ys \<longleftrightarrow> list_all2 (\<lambda>x y. f x = Inr y) xs ys"
  by (induction xs arbitrary: ys) (auto simp: list_all2_Cons1)

subsection \<open>Computations that trap\<close>

definition traps :: "'a res \<Rightarrow> bool" where
  "traps r \<longleftrightarrow> r = Inl Panic"

named_theorems trap_simps \<open>which computations trap\<close>

lemma traps_simps [simp, trap_simps]:
  "\<not> traps (Inr x)" "\<not> traps (Inl (err c))" "traps (Inl e) \<longleftrightarrow> e = Panic"
  "\<not> traps (check b c)" "\<not> traps (ok_or v c)" "\<not> traps (map_err (\<lambda>_. err c) r)"
  by (auto simp: traps_def check_def ok_or_def split: option.splits) (cases r; simp)

lemma traps_map_err_at_seq [simp, trap_simps]: "traps (map_err (at_seq s) r) \<longleftrightarrow> traps r"
proof (cases r)
  case (Inl e)
  then show ?thesis by (cases e) (auto simp: traps_def)
qed (simp add: traps_def)

lemma traps_and_then [trap_simps]:
  "traps (and_then r k) \<longleftrightarrow> traps r \<or> (\<exists>v. r = Inr v \<and> traps (k v))"
  by (cases r) (auto simp: traps_def)

lemma traps_if [trap_simps]: "traps (if b then r else s) \<longleftrightarrow> (b \<and> traps r) \<or> (\<not> b \<and> traps s)"
  by simp

lemma traps_for_each: "traps (for_each f xs) \<Longrightarrow> \<exists>x\<in>set xs. traps (f x)"
  by (auto simp: traps_def for_each_eq_Inl)

lemma not_traps_for_each [trap_simps]: "(\<And>x. x \<in> set xs \<Longrightarrow> \<not> traps (f x)) \<Longrightarrow> \<not> traps (for_each f xs)"
  using traps_for_each by blast

lemma not_traps_bind: "\<not> traps r \<Longrightarrow> (\<And>v. r = Inr v \<Longrightarrow> \<not> traps (k v)) \<Longrightarrow> \<not> traps (and_then r k)"
  by (auto simp: traps_and_then)

lemma not_traps_if: "(b \<Longrightarrow> \<not> traps r) \<Longrightarrow> (\<not> b \<Longrightarrow> \<not> traps s) \<Longrightarrow> \<not> traps (if b then r else s)"
  by simp

section \<open>Strings\<close>

definition starts_with :: "string \<Rightarrow> string \<Rightarrow> bool" where
  "starts_with s p \<longleftrightarrow> take (length p) s = p"

definition strip_prefix :: "string \<Rightarrow> string \<Rightarrow> string option" where
  "strip_prefix s p = (if starts_with s p then Some (drop (length p) s) else None)"

definition strip_suffix :: "string \<Rightarrow> string \<Rightarrow> string option" where
  "strip_suffix s p =
     (if length p \<le> length s \<and> drop (length s - length p) s = p
      then Some (take (length s - length p) s) else None)"

text \<open>\<open>split_once\<close> with a one-octet pattern: around the first occurrence.\<close>

fun split_once :: "string \<Rightarrow> char \<Rightarrow> (string \<times> string) option" where
  "split_once [] c = None"
| "split_once (x # xs) c =
     (if x = c then Some ([], xs)
      else map_option (\<lambda>(a, b). (x # a, b)) (split_once xs c))"

text \<open>\<open>s.as_bytes()[i]\<close>, used by the code only where \<open>i\<close> is in range.\<close>

definition octet :: "char \<Rightarrow> nat" where
  "octet c = of_char c"

definition is_digit :: "char \<Rightarrow> bool" where
  "is_digit c \<longleftrightarrow> 48 \<le> octet c \<and> octet c \<le> 57"

definition is_lower :: "char \<Rightarrow> bool" where
  "is_lower c \<longleftrightarrow> 97 \<le> octet c \<and> octet c \<le> 122"

definition is_upper :: "char \<Rightarrow> bool" where
  "is_upper c \<longleftrightarrow> 65 \<le> octet c \<and> octet c \<le> 90"

definition is_alphanumeric :: "char \<Rightarrow> bool" where
  "is_alphanumeric c \<longleftrightarrow> is_digit c \<or> is_lower c \<or> is_upper c"

definition is_lower_hex :: "char \<Rightarrow> bool" where
  "is_lower_hex c \<longleftrightarrow> is_digit c \<or> 97 \<le> octet c \<and> octet c \<le> 102"

definition is_hex_digit :: "char \<Rightarrow> bool" where
  "is_hex_digit c \<longleftrightarrow> is_lower_hex c \<or> 65 \<le> octet c \<and> octet c \<le> 70"

definition digit_val :: "char \<Rightarrow> nat" where
  "digit_val c = octet c - 48"

definition digit_char :: "nat \<Rightarrow> char" where
  "digit_char d = char_of (48 + d)"

lemma starts_with_iff: "starts_with s p \<longleftrightarrow> (\<exists>r. s = p @ r)"
  by (auto simp: starts_with_def) (metis append_take_drop_id)

lemma starts_with_append [simp]: "starts_with (p @ r) p"
  by (simp add: starts_with_def)

lemma strip_prefix_eq_Some: "strip_prefix s p = Some r \<longleftrightarrow> s = p @ r"
  by (auto simp: strip_prefix_def starts_with_iff)

lemma strip_prefix_append [simp]: "strip_prefix (p @ r) p = Some r"
  by (simp add: strip_prefix_eq_Some)

lemma strip_suffix_eq_Some: "strip_suffix s p = Some r \<longleftrightarrow> s = r @ p"
proof
  assume "strip_suffix s p = Some r"
  then show "s = r @ p"
    by (auto simp: strip_suffix_def split: if_splits) (metis append_take_drop_id)
qed (auto simp: strip_suffix_def)

lemma strip_suffix_append [simp]: "strip_suffix (r @ p) p = Some r"
  by (simp add: strip_suffix_eq_Some)

lemma strip_suffix_eq_None: "strip_suffix s p = None \<longleftrightarrow> (\<forall>r. s \<noteq> r @ p)"
  using strip_suffix_eq_Some [of s p] by (cases "strip_suffix s p") auto

lemma split_once_eq_Some:
  "split_once s c = Some (a, b) \<longleftrightarrow> s = a @ c # b \<and> c \<notin> set a"
proof (induction s arbitrary: a)
  case Nil
  then show ?case by simp
next
  case (Cons x s)
  then show ?case by (cases a) (auto split: option.splits)
qed

lemma split_once_eq_None: "split_once s c = None \<longleftrightarrow> c \<notin> set s"
  by (induction s) auto

lemma octet_less [simp]: "octet c < 256"
  by (simp add: octet_def)

lemma octet_inj [simp]: "octet c = octet d \<longleftrightarrow> c = d"
  by (auto simp: octet_def)

lemma char_le_octet: "c \<le> d \<longleftrightarrow> octet c \<le> octet d"
  by (simp add: less_eq_char_def octet_def)

lemma char_less_octet: "c < d \<longleftrightarrow> octet c < octet d"
  by (simp add: less_char_def octet_def)

lemma octet_char_of [simp]: "n < 256 \<Longrightarrow> octet (char_of n) = n"
  by (simp add: octet_def)

lemma char_of_octet [simp]: "char_of (octet c) = c"
  by (simp add: octet_def)

lemma digit_val_char [simp]: "d < 10 \<Longrightarrow> digit_val (digit_char d) = d"
  by (simp add: digit_val_def digit_char_def)

lemma digit_char_val [simp]: "is_digit c \<Longrightarrow> digit_char (digit_val c) = c"
  by (simp add: digit_val_def digit_char_def is_digit_def)

lemma is_digit_char [simp]: "d < 10 \<Longrightarrow> is_digit (digit_char d)"
  by (simp add: digit_char_def is_digit_def)

lemma digit_val_less [simp]: "is_digit c \<Longrightarrow> digit_val c < 10"
  by (auto simp: digit_val_def is_digit_def)

lemma digit_val_le: "is_digit c \<Longrightarrow> digit_val c \<le> 9"
  by (auto simp: digit_val_def is_digit_def)

lemma digit_less_iff: "is_digit c \<Longrightarrow> is_digit d \<Longrightarrow> c < d \<longleftrightarrow> digit_val c < digit_val d"
  by (auto simp: digit_val_def is_digit_def char_less_octet)

lemma digit_eq_iff: "is_digit c \<Longrightarrow> is_digit d \<Longrightarrow> digit_val c = digit_val d \<longleftrightarrow> c = d"
  by (metis digit_char_val)

text \<open>The tests on one octet, over its bits: what the witnesses are evaluated with.\<close>

lemma octet_bits: "octet (Char b0 b1 b2 b3 b4 b5 b6 b7) =
  of_bool b0 + 2 * of_bool b1 + 4 * of_bool b2 + 8 * of_bool b3 + 16 * of_bool b4 + 32 * of_bool b5
  + 64 * of_bool b6 + 128 * of_bool b7"
  by (simp add: octet_def)

lemma is_digit_code [code]:
  "is_digit (Char b0 b1 b2 b3 b4 b5 b6 b7) \<longleftrightarrow> \<not> b7 \<and> \<not> b6 \<and> b5 \<and> b4 \<and> (b3 \<longrightarrow> \<not> b2 \<and> \<not> b1)"
  by (cases b7; cases b6; cases b5; cases b4; cases b3; cases b2; cases b1; cases b0) (simp_all add: is_digit_def octet_bits)

lemma is_lower_hex_code [code]:
  "is_lower_hex (Char b0 b1 b2 b3 b4 b5 b6 b7) \<longleftrightarrow>
    (if b6 then \<not> b7 \<and> b5 \<and> \<not> b4 \<and> \<not> b3 \<and> (b0 \<or> b1 \<or> b2) \<and> \<not> (b0 \<and> b1 \<and> b2)
     else \<not> b7 \<and> b5 \<and> b4 \<and> (b3 \<longrightarrow> \<not> b2 \<and> \<not> b1))"
  by (cases b7; cases b6; cases b5; cases b4; cases b3; cases b2; cases b1; cases b0)
    (simp_all add: is_lower_hex_def is_digit_def octet_bits)

text \<open>Lexicographic order of strings of one length, head by head and block by block.\<close>

lemma append_less_append:
  "length (xs :: 'a :: linorder list) = length ys \<Longrightarrow>
   xs @ us < ys @ vs \<longleftrightarrow> xs < ys \<or> xs = ys \<and> us < vs"
  by (induction xs ys rule: list_induct2) auto

section \<open>Searching lists\<close>

lemma find_SomeD: "List.find P xs = Some e \<Longrightarrow> e \<in> set xs \<and> P e"
  by (metis find_Some_iff nth_mem)

text \<open>The row with the greatest key, the first of several: \<open>ORDER BY key DESC LIMIT 1\<close>.\<close>

fun greatest :: "('a \<Rightarrow> nat) \<Rightarrow> 'a list \<Rightarrow> 'a option" where
  "greatest f [] = None"
| "greatest f (x # xs) =
     (case greatest f xs of None \<Rightarrow> Some x | Some y \<Rightarrow> if f x < f y then Some y else Some x)"

lemma greatest_None [simp]: "greatest f xs = None \<longleftrightarrow> xs = []"
  by (cases xs) (auto split: option.splits)

lemma greatest_SomeD: "greatest f xs = Some x \<Longrightarrow> x \<in> set xs \<and> (\<forall>y \<in> set xs. f y \<le> f x)"
  by (induction xs arbitrary: x) (fastforce split: option.splits if_splits)+

lemma greatest_cong_set:
  assumes "set xs = set ys" and "inj_on f (set ys)"
  shows "greatest f xs = greatest f ys"
proof (cases "greatest f xs")
  case None
  with assms(1) show ?thesis by simp
next
  case (Some x)
  then obtain y where y: "greatest f ys = Some y" using assms(1) by (cases "greatest f ys") auto
  from greatest_SomeD [OF Some] greatest_SomeD [OF y] assms have "f x = f y" "x \<in> set ys" "y \<in> set ys"
    by (auto intro: antisym)
  with assms(2) Some y show ?thesis by (simp add: inj_on_def)
qed

end
