(* ===== verification/Digits.thy ===== *)
theory Digits
  imports Prelude
begin

text \<open>
  Decimal digit strings and the numbers they denote, shared by the monetary strings, the timestamps
  and the derivation paths: \<open>nat_of\<close> reads a digit string, \<open>show_nat\<close> and \<open>zero_pad\<close> are the
  standard library's \<open>{}\<close> and \<open>{:0w}\<close>, and \<open>cmp\<close> is \<open>Ord::cmp\<close>. Digit strings of one length are
  ordered as strings exactly as they are ordered as numbers.
\<close>

section \<open>Comparison\<close>

datatype ordering = Less | Equal | Greater

definition cmp :: "'a :: linorder \<Rightarrow> 'a \<Rightarrow> ordering" where
  "cmp a b = (if a < b then Less else if a = b then Equal else Greater)"

section \<open>Reading digits\<close>

definition nat_of :: "string \<Rightarrow> nat" where
  "nat_of ds = foldl (\<lambda>n c. 10 * n + digit_val c) 0 ds"

definition slice :: "string \<Rightarrow> nat \<Rightarrow> nat \<Rightarrow> string" where
  "slice s i j = take (j - i) (drop i s)"

text \<open>\<open>str::parse::<u32>\<close>: an optional plus sign, digits, and an overflow check.\<close>

definition parse_u32 :: "string \<Rightarrow> nat option" where
  "parse_u32 s =
     (let ds = (case s of c # cs \<Rightarrow> if c = CHR ''+'' then cs else s | [] \<Rightarrow> [])
      in if ds \<noteq> [] \<and> list_all is_digit ds \<and> nat_of ds < 2 ^ 32 then Some (nat_of ds) else None)"

lemma nat_of_simps [simp]: "nat_of [] = 0" "nat_of (ds @ [d]) = 10 * nat_of ds + digit_val d"
  by (simp_all add: nat_of_def)

lemma nat_of_append: "nat_of (xs @ ys) = nat_of xs * 10 ^ length ys + nat_of ys"
proof (induction ys rule: rev_induct)
  case Nil
  then show ?case by simp
next
  case (snoc y ys)
  have "nat_of (xs @ ys @ [y]) = 10 * nat_of (xs @ ys) + digit_val y"
    using nat_of_simps(2) [of "xs @ ys" y] by simp
  with snoc show ?case by (simp add: algebra_simps)
qed

lemma nat_of_Cons: "nat_of (d # ds) = digit_val d * 10 ^ length ds + nat_of ds"
  using nat_of_append [of "[d]" ds] nat_of_simps(2) [of "[]" d] by simp

lemma nat_of_less: "list_all is_digit ds \<Longrightarrow> nat_of ds < 10 ^ length ds"
proof (induction ds)
  case Nil
  then show ?case by simp
next
  case (Cons d ds)
  then have "digit_val d \<le> 9" and IH: "nat_of ds < 10 ^ length ds"
    by (auto intro: digit_val_le)
  then have "digit_val d * 10 ^ length ds \<le> 9 * 10 ^ length ds"
    by (intro mult_le_mono1)
  with IH have "digit_val d * 10 ^ length ds + nat_of ds < 10 * 10 ^ length ds" by linarith
  then show ?case by (simp add: nat_of_Cons)
qed

lemma nat_of_replicate_zero [simp]: "nat_of (replicate n (CHR ''0'')) = 0"
  by (induction n) (auto simp: nat_of_Cons digit_val_def octet_def)

lemma digit_zero [simp]: "digit_val (CHR ''0'') = 0" "is_digit (CHR ''0'')"
  by (simp_all add: digit_val_def octet_def is_digit_def)

text \<open>Two digit strings of one length are ordered as numbers exactly as strings.\<close>

lemma cmp_nat_of_same_length:
  "length xs = length ys \<Longrightarrow> list_all is_digit xs \<Longrightarrow> list_all is_digit ys \<Longrightarrow>
   cmp xs ys = cmp (nat_of xs) (nat_of ys)"
proof (induction xs ys rule: list_induct2)
  case Nil
  then show ?case by (simp add: cmp_def)
next
  case (Cons x xs y ys)
  let ?B = "(10 :: nat) ^ length ys"
  from Cons have IH: "cmp xs ys = cmp (nat_of xs) (nat_of ys)"
    and d: "is_digit x" "is_digit y" and len: "length xs = length ys"
    and b: "nat_of xs < ?B" "nat_of ys < ?B"
    using nat_of_less [of xs] nat_of_less [of ys] by auto
  have lt: "digit_val u * ?B + n < digit_val v * ?B + m"
    if "digit_val u < digit_val v" "n < ?B" for u v n m
  proof -
    from that(1) have "Suc (digit_val u) * ?B \<le> digit_val v * ?B"
      by (intro mult_le_mono1) simp
    with that(2) show ?thesis by simp
  qed
  consider "digit_val x < digit_val y" | "x = y" | "digit_val y < digit_val x"
    using d digit_eq_iff by (metis linorder_neqE_nat)
  then show ?case
  proof cases
    case 1
    then show ?thesis
      using lt [OF 1 b(1)] d len by (simp add: cmp_def digit_less_iff nat_of_Cons)
  next
    case 2
    then show ?thesis
      using IH len by (auto simp: cmp_def nat_of_Cons split: if_splits)
  next
    case 3
    have "x \<noteq> y" "\<not> x < y" using 3 d by (auto simp: digit_less_iff)
    moreover have "nat_of (y # ys) < nat_of (x # xs)"
      using lt [OF 3 b(2)] len by (simp add: nat_of_Cons)
    ultimately show ?thesis by (auto simp: cmp_def)
  qed
qed

lemma nat_of_inj:
  "length xs = length ys \<Longrightarrow> list_all is_digit xs \<Longrightarrow> list_all is_digit ys \<Longrightarrow>
   nat_of xs = nat_of ys \<longleftrightarrow> xs = ys"
  using cmp_nat_of_same_length [of xs ys] by (auto simp: cmp_def split: if_splits)

lemma nat_of_less_iff:
  "length xs = length ys \<Longrightarrow> list_all is_digit xs \<Longrightarrow> list_all is_digit ys \<Longrightarrow>
   xs < ys \<longleftrightarrow> nat_of xs < nat_of ys"
  using cmp_nat_of_same_length [of xs ys] by (auto simp: cmp_def split: if_splits)

lemma plus_not_digit [simp]: "\<not> is_digit (CHR ''+'')"
  by (simp add: is_digit_def octet_def)

lemma parse_u32_digits:
  "list_all is_digit ds \<Longrightarrow> ds \<noteq> [] \<Longrightarrow> nat_of ds < 2 ^ 32 \<Longrightarrow> parse_u32 ds = Some (nat_of ds)"
  by (cases ds) (auto simp: parse_u32_def)

section \<open>Writing digits\<close>

fun show_nat :: "nat \<Rightarrow> string" where
  "show_nat n = (if n < 10 then [digit_char n] else show_nat (n div 10) @ [digit_char (n mod 10)])"

declare show_nat.simps [simp del]

definition zero_pad :: "nat \<Rightarrow> nat \<Rightarrow> string" where
  "zero_pad w n = replicate (w - length (show_nat n)) (CHR ''0'') @ show_nat n"

text \<open>\<open>{:0w}\<close> of a signed number: the sign counts towards the width.\<close>

definition zero_pad_int :: "nat \<Rightarrow> int \<Rightarrow> string" where
  "zero_pad_int w n = (if n < 0 then CHR ''-'' # zero_pad (w - 1) (nat (- n)) else zero_pad w (nat n))"

lemma show_nat_digits: "list_all is_digit (show_nat n) \<and> show_nat n \<noteq> []"
proof (induction n rule: show_nat.induct)
  case (1 n)
  then show ?case by (subst (1 2) show_nat.simps) auto
qed

lemma nat_of_show_nat [simp]: "nat_of (show_nat n) = n"
proof (induction n rule: show_nat.induct)
  case (1 n)
  then show ?case by (subst show_nat.simps) (auto simp: nat_of_Cons)
qed

lemma length_show_nat: "n < 10 ^ w \<Longrightarrow> 0 < w \<Longrightarrow> length (show_nat n) \<le> w"
proof (induction n arbitrary: w rule: show_nat.induct)
  case (1 n)
  show ?case
  proof (cases "n < 10")
    case True
    with "1.prems" show ?thesis by (subst show_nat.simps) simp
  next
    case False
    with "1.prems" have "w \<noteq> 0" "w \<noteq> 1" by auto
    then obtain v where v: "w = Suc v" "0 < v" by (cases w) auto
    with "1.prems" have "n div 10 < 10 ^ v" by auto
    with "1.IH" False v have "length (show_nat (n div 10)) \<le> v" by simp
    with False v show ?thesis by (subst show_nat.simps) simp
  qed
qed

lemma zero_pad_spec:
  assumes "n < 10 ^ w" and "0 < w"
  shows "length (zero_pad w n) = w" and "list_all is_digit (zero_pad w n)" and "nat_of (zero_pad w n) = n"
  using length_show_nat [OF assms] show_nat_digits [of n]
  by (auto simp: zero_pad_def nat_of_append list_all_iff)

text \<open>A digit string is the padded rendering of the number it denotes.\<close>

lemma zero_pad_nat_of:
  assumes "list_all is_digit ds" and "ds \<noteq> []"
  shows "zero_pad (length ds) (nat_of ds) = ds"
proof -
  have "nat_of ds < 10 ^ length ds" by (rule nat_of_less [OF assms(1)])
  note z = zero_pad_spec [OF this] 
  from assms(2) have "0 < length ds" by simp
  with z assms(1) show ?thesis
    using nat_of_inj [of "zero_pad (length ds) (nat_of ds)" ds] by blast
qed

end
