(* ===== verification/Calendar.thy ===== *)
theory Calendar
  imports Digits "HOL-Library.Signed_Division"
begin

text \<open>
  Time: the fixed timestamp form and its two validators (\<open>is_timestamp\<close> of
  \<open>stozher-core/src/envelope.rs\<close>, \<open>parse_timestamp\<close> of \<open>stozher-kernel/src/clock.rs\<close>), the calendar
  arithmetic (\<open>days_from_civil\<close> and its inverse), rendering, shifting, ISO 8601 durations, and the
  clock that can only be moved forward.

  Rust's integer division truncates, so it is \<open>sdiv\<close>; \<open>div_euclid\<close> and \<open>rem_euclid\<close> with a positive
  divisor are \<open>div\<close> and \<open>mod\<close>. Every product and sum the code leaves unchecked is far inside \<open>i64\<close>
  for the operands that reach it; the checked ones are \<open>checked_i64\<close>.
\<close>

section \<open>The calendar of \<open>envelope.rs\<close>\<close>

definition is_leap_year :: "nat \<Rightarrow> bool" where
  "is_leap_year year \<longleftrightarrow> year mod 4 = 0 \<and> (year mod 100 \<noteq> 0 \<or> year mod 400 = 0)"

definition days_in_month :: "nat \<Rightarrow> nat \<Rightarrow> nat" where
  "days_in_month year month =
     (if month \<in> {1, 3, 5, 7, 8, 10, 12} then 31
      else if month \<in> {4, 6, 9, 11} then 30
      else if month = 2 \<and> is_leap_year year then 29
      else if month = 2 then 28
      else 0)"

definition timestamp_separators :: "string \<Rightarrow> bool" where
  "timestamp_separators b \<longleftrightarrow>
     b ! 4 = CHR ''-'' \<and> b ! 7 = CHR ''-'' \<and> b ! 10 = CHR ''T'' \<and> b ! 13 = CHR '':''
     \<and> b ! 16 = CHR '':'' \<and> b ! 19 = CHR ''.'' \<and> b ! 23 = CHR ''Z''"

definition all_digits_in :: "string \<Rightarrow> nat \<Rightarrow> nat \<Rightarrow> bool" where
  "all_digits_in b i j \<longleftrightarrow> list_all is_digit (slice b i j)"

text \<open>\<open>s[range].parse::<u32>().unwrap_or(u32::MAX)\<close>\<close>

definition num_in :: "string \<Rightarrow> nat \<Rightarrow> nat \<Rightarrow> nat" where
  "num_in s i j = (case parse_u32 (slice s i j) of Some n \<Rightarrow> n | None \<Rightarrow> 2 ^ 32 - 1)"

definition is_timestamp :: "string \<Rightarrow> bool" where
  "is_timestamp s \<longleftrightarrow>
     (if length s \<noteq> 24 then False
      else if \<not> (all_digits_in s 0 4 \<and> all_digits_in s 5 7 \<and> all_digits_in s 8 10
                 \<and> all_digits_in s 11 13 \<and> all_digits_in s 14 16 \<and> all_digits_in s 17 19
                 \<and> all_digits_in s 20 23) then False
      else if \<not> timestamp_separators s then False
      else
        (let year = num_in s 0 4; month = num_in s 5 7; day = num_in s 8 10
         in 1 \<le> year \<and> 1 \<le> month \<and> month \<le> 12 \<and> 1 \<le> day \<and> day \<le> days_in_month year month
            \<and> num_in s 11 13 \<le> 23 \<and> num_in s 14 16 \<le> 59 \<and> num_in s 17 19 \<le> 59))"

section \<open>The calendar of \<open>clock.rs\<close>\<close>

definition bad_timestamp :: error where "bad_timestamp = err ''encoding-bad-timestamp''"
definition bad_duration :: error where "bad_duration = err ''encoding-bad-duration''"

definition days_from_civil :: "int \<Rightarrow> int \<Rightarrow> int \<Rightarrow> int" where
  "days_from_civil year0 month day =
     (let year = year0 - (if month \<le> 2 then 1 else 0);
          era = (if year \<ge> 0 then year else year - 399) sdiv 400;
          year_of_era = year - era * 400;
          day_of_year = (153 * (month + (if month > 2 then - 3 else 9)) + 2) sdiv 5 + day - 1;
          day_of_era = year_of_era * 365 + year_of_era sdiv 4 - year_of_era sdiv 100 + day_of_year
      in era * 146097 + day_of_era - 719468)"

definition civil_from_days :: "int \<Rightarrow> int \<times> int \<times> int" where
  "civil_from_days days0 =
     (let days = days0 + 719468;
          era = (if days \<ge> 0 then days else days - 146096) sdiv 146097;
          day_of_era = days - era * 146097;
          year_of_era =
            (day_of_era - day_of_era sdiv 1460 + day_of_era sdiv 36524 - day_of_era sdiv 146096) sdiv 365;
          year = year_of_era + era * 400;
          day_of_year = day_of_era - (365 * year_of_era + year_of_era sdiv 4 - year_of_era sdiv 100);
          month_prime = (5 * day_of_year + 2) sdiv 153;
          day = day_of_year - (153 * month_prime + 2) sdiv 5 + 1;
          month = month_prime + (if month_prime < 10 then 3 else - 9)
      in (year + (if month \<le> 2 then 1 else 0), month, day))"

text \<open>\<open>clock::days_in_month\<close> forwards to the calendar above; a year or month that is no \<open>u32\<close> admits
  no day.\<close>

definition days_in_month_i64 :: "int \<Rightarrow> int \<Rightarrow> int" where
  "days_in_month_i64 year month =
     (if 0 \<le> year \<and> year < 2 ^ 32 \<and> 0 \<le> month \<and> month < 2 ^ 32
      then int (days_in_month (nat year) (nat month)) else 0)"

fun field_loop :: "int \<Rightarrow> string \<Rightarrow> int res" where
  "field_loop v [] = Inr v"
| "field_loop v (c # cs) =
     (if \<not> is_digit c then Inl bad_timestamp else field_loop (v * 10 + int (digit_val c)) cs)"

definition timestamp_field :: "string \<Rightarrow> nat \<Rightarrow> nat \<Rightarrow> int res" where
  "timestamp_field b i j = field_loop 0 (slice b i j)"

definition parse_timestamp :: "string \<Rightarrow> int res" where
  "parse_timestamp text =
     (if length text \<noteq> 24 then Inl bad_timestamp
      else if \<not> timestamp_separators text then Inl bad_timestamp
      else
        and_then (timestamp_field text 0 4) (\<lambda>year.
        and_then (timestamp_field text 5 7) (\<lambda>month.
        and_then (timestamp_field text 8 10) (\<lambda>day.
        and_then (timestamp_field text 11 13) (\<lambda>hour.
        and_then (timestamp_field text 14 16) (\<lambda>minute.
        and_then (timestamp_field text 17 19) (\<lambda>second.
        and_then (timestamp_field text 20 23) (\<lambda>millis.
          if year < 1 \<or> \<not> (1 \<le> month \<and> month \<le> 12) \<or> day < 1 \<or> day > days_in_month_i64 year month
          then Inl bad_timestamp
          else if hour > 23 \<or> minute > 59 \<or> second > 59 then Inl bad_timestamp
          else
            (let days = days_from_civil year month day
             in Inr ((days * 86400 + hour * 3600 + minute * 60 + second) * 1000 + millis))))))))))"

definition format_millis :: "int \<Rightarrow> string" where
  "format_millis millis =
     (let seconds = millis div 1000; sub = millis mod 1000;
          days = seconds div 86400; time_of_day = seconds mod 86400;
          (year, month, day) = civil_from_days days;
          hour = time_of_day sdiv 3600;
          minute = (time_of_day smod 3600) sdiv 60;
          second = time_of_day smod 60
      in zero_pad_int 4 year @ CHR ''-'' # zero_pad_int 2 month @ CHR ''-'' # zero_pad_int 2 day
         @ CHR ''T'' # zero_pad_int 2 hour @ CHR '':'' # zero_pad_int 2 minute @ CHR '':'' # zero_pad_int 2 second
         @ CHR ''.'' # zero_pad_int 3 sub @ [CHR ''Z''])"

definition first_millis :: int where "first_millis = - 62135596800000"
definition last_millis :: int where "last_millis = 253402300799999"

definition shift :: "string \<Rightarrow> int \<Rightarrow> string res" where
  "shift text seconds =
     and_then (parse_timestamp text) (\<lambda>millis.
       case Option.bind (checked_i64 (seconds * 1000)) (\<lambda>delta. checked_i64 (millis + delta)) of
         None \<Rightarrow> Inl bad_timestamp
       | Some shifted \<Rightarrow>
           if \<not> (first_millis \<le> shifted \<and> shifted \<le> last_millis) then Inl bad_timestamp
           else Inr (format_millis shifted))"

section \<open>Durations\<close>

text \<open>The loop state of \<open>parse_duration_seconds\<close>.\<close>

record duration_state =
  total_of :: int
  digits_of :: int
  have_digits :: bool
  saw_component :: bool

definition unit_scale :: "char \<Rightarrow> int" where
  "unit_scale u =
     (if u = CHR ''D'' then 86400 else if u = CHR ''H'' then 3600 else if u = CHR ''M'' then 60 else 1)"

fun duration_char :: "string \<Rightarrow> duration_state \<Rightarrow> char \<Rightarrow> duration_state res" where
  "duration_char units st ch =
     (if is_digit ch then
        (case Option.bind (checked_i64 (digits_of st * 10)) (\<lambda>d. checked_i64 (d + int (digit_val ch))) of
           None \<Rightarrow> Inl bad_duration
         | Some d \<Rightarrow> Inr (st\<lparr>digits_of := d, have_digits := True\<rparr>))
      else if ch \<in> set units then
        (if \<not> have_digits st then Inl bad_duration
         else
           (case Option.bind (checked_i64 (digits_of st * unit_scale ch))
                   (\<lambda>seconds. checked_i64 (total_of st + seconds)) of
              None \<Rightarrow> Inl bad_duration
            | Some t \<Rightarrow>
                Inr (st\<lparr>total_of := t, digits_of := 0, have_digits := False, saw_component := True\<rparr>)))
      else Inl bad_duration)"

fun duration_chars :: "string \<Rightarrow> duration_state \<Rightarrow> string \<Rightarrow> duration_state res" where
  "duration_chars units st [] = (if have_digits st then Inl bad_duration else Inr st)"
| "duration_chars units st (ch # chs) =
     and_then (duration_char units st ch) (\<lambda>st'. duration_chars units st' chs)"

definition duration_parts :: "string \<Rightarrow> (string \<times> string option) res" where
  "duration_parts rest =
     (case split_once rest (CHR ''T'') of
        Some (date, time) \<Rightarrow> if time = [] then Inl bad_duration else Inr (date, Some time)
      | None \<Rightarrow> Inr (rest, None))"

definition parse_duration_seconds :: "string \<Rightarrow> int res" where
  "parse_duration_seconds text =
     (case strip_prefix text ''P'' of
        None \<Rightarrow> Inl bad_duration
      | Some rest \<Rightarrow>
          if rest = [] then Inl bad_duration
          else
            and_then (duration_parts rest) (\<lambda>(date_part, time_part).
            and_then (duration_chars ''D''
                \<lparr>total_of = 0, digits_of = 0, have_digits = False, saw_component = False\<rparr> date_part) (\<lambda>st.
            and_then (duration_chars ''HMS'' st (case time_part of Some t \<Rightarrow> t | None \<Rightarrow> [])) (\<lambda>st'.
              if \<not> saw_component st' then Inl bad_duration else Inr (total_of st')))))"

definition add_duration :: "string \<Rightarrow> string \<Rightarrow> string res" where
  "add_duration at duration = and_then (parse_duration_seconds duration) (\<lambda>s. shift at s)"

section \<open>The clock that only moves forward\<close>

record clock_advance =
  seconds :: int
  duration :: string

definition max_clock_advance_seconds :: int where "max_clock_advance_seconds = 3650 * 86400"

definition last_representable_instant :: string where
  "last_representable_instant = ''9999-12-31T23:59:59.999Z''"

text \<open>\<open>AdvancedClock::new\<close>: the only constructor of an advanced clock.\<close>

definition new_advanced_clock :: "clock_advance \<Rightarrow> clock_advance res" where
  "new_advanced_clock advance =
     (if seconds advance \<le> 0 then Inl (err ''clock-advance-refused'')
      else if seconds advance > max_clock_advance_seconds then Inl (err ''clock-advance-refused'')
      else Inr advance)"

text \<open>\<open>now\<close> of an advanced clock, given what the clock it wraps reads.\<close>

definition advanced_now :: "clock_advance \<Rightarrow> string \<Rightarrow> string" where
  "advanced_now advance base =
     (case shift base (seconds advance) of Inr t \<Rightarrow> t | Inl _ \<Rightarrow> last_representable_instant)"

text \<open>\<open>unmoved\<close>: the host instant behind an effective one, by subtraction.\<close>

definition unmoved :: "string \<Rightarrow> int \<Rightarrow> string" where
  "unmoved effective advance_seconds =
     (case shift effective (- advance_seconds) of Inr t \<Rightarrow> t | Inl _ \<Rightarrow> effective)"

end
