(* ===== verification/Civil.thy ===== *)
theory Civil
  imports Calendar
begin

text \<open>
  The arithmetic behind \<open>days_from_civil\<close> and \<open>civil_from_days\<close> of \<open>clock.rs\<close>: each is the inverse of
  the other on valid dates, and a later date has a later day number. Both count years from March;
  \<open>era_split\<close> writes a day of the 400-year era as centuries, four-year cycles, years and a day of the
  year, which is where the divisions of the code become linear.
\<close>


section \<open>The calendar arithmetic is a bijection\<close>

lemma sdiv_nonneg: "0 \<le> (a :: int) \<Longrightarrow> 0 < b \<Longrightarrow> a sdiv b = a div b"
  by (cases "a = 0") (simp_all add: signed_divide_int_def)

lemma smod_nonneg: "0 \<le> (a :: int) \<Longrightarrow> 0 < b \<Longrightarrow> a smod b = a mod b"
  by (cases "a = 0") (simp_all add: signed_modulo_int_def)

lemma div_unique_pos: "b * q \<le> a \<Longrightarrow> a < b * q + b \<Longrightarrow> a div (b :: int) = q"
  by (rule int_div_pos_eq [where r = "a - b * q"]) auto

lemma div_bounds: "0 < (b :: int) \<Longrightarrow> b * (a div b) \<le> a \<and> a < b * (a div b) + b"
  using pos_mod_bound [of b a] pos_mod_sign [of b a] mult_div_mod_eq [of b a] by linarith

lemma floor_by_sdiv:
  assumes "0 < (b :: int)"
  shows "(if a \<ge> 0 then a else a - (b - 1)) sdiv b = a div b"
proof (cases "a \<ge> 0")
  case True
  with assms show ?thesis by (simp add: sdiv_nonneg)
next
  case False
  with assms have "(a - (b - 1)) sdiv b = - ((b - 1 - a) div b)"
    by (simp add: signed_divide_int_def)
  moreover have "(b - 1 - a) div b = - (a div b)"
    using div_bounds [OF assms, of a] by (intro div_unique_pos) auto
  ultimately show ?thesis using False by simp
qed

lemma era_of_year: "(if (y :: int) \<ge> 0 then y else y - 399) sdiv 400 = y div 400"
  using floor_by_sdiv [of 400 y] by (auto split: if_splits)

lemma era_of_days: "(if (z :: int) \<ge> 0 then z else z - 146096) sdiv 146097 = z div 146097"
  using floor_by_sdiv [of 146097 z] by (auto split: if_splits)

definition leap :: "int \<Rightarrow> bool" where
  "leap y \<longleftrightarrow> y mod 4 = 0 \<and> (y mod 100 \<noteq> 0 \<or> y mod 400 = 0)"

definition month_length :: "int \<Rightarrow> int \<Rightarrow> int" where
  "month_length y m =
     (if m \<in> {1, 3, 5, 7, 8, 10, 12} then 31
      else if m \<in> {4, 6, 9, 11} then 30
      else if m = 2 \<and> leap y then 29 else if m = 2 then 28 else 0)"

definition valid_date :: "int \<Rightarrow> int \<Rightarrow> int \<Rightarrow> bool" where
  "valid_date y m d \<longleftrightarrow> 1 \<le> m \<and> m \<le> 12 \<and> 1 \<le> d \<and> d \<le> month_length y m"

text \<open>Years and months counted from March, as both functions do.\<close>

definition year_start :: "int \<Rightarrow> int" where
  "year_start y = 365 * y + y div 4 - y div 100 + y div 400"

definition month_start :: "int \<Rightarrow> int" where
  "month_start mp = (153 * mp + 2) div 5"

definition march_year :: "int \<Rightarrow> int \<Rightarrow> int" where
  "march_year y m = y - (if m \<le> 2 then 1 else 0)"

definition march_month :: "int \<Rightarrow> int" where
  "march_month m = m + (if m > 2 then - 3 else 9)"

lemma days_from_civil_eq:
  assumes "1 \<le> m" and "m \<le> 12"
  shows "days_from_civil y m d =
    year_start (march_year y m) + month_start (march_month m) + d - 1 - 719468"
proof -
  let ?Y = "march_year y m"
  have "0 \<le> ?Y - ?Y div 400 * 400" by (simp add: minus_div_mult_eq_mod)
  moreover have "(153 * march_month m + 2) sdiv 5 = month_start (march_month m)"
    using assms by (subst sdiv_nonneg) (auto simp: march_month_def month_start_def)
  ultimately have "days_from_civil y m d =
      ?Y div 400 * 146097 + ((?Y - ?Y div 400 * 400) * 365 + (?Y - ?Y div 400 * 400) div 4
      - (?Y - ?Y div 400 * 400) div 100 + (month_start (march_month m) + d - 1)) - 719468"
    unfolding days_from_civil_def Let_def march_year_def [symmetric] march_month_def [symmetric]
    by (simp only: sdiv_nonneg zero_less_numeral era_of_year)
  moreover have "(?Y - ?Y div 400 * 400) div 4 = ?Y div 4 - 100 * (?Y div 400)"
    and "(?Y - ?Y div 400 * 400) div 100 = ?Y div 100 - 4 * (?Y div 400)"
    using div_bounds [of 400 ?Y, OF zero_less_numeral] div_bounds [of 4 ?Y, OF zero_less_numeral]
      div_bounds [of 100 ?Y, OF zero_less_numeral]
    by (auto intro!: div_unique_pos)
  ultimately show ?thesis by (simp add: year_start_def)
qed

text \<open>A day of the 400-year era, split into centuries, four-year cycles, years and days.\<close>

definition era_split :: "int \<Rightarrow> int \<Rightarrow> int \<Rightarrow> int \<Rightarrow> bool" where
  "era_split c q r doy \<longleftrightarrow> 0 \<le> c \<and> c \<le> 3 \<and> 0 \<le> q \<and> q \<le> 24 \<and> 0 \<le> r \<and> r \<le> 3 \<and> 0 \<le> doy \<and> doy \<le> 365
     \<and> (doy = 365 \<longrightarrow> r = 3 \<and> (q = 24 \<longrightarrow> c = 3))"

lemma era_split_exists:
  assumes "0 \<le> doe" and "doe < (146097 :: int)"
  shows "\<exists>c q r doy. era_split c q r doy \<and> doe = 36524 * c + 1461 * q + 365 * r + doy"
proof -
  define c where "c = min 3 (doe div 36524)"
  define n1 where "n1 = doe - 36524 * c"
  define q where "q = n1 div 1461"
  define n2 where "n2 = n1 - 1461 * q"
  define r where "r = min 3 (n2 div 365)"
  define doy where "doy = n2 - 365 * r"
  have c: "0 \<le> c" "c \<le> 3" "0 \<le> n1" "n1 \<le> 36524" "n1 = 36524 \<longrightarrow> c = 3"
    using assms div_bounds [of 36524 doe, OF zero_less_numeral] unfolding c_def n1_def min_def by auto
  then have q: "0 \<le> q" "q \<le> 24" "0 \<le> n2" "n2 \<le> 1460"
    using div_bounds [of 1461 n1, OF zero_less_numeral] unfolding q_def n2_def by auto
  then have r: "0 \<le> r" "r \<le> 3" "0 \<le> doy" "doy \<le> 365" "doy = 365 \<longrightarrow> r = 3"
    using div_bounds [of 365 n2, OF zero_less_numeral] unfolding r_def doy_def min_def by auto
  have "doy = 365 \<longrightarrow> q = 24 \<longrightarrow> c = 3"
    using r c(5) by (auto simp: doy_def n2_def)
  with c q r have "era_split c q r doy" by (simp add: era_split_def)
  moreover have "doe = 36524 * c + 1461 * q + 365 * r + doy" by (simp add: doy_def n2_def n1_def)
  ultimately show ?thesis by blast
qed

lemma era_split_year:
  assumes "era_split c q r doy" and "doe = 36524 * c + 1461 * q + 365 * r + doy"
  shows "(doe - doe div 1460 + doe div 36524 - doe div 146096) div 365 = 100 * c + 4 * q + r"
proof -
  note b = assms(1) [unfolded era_split_def]
  have c: "doe div 36524 - doe div 146096 = c"
  proof (cases "doe = 146096")
    case True
    with b assms(2) show ?thesis by auto
  next
    case False
    with b assms(2) have "36524 * c \<le> doe" "doe < 36524 * c + 36524" "doe < 146096" "0 \<le> doe" by auto
    then have "doe div 36524 = c" "doe div 146096 = 0" by (auto intro: div_unique_pos)
    then show ?thesis by simp
  qed
  define \<delta> :: int where "\<delta> = (if 24 * c + q + 365 * r + doy \<ge> 1460 then 1 else 0)"
  have "doe div 1460 = 25 * c + q + \<delta>"
    using b assms(2) unfolding \<delta>_def by (intro div_unique_pos) auto
  moreover have "0 \<le> doy - \<delta>" "doy - \<delta> \<le> 364"
    using b unfolding \<delta>_def by auto
  ultimately show ?thesis
    using c assms(2) by (intro div_unique_pos) auto
qed

lemma era_split_year_start:
  assumes "era_split c q r doy"
  shows "365 * (100 * c + 4 * q + r) + (100 * c + 4 * q + r) div 4 - (100 * c + 4 * q + r) div 100
    = 36524 * c + 1461 * q + 365 * r"
proof -
  note b = assms [unfolded era_split_def]
  then have "(100 * c + 4 * q + r) div 4 = 25 * c + q" "(100 * c + 4 * q + r) div 100 = c"
    by (auto intro!: div_unique_pos)
  then show ?thesis by simp
qed

lemma year_start_era:
  assumes "era_split c q r doy"
  shows "year_start (100 * c + 4 * q + r + 400 * e) = 146097 * e + 36524 * c + 1461 * q + 365 * r"
proof -
  let ?k = "100 * c + 4 * q + r"
  note b = assms [unfolded era_split_def]
  then have "(?k + 400 * e) div 4 = 25 * c + q + 100 * e" "(?k + 400 * e) div 100 = c + 4 * e"
    "(?k + 400 * e) div 400 = e"
    by (auto intro!: div_unique_pos)
  then show ?thesis by (simp add: year_start_def)
qed

text \<open>What the inverse computes on a day that is split.\<close>

lemma civil_from_days_split:
  assumes e: "era_split c q r doy" and z: "z + 719468 = 146097 * e + 36524 * c + 1461 * q + 365 * r + doy"
  defines "mp \<equiv> (5 * doy + 2) div 153"
  defines "m \<equiv> mp + (if mp < 10 then 3 else - 9)"
  shows "civil_from_days z =
    (100 * c + 4 * q + r + 400 * e + (if m \<le> 2 then 1 else 0), m, doy - month_start mp + 1)"
proof -
  let ?doe = "36524 * c + 1461 * q + 365 * r + doy" and ?k = "100 * c + 4 * q + r"
  note b = e [unfolded era_split_def]
  have doe: "0 \<le> ?doe" "?doe < 146097" using b by auto
  have era: "(z + 719468) div 146097 = e"
    using doe z by (intro div_unique_pos) auto
  have doe_eq: "z + 719468 - e * 146097 = ?doe" using z by simp
  have yoe: "(?doe - ?doe sdiv 1460 + ?doe sdiv 36524 - ?doe sdiv 146096) sdiv 365 = ?k"
  proof -
    have "0 \<le> ?doe - ?doe div 1460 + ?doe div 36524 - ?doe div 146096"
      using doe div_bounds [of 1460 ?doe, OF zero_less_numeral] div_bounds [of 36524 ?doe, OF zero_less_numeral] div_bounds [of 146096 ?doe, OF zero_less_numeral] by linarith
    then show ?thesis using doe era_split_year [OF e refl] by (simp only: sdiv_nonneg zero_less_numeral)
  qed
  have k: "0 \<le> ?k" using b by auto
  have doy: "?doe - (365 * ?k + ?k sdiv 4 - ?k sdiv 100) = doy"
    using era_split_year_start [OF e] k by (simp only: sdiv_nonneg zero_less_numeral)
  have mp: "(5 * doy + 2) sdiv 153 = mp" "0 \<le> mp"
    using b by (simp_all add: mp_def sdiv_nonneg pos_imp_zdiv_nonneg_iff)
  then have "(153 * mp + 2) sdiv 5 = month_start mp" by (simp add: month_start_def sdiv_nonneg)
  with mp show ?thesis
    unfolding civil_from_days_def Let_def era_of_days era doe_eq yoe doy m_def by (simp add: mult.commute)
qed

text \<open>The months of the March year: their starts, and the months of the split day.\<close>

lemma month_start_bounds: "5 * month_start mp \<le> 153 * mp + 2" "153 * mp + 2 < 5 * month_start mp + 5"
  using div_bounds [of 5 "153 * mp + 2", OF zero_less_numeral] by (auto simp: month_start_def)

lemma march_month_cases:
  fixes doy :: int
  assumes "0 \<le> doy" and "doy \<le> 365"
  shows "(5 * doy + 2) div 153 \<in> {0..11} \<and> month_start ((5 * doy + 2) div 153) \<le> doy
    \<and> ((5 * doy + 2) div 153 < 11 \<longrightarrow> doy < month_start ((5 * doy + 2) div 153 + 1))"
proof -
  define mp where "mp = (5 * doy + 2) div 153"
  have mp: "153 * mp \<le> 5 * doy + 2" "5 * doy + 2 < 153 * mp + 153"
    using div_bounds [of 153 "5 * doy + 2", OF zero_less_numeral] by (auto simp: mp_def)
  with assms have r: "0 \<le> mp" "mp \<le> 11" by auto
  have "month_start mp \<le> doy" using mp month_start_bounds [of mp] by linarith
  moreover have "doy < month_start (mp + 1)"
    using mp(2) month_start_bounds(2) [of "mp + 1"] by (simp add: distrib_left)
  moreover note r
  ultimately show ?thesis by (simp add: mp_def)
qed

lemma march_month_unique:
  fixes mp :: int
  assumes "month_start mp \<le> doy" and "doy < month_start (mp + 1)"
  shows "(5 * doy + 2) div 153 = mp"
  using assms month_start_bounds(2) [of mp] month_start_bounds(1) [of "mp + 1"]
  by (intro div_unique_pos) (simp_all add: distrib_left)

lemma month_start_values:
  "month_start 0 = 0" "month_start 1 = 31" "month_start 2 = 61" "month_start 3 = 92"
  "month_start 4 = 122" "month_start 5 = 153" "month_start 6 = 184" "month_start 7 = 214"
  "month_start 8 = 245" "month_start 9 = 275" "month_start 10 = 306" "month_start 11 = 337"
  by (simp_all add: month_start_def)

lemma leap_split:
  assumes "era_split c q r doy"
  shows "leap (100 * c + 4 * q + r + 400 * e + 1) \<longleftrightarrow> r = 3 \<and> (q = 24 \<longrightarrow> c = 3)"
proof -
  let ?y = "100 * c + 4 * q + r + 400 * e + 1"
  note b = assms [unfolded era_split_def]
  have m: "(a + 4 * b) mod 4 = a mod 4" "(a + 100 * b) mod 100 = a mod 100"
    "(a + 400 * b) mod 400 = a mod 400" for a b :: int by (rule mod_mult_self2)+
  have y4: "?y = (r + 1) + 4 * (25 * c + q + 100 * e)" and y100: "?y = (4 * q + r + 1) + 100 * (c + 4 * e)"
    and y400: "?y = (100 * c + 4 * q + r + 1) + 400 * e" by simp_all
  have r: "r = 0 \<or> r = 1 \<or> r = 2 \<or> r = 3" using b by auto
  have "?y mod 4 = 0 \<longleftrightarrow> r = 3" unfolding y4 m using r by auto
  moreover have "?y mod 100 = 0 \<longleftrightarrow> q = 24" if "r = 3"
  proof (cases "q = 24")
    case False
    then have "(4 * q + r + 1) mod 100 = 4 * q + r + 1" using b that by (intro mod_pos_pos_trivial) auto
    then show ?thesis unfolding y100 m using that b False by auto
  qed (unfold y100 m, simp add: that)
  moreover have "?y mod 400 = 0 \<longleftrightarrow> c = 3" if "r = 3" "q = 24"
  proof (cases "c = 3")
    case False
    then have "(100 * c + 4 * q + r + 1) mod 400 = 100 * c + 4 * q + r + 1"
      using b that by (intro mod_pos_pos_trivial) auto
    then show ?thesis unfolding y400 m using that b False by auto
  qed (unfold y400 m, simp add: that)
  ultimately show ?thesis by (auto simp: leap_def)
qed

text \<open>A date and a day number meet in the same split.\<close>

lemma days_from_civil_split:
  fixes e :: int
  assumes e: "era_split c q r doy" and mp: "0 \<le> mp" "mp \<le> 11" "month_start mp \<le> doy"
  defines "m \<equiv> mp + (if mp < 10 then 3 else - 9)"
  defines "y \<equiv> 100 * c + 4 * q + r + 400 * e + (if m \<le> 2 then 1 else 0)"
  shows "days_from_civil y m (doy - month_start mp + 1) + 719468
    = 146097 * e + 36524 * c + 1461 * q + 365 * r + doy"
proof -
  have m: "1 \<le> m" "m \<le> 12" "march_month m = mp" "march_year y m = 100 * c + 4 * q + r + 400 * e"
    using mp by (auto simp: m_def y_def march_month_def march_year_def)
  show ?thesis
    using m by (simp add: days_from_civil_eq year_start_era [OF assms(1)])
qed

lemma march_month_upper:
  fixes mp :: int
  assumes "0 \<le> mp" "mp \<le> 11"
  defines "m \<equiv> mp + (if mp < 10 then 3 else - 9)"
  shows "month_start mp + month_length y m \<le> 366"
    and "mp < 11 \<Longrightarrow> month_start mp + month_length y m = month_start (mp + 1)"
    and "mp = 11 \<Longrightarrow> month_start mp + month_length y m = (if leap y then 366 else 365)"
proof -
  from assms have c: "mp = 0 \<or> mp = 1 \<or> mp = 2 \<or> mp = 3 \<or> mp = 4 \<or> mp = 5 \<or> mp = 6 \<or> mp = 7
      \<or> mp = 8 \<or> mp = 9 \<or> mp = 10 \<or> mp = 11" using assms(1,2) by presburger
  from c show "month_start mp + month_length y m \<le> 366"
    by (elim disjE) (simp_all add: m_def month_start_values month_length_def)
  from c show "mp < 11 \<Longrightarrow> month_start mp + month_length y m = month_start (mp + 1)"
    by (elim disjE) (simp_all add: m_def month_start_values month_length_def)
  from c show "mp = 11 \<Longrightarrow> month_start mp + month_length y m = (if leap y then 366 else 365)"
    by (simp add: m_def month_start_values month_length_def)
qed

text \<open>Every day number is a valid date, and that date's day number is the day again.\<close>

lemma civil_from_days_valid:
  assumes "civil_from_days z = (y, m, d)"
  shows "valid_date y m d" and "days_from_civil y m d = z"
proof -
  define e where "e = (z + 719468) div 146097"
  have "0 \<le> z + 719468 - 146097 * e" "z + 719468 - 146097 * e < 146097"
    using div_bounds [of 146097 "z + 719468", OF zero_less_numeral] by (auto simp: e_def)
  then obtain c q r doy where s: "era_split c q r doy"
    and z: "z + 719468 = 146097 * e + 36524 * c + 1461 * q + 365 * r + doy"
    using era_split_exists [of "z + 719468 - 146097 * e"] by force
  define mp where "mp = (5 * doy + 2) div 153"
  have doy: "0 \<le> doy" "doy \<le> 365" using s by (auto simp: era_split_def)
  have mp: "0 \<le> mp" "mp \<le> 11" "month_start mp \<le> doy" "mp < 11 \<longrightarrow> doy < month_start (mp + 1)"
    using march_month_cases [OF doy] by (auto simp: mp_def)
  have eq: "m = mp + (if mp < 10 then 3 else - 9)"
    "y = 100 * c + 4 * q + r + 400 * e + (if m \<le> 2 then 1 else 0)" "d = doy - month_start mp + 1"
    using assms civil_from_days_split [OF s z] by (auto simp: mp_def)
  show "days_from_civil y m d = z"
    using days_from_civil_split [OF s mp(1,2,3), of e] z eq by simp
  have "d \<le> month_length y m"
  proof (cases "mp < 11")
    case True
    then show ?thesis using march_month_upper(2) [OF mp(1,2) True, of y] mp(4) eq by auto
  next
    case False
    with mp have mp11: "mp = 11" by simp
    with eq have "y = 100 * c + 4 * q + r + 400 * e + 1" by simp
    then have "leap y \<longleftrightarrow> r = 3 \<and> (q = 24 \<longrightarrow> c = 3)" using leap_split [OF s] by simp
    then have "doy < (if leap y then 366 else 365)"
      using s doy by (auto simp: era_split_def)
    then show ?thesis using march_month_upper(3) [OF mp(1,2) mp11, of y] eq by auto
  qed
  moreover have "1 \<le> m" "m \<le> 12" using mp eq(1) by auto
  ultimately show "valid_date y m d" using mp eq by (simp add: valid_date_def)
qed

text \<open>Every valid date is read back from its day number.\<close>

lemma civil_of_days_from_civil:
  assumes "valid_date y m d"
  shows "civil_from_days (days_from_civil y m d) = (y, m, d)"
proof -
  define Y where "Y = march_year y m"
  define mp where "mp = march_month m"
  define e where "e = Y div 400"
  define k where "k = Y mod 400"
  define c q r where "c = k div 100" and "q = k mod 100 div 4" and "r = k mod 4"
  define doy where "doy = month_start mp + d - 1"
  have m: "1 \<le> m" "m \<le> 12" "1 \<le> d" "d \<le> month_length y m" using assms by (auto simp: valid_date_def)
  have mp: "0 \<le> mp" "mp \<le> 11" "m = mp + (if mp < 10 then 3 else - 9)"
    using m by (auto simp: mp_def march_month_def)
  have k: "0 \<le> k" "k < 400" by (simp_all add: k_def)
  have k_split: "k = 100 * (k div 100) + 4 * (k mod 100 div 4) + k mod 4"
  proof -
    have "k mod 4 = k mod 100 mod 4" by (simp add: mod_mod_cancel)
    then show ?thesis using mult_div_mod_eq [of 100 k] mult_div_mod_eq [of 4 "k mod 100"] by linarith
  qed
  have kd: "k div 100 \<le> 3" "k mod 100 div 4 \<le> 24"
    using k pos_mod_bound [of 100 k] by linarith+
  have b: "0 \<le> c" "c \<le> 3" "0 \<le> q" "q \<le> 24" "0 \<le> r" "r \<le> 3" "k = 100 * c + 4 * q + r"
    using k_split kd k by (simp_all add: c_def q_def r_def pos_imp_zdiv_nonneg_iff)
  have Y: "Y = 100 * c + 4 * q + r + 400 * e"
    using b(7) by (simp add: k_def e_def flip: minus_div_mult_eq_mod)
  have y: "y = Y + (if m \<le> 2 then 1 else 0)" by (simp add: Y_def march_year_def)
  have ms: "0 \<le> month_start mp" using mp month_start_bounds [of mp] by linarith
  have up: "month_start mp + month_length y m \<le> 366" using march_month_upper(1) [OF mp(1,2)] mp(3) by simp
  then have doy: "0 \<le> doy" "doy \<le> 365" using ms m by (auto simp: doy_def)
  have pre: "era_split c q r 0" using b by (simp add: era_split_def)
  have last: "r = 3 \<and> (q = 24 \<longrightarrow> c = 3)" if "doy = 365"
  proof -
    have "mp = 11"
    proof (rule ccontr)
      assume "mp \<noteq> 11"
      then have "month_start mp + month_length y m = month_start (mp + 1)" "mp + 1 \<le> 11"
        using march_month_upper(2) [OF mp(1,2)] mp by auto
      moreover have "month_start (mp + 1) \<le> 337"
        using month_start_bounds(1) [of "mp + 1"] \<open>mp + 1 \<le> 11\<close> by (simp add: distrib_left)
      ultimately show False using that m(4) by (simp add: doy_def)
    qed
    then have "leap y"
      using march_month_upper(3) [OF mp(1,2) \<open>mp = 11\<close>, of y] mp(3) that m(4)
      by (auto simp: doy_def split: if_splits)
    moreover have "y = Y + 1" using y mp(3) \<open>mp = 11\<close> by simp
    ultimately show ?thesis using leap_split [OF pre] Y by simp
  qed
  have s: "era_split c q r doy" using b doy last by (simp add: era_split_def)
  have z: "days_from_civil y m d + 719468 = 146097 * e + 36524 * c + 1461 * q + 365 * r + doy"
    using days_from_civil_split [OF s mp(1,2), of e] mp(3) y Y m(3) by (simp add: doy_def)
  have "(5 * doy + 2) div 153 = mp"
  proof (cases "mp = 11")
    case True
    then show ?thesis using doy m(3) month_start_values(12) by (intro div_unique_pos) (auto simp: doy_def)
  next
    case False
    with mp have "doy < month_start (mp + 1)"
      using march_month_upper(2) [OF mp(1,2), of y] m(4) by (simp add: doy_def)
    then show ?thesis using m(3) by (intro march_month_unique) (auto simp: doy_def)
  qed
  then show ?thesis
    using civil_from_days_split [OF s z] mp(3) y Y by (simp add: doy_def)
qed

section \<open>Later dates have later day numbers\<close>

lemma div_succ:
  fixes y b :: int
  assumes "0 < b"
  shows "(y + 1) div b = y div b + (if (y + 1) mod b = 0 then 1 else 0)"
proof -
  have m: "0 \<le> (y + 1) mod b" "(y + 1) mod b < b" using assms by simp_all
  have "y + 1 = b * ((y + 1) div b) + (y + 1) mod b" by (rule mult_div_mod_eq [symmetric])
  then have y: "y = b * ((y + 1) div b) + ((y + 1) mod b - 1)" by linarith
  show ?thesis
  proof (cases "(y + 1) mod b = 0")
    case True
    with y have "y = b * ((y + 1) div b - 1) + (b - 1)" by (simp only: right_diff_distrib)
    then have "y div b = (y + 1) div b - 1"
      by (rule int_div_pos_eq) (use assms in simp_all)
    with True show ?thesis by simp
  next
    case False
    then have "y div b = (y + 1) div b" by (intro int_div_pos_eq [OF y]) (use m in auto)
    with False show ?thesis by simp
  qed
qed

lemma year_start_succ: "year_start (y + 1) = year_start y + (if leap (y + 1) then 366 else 365)"
proof -
  let ?a = "(y + 1) mod 4 = 0" and ?b = "(y + 1) mod 100 = 0" and ?c = "(y + 1) mod 400 = 0"
  have "?b \<longrightarrow> ?a" using mod_mod_cancel [of 4 100 "y + 1"] by auto
  moreover have "?c \<longrightarrow> ?b" using mod_mod_cancel [of 100 400 "y + 1"] by auto
  moreover have "year_start (y + 1) = year_start y + 365 + (if ?a then 1 else 0) - (if ?b then 1 else 0) + (if ?c then 1 else 0)"
    unfolding year_start_def div_succ [of 4 y, OF zero_less_numeral] div_succ [of 100 y, OF zero_less_numeral]
      div_succ [of 400 y, OF zero_less_numeral] by simp
  moreover have "leap (y + 1) \<longleftrightarrow> ?a \<and> (\<not> ?b \<or> ?c)" by (simp add: leap_def)
  ultimately show ?thesis by (cases ?a; cases ?b; cases ?c) simp_all
qed

text \<open>Case analysis on a month number.\<close>

lemma month_cases:
  assumes "1 \<le> (m :: int)" and "m \<le> 12"
  shows "m = 1 \<or> m = 2 \<or> m = 3 \<or> m = 4 \<or> m = 5 \<or> m = 6 \<or> m = 7 \<or> m = 8 \<or> m = 9 \<or> m = 10
    \<or> m = 11 \<or> m = 12"
  using assms by presburger

definition month_index :: "int \<Rightarrow> int \<Rightarrow> int" where
  "month_index y m = 12 * y + m - 1"

definition first_day :: "int \<Rightarrow> int" where
  "first_day k = days_from_civil (k div 12) (k mod 12 + 1) 1"

lemma first_day_index:
  assumes "1 \<le> m" and "m \<le> 12"
  shows "first_day (month_index y m) = days_from_civil y m 1"
proof -
  have "month_index y m div 12 = y" using assms by (intro div_unique_pos) (auto simp: month_index_def)
  moreover from this have "month_index y m mod 12 = m - 1"
    using mult_div_mod_eq [of 12 "month_index y m"] by (simp add: month_index_def)
  ultimately show ?thesis by (simp add: first_day_def)
qed

lemma next_month:
  assumes "1 \<le> m" and "m \<le> 12"
  shows "first_day (month_index y m + 1) = days_from_civil y m 1 + month_length y m"
proof (cases "m = 12")
  case True
  then have "month_index y m + 1 = month_index (y + 1) 1" by (simp add: month_index_def)
  then have "first_day (month_index y m + 1) = days_from_civil (y + 1) 1 1"
    using first_day_index [of 1 "y + 1"] by simp
  with True show ?thesis
    by (simp add: days_from_civil_eq march_year_def march_month_def month_start_values month_length_def)
next
  case False
  have "month_index y m + 1 = month_index y (m + 1)" by (simp add: month_index_def)
  then have f: "first_day (month_index y m + 1) = days_from_civil y (m + 1) 1"
    using first_day_index [of "m + 1" y] assms False by simp
  from month_cases [OF assms] False show ?thesis
    unfolding f using year_start_succ [of "y - 1"]
    by (elim disjE) (simp_all add: days_from_civil_eq march_year_def march_month_def month_start_values month_length_def)
qed

lemma month_length_pos: "1 \<le> m \<Longrightarrow> m \<le> 12 \<Longrightarrow> 28 \<le> month_length y m"
  by (drule (1) month_cases, elim disjE) (simp_all add: month_length_def)

lemma first_day_mono:
  assumes "k \<le> l"
  shows "first_day k \<le> first_day l"
proof -
  have step: "first_day n \<le> first_day (n + 1)" for n
  proof -
    let ?y = "n div 12" and ?m = "n mod 12 + 1"
    have "month_index ?y ?m = n" by (simp add: month_index_def)
    moreover have "1 \<le> ?m" "?m \<le> 12"
      using pos_mod_sign [of 12 n] pos_mod_bound [of 12 n] by linarith+
    ultimately show ?thesis
      using next_month [of ?m ?y] month_length_pos [of ?m ?y] first_day_index [of ?m ?y] by simp
  qed
  have "first_day k \<le> first_day (k + int j)" for j
  proof (induction j)
    case (Suc j)
    then show ?case using step [of "k + int j"] by (simp add: ac_simps)
  qed simp
  from this [of "nat (l - k)"] assms show ?thesis by simp
qed

lemma days_from_civil_day:
  "1 \<le> m \<Longrightarrow> m \<le> 12 \<Longrightarrow> days_from_civil y m d = days_from_civil y m 1 + d - 1"
  by (simp add: days_from_civil_eq)

lemma days_from_civil_less:
  assumes v: "valid_date y m d" "valid_date y' m' d'"
    and lt: "y < y' \<or> y = y' \<and> (m < m' \<or> m = m' \<and> d < d')"
  shows "days_from_civil y m d < days_from_civil y' m' d'"
proof -
  from v have m: "1 \<le> m" "m \<le> 12" "1 \<le> m'" "m' \<le> 12" and d: "d \<le> month_length y m" "1 \<le> d'"
    by (auto simp: valid_date_def)
  note e = days_from_civil_day [OF m(1,2), of y d] days_from_civil_day [OF m(3,4), of y' d']
  show ?thesis
  proof (cases "y = y' \<and> m = m'")
    case True
    with lt e show ?thesis by auto
  next
    case False
    with lt m have "month_index y m + 1 \<le> month_index y' m'" by (auto simp: month_index_def)
    then have "first_day (month_index y m + 1) \<le> first_day (month_index y' m')" by (rule first_day_mono)
    with next_month [OF m(1,2), of y] first_day_index [OF m(3,4), of y'] e d show ?thesis by linarith
  qed
qed

lemma radix_less:
  fixes q r q' r' B :: int
  assumes "0 \<le> r" "r < B" "0 \<le> r'" "r' < B" and "q < q' \<or> q = q' \<and> r < r'"
  shows "q * B + r < q' * B + r'"
proof (cases "q < q'")
  case True
  then have "(q + 1) * B \<le> q' * B" using assms by (intro mult_right_mono) auto
  with assms show ?thesis by (simp add: algebra_simps)
next
  case False
  with assms show ?thesis by auto
qed

section \<open>The text of a timestamp\<close>

text \<open>The seven digit fields between their separators.\<close>

definition stamp :: "string \<Rightarrow> string \<Rightarrow> string \<Rightarrow> string \<Rightarrow> string \<Rightarrow> string \<Rightarrow> string \<Rightarrow> string" where
  "stamp y m d h i s f =
     y @ CHR ''-'' # m @ CHR ''-'' # d @ CHR ''T'' # h @ CHR '':'' # i @ CHR '':'' # s @ CHR ''.'' # f @ [CHR ''Z'']"

definition stamp_lengths :: "string \<Rightarrow> string \<Rightarrow> string \<Rightarrow> string \<Rightarrow> string \<Rightarrow> string \<Rightarrow> string \<Rightarrow> bool" where
  "stamp_lengths y m d h i s f \<longleftrightarrow>
     length y = 4 \<and> length m = 2 \<and> length d = 2 \<and> length h = 2 \<and> length i = 2 \<and> length s = 2 \<and> length f = 3"

lemma stamp_exists:
  assumes "length t = 24" and "timestamp_separators t"
  shows "\<exists>y m d h i s f. stamp_lengths y m d h i s f \<and> t = stamp y m d h i s f"
proof -
  have "map (nth t) [0..<24] = t" using map_nth [of t] assms(1) by simp
  moreover have "[0..<24] = [0, 1, 2, 3, 4, 5, 6, 7, 8, 9, 10, 11, 12, 13, 14, 15, 16, 17, 18, 19, 20, 21, 22, 23]"
    by (simp add: upt_rec)
  ultimately have t: "[t ! 0, t ! 1, t ! 2, t ! 3, t ! 4, t ! 5, t ! 6, t ! 7, t ! 8, t ! 9, t ! 10, t ! 11, t ! 12,
      t ! 13, t ! 14, t ! 15, t ! 16, t ! 17, t ! 18, t ! 19, t ! 20, t ! 21, t ! 22, t ! 23] = t"
    by (simp only: list.map)
  let ?y = "[t ! 0, t ! 1, t ! 2, t ! 3]" and ?m = "[t ! 5, t ! 6]" and ?d = "[t ! 8, t ! 9]"
    and ?h = "[t ! 11, t ! 12]" and ?i = "[t ! 14, t ! 15]" and ?s = "[t ! 17, t ! 18]"
    and ?f = "[t ! 20, t ! 21, t ! 22]"
  have "stamp ?y ?m ?d ?h ?i ?s ?f =
    [t ! 0, t ! 1, t ! 2, t ! 3, t ! 4, t ! 5, t ! 6, t ! 7, t ! 8, t ! 9, t ! 10, t ! 11, t ! 12,
      t ! 13, t ! 14, t ! 15, t ! 16, t ! 17, t ! 18, t ! 19, t ! 20, t ! 21, t ! 22, t ! 23]"
    using assms(2) unfolding stamp_def timestamp_separators_def append.simps by (elim conjE) (simp only:)
  with t have "t = stamp ?y ?m ?d ?h ?i ?s ?f" by (simp only:)
  moreover have "stamp_lengths ?y ?m ?d ?h ?i ?s ?f" by (simp add: stamp_lengths_def)
  ultimately show ?thesis by (intro exI conjI)
qed

end
