(* ===== verification/Timestamps.thy ===== *)
theory Timestamps
  imports Civil
begin

text \<open>
  The text of a timestamp and what it denotes. \<open>stamp\<close> writes the seven digit fields between their
  separators; every string the validators look at past their shape checks is one, so both validators
  of the code reduce to conditions on the seven numbers. From there: the two validators accept the
  same strings, rendering inverts parsing, string order is time order, shifting is addition, and the
  advanced clock and durations only ever move forward.
\<close>


section \<open>Reading a timestamp\<close>

lemma leap_int [simp]: "leap (int y) \<longleftrightarrow> is_leap_year y"
proof -
  have "int y mod numeral k = int (y mod numeral k)" for k by (simp add: zmod_int)
  then show ?thesis by (simp only: leap_def is_leap_year_def of_nat_eq_0_iff)
qed

lemma month_length_int [simp]: "month_length (int y) (int m) = int (days_in_month y m)"
  by (auto simp: month_length_def days_in_month_def)

lemma slices_of_stamp:
  assumes "stamp_lengths y m d h i s f"
  shows "length (stamp y m d h i s f) = 24" and "timestamp_separators (stamp y m d h i s f)"
    and "slice (stamp y m d h i s f) 0 4 = y" and "slice (stamp y m d h i s f) 5 7 = m"
    and "slice (stamp y m d h i s f) 8 10 = d" and "slice (stamp y m d h i s f) 11 13 = h"
    and "slice (stamp y m d h i s f) 14 16 = i" and "slice (stamp y m d h i s f) 17 19 = s"
    and "slice (stamp y m d h i s f) 20 23 = f"
  using assms
  by (simp_all add: stamp_lengths_def stamp_def timestamp_separators_def nth_append slice_def)

definition digit_fields :: "string \<Rightarrow> string \<Rightarrow> string \<Rightarrow> string \<Rightarrow> string \<Rightarrow> string \<Rightarrow> string \<Rightarrow> bool" where
  "digit_fields y m d h i s f \<longleftrightarrow>
     list_all is_digit y \<and> list_all is_digit m \<and> list_all is_digit d \<and> list_all is_digit h
     \<and> list_all is_digit i \<and> list_all is_digit s \<and> list_all is_digit f"

definition valid_fields :: "nat \<Rightarrow> nat \<Rightarrow> nat \<Rightarrow> nat \<Rightarrow> nat \<Rightarrow> nat \<Rightarrow> bool" where
  "valid_fields y m d h i s \<longleftrightarrow>
     1 \<le> y \<and> valid_date (int y) (int m) (int d) \<and> h \<le> 23 \<and> i \<le> 59 \<and> s \<le> 59"

definition instant :: "nat \<Rightarrow> nat \<Rightarrow> nat \<Rightarrow> nat \<Rightarrow> nat \<Rightarrow> nat \<Rightarrow> nat \<Rightarrow> int" where
  "instant y m d h i s f =
     (((days_from_civil (int y) (int m) (int d) * 24 + int h) * 60 + int i) * 60 + int s) * 1000 + int f"

lemma field_loop_eq: "field_loop v ds = Inr n \<longleftrightarrow> list_all is_digit ds \<and> n = v * 10 ^ length ds + int (nat_of ds)"
  by (induction ds arbitrary: v) (auto simp: nat_of_Cons algebra_simps)

lemma field_loop_cases: "field_loop v ds = Inl e \<longleftrightarrow> \<not> list_all is_digit ds \<and> e = bad_timestamp"
  by (induction ds arbitrary: v) auto

lemma field_loop_if:
  "field_loop 0 ds = (if list_all is_digit ds then Inr (int (nat_of ds)) else Inl bad_timestamp)"
  by (cases "field_loop 0 ds") (auto simp: field_loop_eq field_loop_cases)

lemma parse_stamp:
  assumes l: "stamp_lengths y m d h i s f"
  shows "parse_timestamp (stamp y m d h i s f) =
    (if digit_fields y m d h i s f
        \<and> valid_fields (nat_of y) (nat_of m) (nat_of d) (nat_of h) (nat_of i) (nat_of s)
     then Inr (instant (nat_of y) (nat_of m) (nat_of d) (nat_of h) (nat_of i) (nat_of s) (nat_of f))
     else Inl bad_timestamp)"
proof (cases "digit_fields y m d h i s f")
  case True
  then have "nat_of y < 2 ^ 32" "nat_of m < 2 ^ 32"
    using l nat_of_less [of y] nat_of_less [of m] by (auto simp: digit_fields_def stamp_lengths_def)
  with True show ?thesis
    by (auto simp: parse_timestamp_def slices_of_stamp [OF l] timestamp_field_def field_loop_if digit_fields_def
        valid_fields_def valid_date_def days_in_month_i64_def instant_def Let_def)
next
  case False
  then show ?thesis
    by (auto simp: parse_timestamp_def slices_of_stamp [OF l] timestamp_field_def field_loop_if digit_fields_def)
qed

lemma is_timestamp_stamp:
  assumes l: "stamp_lengths y m d h i s f"
  shows "is_timestamp (stamp y m d h i s f) \<longleftrightarrow> digit_fields y m d h i s f
    \<and> valid_fields (nat_of y) (nat_of m) (nat_of d) (nat_of h) (nat_of i) (nat_of s)"
proof (cases "digit_fields y m d h i s f")
  case True
  have n: "num_in (stamp y m d h i s f) a b = nat_of z"
    if "slice (stamp y m d h i s f) a b = z" "list_all is_digit z" "z \<noteq> []" "length z \<le> 4" for a b z
  proof -
    have "nat_of z < 10 ^ length z" by (rule nat_of_less [OF that(2)])
    also have "\<dots> \<le> 10 ^ 4" by (rule power_increasing) (use that in auto)
    finally show ?thesis using parse_u32_digits [of z] that by (simp add: num_in_def)
  qed
  have ne: "y \<noteq> []" "m \<noteq> []" "d \<noteq> []" "h \<noteq> []" "i \<noteq> []" "s \<noteq> []" using l by (auto simp: stamp_lengths_def)
  note z = slices_of_stamp [OF l]
  have "num_in (stamp y m d h i s f) 0 4 = nat_of y" "num_in (stamp y m d h i s f) 5 7 = nat_of m"
    "num_in (stamp y m d h i s f) 8 10 = nat_of d" "num_in (stamp y m d h i s f) 11 13 = nat_of h"
    "num_in (stamp y m d h i s f) 14 16 = nat_of i" "num_in (stamp y m d h i s f) 17 19 = nat_of s"
    using n [OF z(3)] n [OF z(4)] n [OF z(5)] n [OF z(6)] n [OF z(7)] n [OF z(8)] True ne l
    by (simp_all add: digit_fields_def stamp_lengths_def)
  with True show ?thesis
    by (auto simp: is_timestamp_def z all_digits_in_def digit_fields_def valid_fields_def valid_date_def Let_def)
next
  case False
  then show ?thesis
    by (auto simp: is_timestamp_def slices_of_stamp [OF l] all_digits_in_def digit_fields_def)
qed

text \<open>What a parsed timestamp is, and that the two validators accept the same strings.\<close>

lemma parse_timestamp_elim:
  assumes "parse_timestamp t = Inr ms"
  obtains y m d h i s f where "stamp_lengths y m d h i s f" "digit_fields y m d h i s f" "t = stamp y m d h i s f"
    "valid_fields (nat_of y) (nat_of m) (nat_of d) (nat_of h) (nat_of i) (nat_of s)"
    "ms = instant (nat_of y) (nat_of m) (nat_of d) (nat_of h) (nat_of i) (nat_of s) (nat_of f)"
proof -
  have "length t = 24" "timestamp_separators t"
    using assms by (auto simp: parse_timestamp_def split: if_splits)
  then obtain y m d h i s f where l: "stamp_lengths y m d h i s f" "t = stamp y m d h i s f"
    using stamp_exists by blast
  with assms parse_stamp [OF l(1)] that show ?thesis by (auto split: if_splits)
qed

lemma validators_agree: "is_timestamp t \<longleftrightarrow> (\<exists>ms. parse_timestamp t = Inr ms)"
proof (cases "length t = 24 \<and> timestamp_separators t")
  case True
  then obtain y m d h i s f where l: "stamp_lengths y m d h i s f" "t = stamp y m d h i s f"
    using stamp_exists by blast
  then show ?thesis using parse_stamp [OF l(1)] is_timestamp_stamp [OF l(1)] by auto
next
  case False
  then show ?thesis by (auto simp: is_timestamp_def parse_timestamp_def)
qed

lemma parse_timestamp_error: "parse_timestamp t = Inl e \<Longrightarrow> e = bad_timestamp"
  by (auto simp: parse_timestamp_def and_then_eq_Inl timestamp_field_def field_loop_cases Let_def split: if_splits)

section \<open>Order\<close>

lemma valid_fields_bounds:
  assumes "valid_fields y m d h i s"
  shows "1 \<le> m" "m \<le> 12" "1 \<le> d" "d \<le> 31" "h \<le> 23" "i \<le> 59" "s \<le> 59"
proof -
  have "month_length (int y) (int m) \<le> 31" by (simp add: month_length_def)
  with assms show "1 \<le> m" "m \<le> 12" "1 \<le> d" "d \<le> 31" "h \<le> 23" "i \<le> 59" "s \<le> 59"
    by (auto simp: valid_fields_def valid_date_def)
qed

lemma instant_less:
  assumes v: "valid_fields y m d h i s" "valid_fields y' m' d' h' i' s'" and f: "f < 1000" "f' < 1000"
    and lt: "[y, m, d, h, i, s, f] < [y', m', d', h', i', s', f']"
  shows "instant y m d h i s f < instant y' m' d' h' i' s' f'"
proof -
  note b = valid_fields_bounds [OF v(1)] valid_fields_bounds [OF v(2)]
  let ?D = "days_from_civil (int y) (int m) (int d)" and ?D' = "days_from_civil (int y') (int m') (int d')"
  have D: "[y, m, d] < [y', m', d'] \<Longrightarrow> ?D < ?D'"
    using v by (intro days_from_civil_less) (auto simp: valid_fields_def)
  from lt consider "[y, m, d] < [y', m', d']" | "[y, m, d] = [y', m', d']" "[h, i, s, f] < [h', i', s', f']"
    by auto
  then have 1: "?D < ?D' \<or> ?D = ?D' \<and> [h, i, s, f] < [h', i', s', f']"
    using D by cases auto
  let ?H = "?D * 24 + int h" and ?H' = "?D' * 24 + int h'"
  have 2: "?H < ?H' \<or> ?H = ?H' \<and> [i, s, f] < [i', s', f']"
    using 1 radix_less [of "int h" 24 "int h'" ?D ?D'] b by auto
  let ?I = "?H * 60 + int i" and ?I' = "?H' * 60 + int i'"
  have 3: "?I < ?I' \<or> ?I = ?I' \<and> [s, f] < [s', f']"
    using 2 radix_less [of "int i" 60 "int i'" ?H ?H'] b by auto
  let ?S = "?I * 60 + int s" and ?S' = "?I' * 60 + int s'"
  have 4: "?S < ?S' \<or> ?S = ?S' \<and> [f] < [f']"
    using 3 radix_less [of "int s" 60 "int s'" ?I ?I'] b by auto
  then show ?thesis
    using radix_less [of "int f" 1000 "int f'" ?S ?S'] f by (auto simp: instant_def)
qed

lemma stamp_less:
  assumes l: "stamp_lengths y m d h i s f" "stamp_lengths y' m' d' h' i' s' f'"
    and g: "digit_fields y m d h i s f" "digit_fields y' m' d' h' i' s' f'"
  shows "stamp y m d h i s f < stamp y' m' d' h' i' s' f' \<longleftrightarrow>
    [nat_of y, nat_of m, nat_of d, nat_of h, nat_of i, nat_of s, nat_of f]
      < [nat_of y', nat_of m', nat_of d', nat_of h', nat_of i', nat_of s', nat_of f']"
proof -
  have n: "a @ u < b @ v \<longleftrightarrow> nat_of a < nat_of b \<or> nat_of a = nat_of b \<and> u < v"
    if "length a = length b" "list_all is_digit a" "list_all is_digit b" for a b u v
    using append_less_append [OF that(1)] nat_of_less_iff [OF that] nat_of_inj [OF that] by simp
  show ?thesis
    using l g unfolding stamp_lengths_def digit_fields_def stamp_def
    by (simp add: n)
qed

lemma parse_timestamp_less:
  assumes p: "parse_timestamp a = Inr ma" "parse_timestamp b = Inr mb" and lt: "a < b"
  shows "ma < mb"
proof -
  obtain y m d h i s f where a: "stamp_lengths y m d h i s f" "digit_fields y m d h i s f" "a = stamp y m d h i s f"
    "valid_fields (nat_of y) (nat_of m) (nat_of d) (nat_of h) (nat_of i) (nat_of s)"
    "ma = instant (nat_of y) (nat_of m) (nat_of d) (nat_of h) (nat_of i) (nat_of s) (nat_of f)"
    using parse_timestamp_elim [OF p(1)] by blast
  obtain y' m' d' h' i' s' f' where b: "stamp_lengths y' m' d' h' i' s' f'" "digit_fields y' m' d' h' i' s' f'"
    "b = stamp y' m' d' h' i' s' f'"
    "valid_fields (nat_of y') (nat_of m') (nat_of d') (nat_of h') (nat_of i') (nat_of s')"
    "mb = instant (nat_of y') (nat_of m') (nat_of d') (nat_of h') (nat_of i') (nat_of s') (nat_of f')"
    using parse_timestamp_elim [OF p(2)] by blast
  have "nat_of f < 1000" "nat_of f' < 1000"
    using nat_of_less [of f] nat_of_less [of f'] a(1,2) b(1,2) by (auto simp: stamp_lengths_def digit_fields_def)
  with instant_less [OF a(4) b(4)] stamp_less [OF a(1) b(1) a(2) b(2)] lt show ?thesis
    by (simp add: a(3,5) b(3,5))
qed

lemma parse_timestamp_order:
  assumes p: "parse_timestamp a = Inr ma" "parse_timestamp b = Inr mb"
  shows "a < b \<longleftrightarrow> ma < mb" and "a \<le> b \<longleftrightarrow> ma \<le> mb" and "a = b \<longleftrightarrow> ma = mb"
proof -
  have "a = b \<Longrightarrow> ma = mb" using p by simp
  with parse_timestamp_less [OF p] parse_timestamp_less [OF p(2,1)]
  have "a < b \<and> ma < mb \<or> a = b \<and> ma = mb \<or> b < a \<and> mb < ma" by (cases a b rule: linorder_cases) auto
  then show "a < b \<longleftrightarrow> ma < mb" "a \<le> b \<longleftrightarrow> ma \<le> mb" "a = b \<longleftrightarrow> ma = mb" by auto
qed

section \<open>Rendering\<close>

lemma zero_pad_field:
  "list_all is_digit ds \<Longrightarrow> length ds = w \<Longrightarrow> 0 < w \<Longrightarrow> zero_pad_int w (int (nat_of ds)) = ds"
  using zero_pad_nat_of [of ds] by (auto simp: zero_pad_int_def)

text \<open>Seconds of the day and milliseconds, split the way \<open>format_millis\<close> does.\<close>

lemma format_instant:
  assumes v: "valid_fields y m d h i s" and f: "f < 1000"
  shows "format_millis (instant y m d h i s f) =
    stamp (zero_pad_int 4 (int y)) (zero_pad_int 2 (int m)) (zero_pad_int 2 (int d)) (zero_pad_int 2 (int h))
      (zero_pad_int 2 (int i)) (zero_pad_int 2 (int s)) (zero_pad_int 3 (int f))"
proof -
  let ?D = "days_from_civil (int y) (int m) (int d)"
  let ?t = "int h * 3600 + int i * 60 + int s"
  note b = valid_fields_bounds [OF v]
  have "instant y m d h i s f = 1000 * (?D * 86400 + ?t) + int f" by (simp add: instant_def algebra_simps)
  then have 1: "instant y m d h i s f div 1000 = ?D * 86400 + ?t"
    using f by (intro div_unique_pos) auto
  with \<open>instant y m d h i s f = _\<close> have 1: "instant y m d h i s f div 1000 = ?D * 86400 + ?t"
    "instant y m d h i s f mod 1000 = int f"
    using mult_div_mod_eq [of 1000 "instant y m d h i s f"] by simp_all
  have t: "0 \<le> ?t" "?t < 86400" using b by auto
  then have 2: "(?D * 86400 + ?t) div 86400 = ?D" "(?D * 86400 + ?t) mod 86400 = ?t" by simp_all
  have 3: "?t div 3600 = int h" using b by (intro div_unique_pos) auto
  then have 4: "?t mod 3600 = int i * 60 + int s" using mult_div_mod_eq [of 3600 ?t] by simp
  have 5: "(int i * 60 + int s) div 60 = int i" using b by (intro div_unique_pos) auto
  have "?t = (int h * 60 + int i) * 60 + int s" by simp
  then have 6: "?t mod 60 = int s" using b by (simp only: mod_mult_self3) simp
  have "civil_from_days ?D = (int y, int m, int d)"
    using v by (intro civil_of_days_from_civil) (simp add: valid_fields_def)
  then show ?thesis
    unfolding format_millis_def Let_def 1 2 stamp_def
    using t by (simp add: sdiv_nonneg smod_nonneg 3 4 5 6)
qed

lemma format_parse:
  assumes "parse_timestamp t = Inr ms"
  shows "format_millis ms = t"
proof -
  obtain y m d h i s f where a: "stamp_lengths y m d h i s f" "digit_fields y m d h i s f" "t = stamp y m d h i s f"
    "valid_fields (nat_of y) (nat_of m) (nat_of d) (nat_of h) (nat_of i) (nat_of s)"
    "ms = instant (nat_of y) (nat_of m) (nat_of d) (nat_of h) (nat_of i) (nat_of s) (nat_of f)"
    using parse_timestamp_elim [OF assms] by blast
  have "nat_of f < 1000" using nat_of_less [of f] a(1,2) by (auto simp: stamp_lengths_def digit_fields_def)
  from format_instant [OF a(4) this] a(1,2) show ?thesis
    by (simp add: a(3,5) stamp_lengths_def digit_fields_def zero_pad_field)
qed

lemma nat_of_zero_pad_int:
  assumes "0 \<le> n" and "n < 10 ^ w" and "0 < w"
  shows "length (zero_pad_int w n) = w" and "list_all is_digit (zero_pad_int w n)" and "nat_of (zero_pad_int w n) = nat n"
proof -
  have "nat n < 10 ^ w" using assms by (simp add: nat_less_iff)
  from zero_pad_spec [OF this assms(3)] assms(1)
  show "length (zero_pad_int w n) = w" "list_all is_digit (zero_pad_int w n)" "nat_of (zero_pad_int w n) = nat n"
    by (simp_all add: zero_pad_int_def)
qed

lemma year_range:
  assumes "civil_from_days z = (y, m, d)" and "- 719162 \<le> z" and "z \<le> 2932896"
  shows "1 \<le> y \<and> y \<le> 9999"
proof -
  note v = civil_from_days_valid [OF assms(1)]
  have lo: "days_from_civil 1 1 1 = - 719162" "valid_date 1 1 1"
    and hi: "days_from_civil 9999 12 31 = 2932896" "valid_date 9999 12 31"
    by code_simp+
  have "\<not> y < 1" using days_from_civil_less [OF v(1) lo(2)] v(2) lo(1) assms(2) by auto
  moreover have "\<not> 9999 < y" using days_from_civil_less [OF hi(2) v(1)] v(2) hi(1) assms(3) by auto
  ultimately show ?thesis by simp
qed

lemma parse_format:
  assumes "first_millis \<le> ms" and "ms \<le> last_millis"
  shows "parse_timestamp (format_millis ms) = Inr ms"
proof -
  define z where "z = ms div 1000 div 86400"
  define t where "t = ms div 1000 mod 86400"
  define f where "f = nat (ms mod 1000)"
  obtain y m d where c: "civil_from_days z = (y, m, d)" by (metis prod_cases3)
  have "- 62135596800 \<le> ms div 1000" "ms div 1000 \<le> 253402300799"
    using assms div_bounds [of 1000 ms, OF zero_less_numeral] by (simp_all add: first_millis_def last_millis_def)
  then have "- 719162 \<le> z" "z \<le> 2932896"
    using div_bounds [of 86400 "ms div 1000", OF zero_less_numeral] by (simp_all add: z_def)
  from year_range [OF c this] have y: "1 \<le> y" "y \<le> 9999" by auto
  note v = civil_from_days_valid [OF c]
  have t: "0 \<le> t" "t < 86400" by (simp_all add: t_def)
  have f: "f < 1000" "int f = ms mod 1000" by (simp_all add: f_def nat_less_iff)
  define h i s where "h = nat (t div 3600)" and "i = nat (t mod 3600 div 60)" and "s = nat (t mod 60)"
  have t60: "t mod 3600 mod 60 = t mod 60" by (simp add: mod_mod_cancel)
  have his: "int h = t div 3600" "int i = t mod 3600 div 60" "int s = t mod 60"
    using t by (simp_all add: h_def i_def s_def pos_imp_zdiv_nonneg_iff)
  have bounds: "h \<le> 23" "i \<le> 59" "s \<le> 59"
    using his t div_bounds [of 3600 t, OF zero_less_numeral] div_bounds [of 60 "t mod 3600", OF zero_less_numeral]
      pos_mod_bound [of 3600 t] pos_mod_bound [of 60 t] by linarith+
  have t_eq: "t = int h * 3600 + int i * 60 + int s"
    using his t60 mult_div_mod_eq [of 3600 t] mult_div_mod_eq [of 60 "t mod 3600"] by linarith
  have ymd: "int (nat y) = y" "int (nat m) = m" "int (nat d) = d" using y v(1) by (auto simp: valid_date_def)
  have vf: "valid_fields (nat y) (nat m) (nat d) h i s"
    unfolding valid_fields_def ymd using v(1) y bounds by auto
  have "ms = (z * 86400 + t) * 1000 + int f"
    using f mult_div_mod_eq [of 1000 ms] mult_div_mod_eq [of 86400 "ms div 1000"] by (simp add: z_def t_def)
  then have ms: "ms = instant (nat y) (nat m) (nat d) h i s f"
    unfolding instant_def ymd v(2) t_eq by simp
  note b = valid_fields_bounds [OF vf]
  have w: "0 \<le> y" "y < 10 ^ 4" "0 \<le> m" "m < 10 ^ 2" "0 \<le> d" "d < 10 ^ 2" using b ymd y by auto
  have w': "int h < 10 ^ 2" "int i < 10 ^ 2" "int s < 10 ^ 2" "int f < 10 ^ 3" using b f by auto
  note p = nat_of_zero_pad_int [OF w(1,2)] nat_of_zero_pad_int [OF w(3,4)] nat_of_zero_pad_int [OF w(5,6)]
    nat_of_zero_pad_int [OF _ w'(1)] nat_of_zero_pad_int [OF _ w'(2)] nat_of_zero_pad_int [OF _ w'(3)]
    nat_of_zero_pad_int [OF _ w'(4)]
  have l: "stamp_lengths (zero_pad_int 4 y) (zero_pad_int 2 m) (zero_pad_int 2 d) (zero_pad_int 2 (int h))
      (zero_pad_int 2 (int i)) (zero_pad_int 2 (int s)) (zero_pad_int 3 (int f))"
    and g: "digit_fields (zero_pad_int 4 y) (zero_pad_int 2 m) (zero_pad_int 2 d) (zero_pad_int 2 (int h))
      (zero_pad_int 2 (int i)) (zero_pad_int 2 (int s)) (zero_pad_int 3 (int f))"
    by (simp_all add: stamp_lengths_def digit_fields_def p)
  have "format_millis ms = stamp (zero_pad_int 4 y) (zero_pad_int 2 m) (zero_pad_int 2 d) (zero_pad_int 2 (int h))
      (zero_pad_int 2 (int i)) (zero_pad_int 2 (int s)) (zero_pad_int 3 (int f))"
    unfolding ms format_instant [OF vf f(1)] ymd ..
  then show ?thesis
    using parse_stamp [OF l] g vf ms by (simp add: p)
qed

lemma parse_timestamp_range:
  assumes "parse_timestamp t = Inr ms"
  shows "first_millis \<le> ms \<and> ms \<le> last_millis"
proof -
  have lo: "parse_timestamp ''0001-01-01T00:00:00.000Z'' = Inr first_millis"
    and hi: "parse_timestamp last_representable_instant = Inr last_millis"
    by code_simp+
  obtain y m d h i s f where a: "stamp_lengths y m d h i s f" "digit_fields y m d h i s f" "t = stamp y m d h i s f"
    "valid_fields (nat_of y) (nat_of m) (nat_of d) (nat_of h) (nat_of i) (nat_of s)"
    "ms = instant (nat_of y) (nat_of m) (nat_of d) (nat_of h) (nat_of i) (nat_of s) (nat_of f)"
    using parse_timestamp_elim [OF assms] by blast
  note b = valid_fields_bounds [OF a(4)]
  let ?D = "days_from_civil (int (nat_of y)) (int (nat_of m)) (int (nat_of d))"
  have y: "1 \<le> nat_of y" "nat_of y \<le> 9999" "nat_of f < 1000"
    using a(4) nat_of_less [of y] nat_of_less [of f] a(1,2) by (auto simp: valid_fields_def digit_fields_def stamp_lengths_def)
  have vlo: "valid_date 1 1 1" "days_from_civil 1 1 1 = - 719162"
    and vhi: "valid_date 9999 12 31" "days_from_civil 9999 12 31 = 2932896" by code_simp+
  have v: "valid_date (int (nat_of y)) (int (nat_of m)) (int (nat_of d))" using a(4) by (simp add: valid_fields_def)
  have "- 719162 \<le> ?D"
  proof (cases "nat_of y = 1 \<and> nat_of m = 1 \<and> nat_of d = 1")
    case False
    then show ?thesis using days_from_civil_less [OF vlo(1) v] vlo(2) y b by force
  qed (simp add: vlo(2))
  moreover have "?D \<le> 2932896"
  proof (cases "nat_of y = 9999 \<and> nat_of m = 12 \<and> nat_of d = 31")
    case False
    then show ?thesis using days_from_civil_less [OF v vhi(1)] vhi(2) y b by force
  qed (simp add: vhi(2))
  ultimately show ?thesis
    using b y(3) by (simp add: a(5) instant_def first_millis_def last_millis_def)
qed

section \<open>Shifting\<close>

lemma shift_eq_Inr:
  "shift t secs = Inr u \<longleftrightarrow>
    (\<exists>ms. parse_timestamp t = Inr ms \<and> in_i64 (secs * 1000) \<and> parse_timestamp u = Inr (ms + secs * 1000))"
    (is "?L \<longleftrightarrow> ?R")
proof
  assume ?L
  then obtain ms where ms: "parse_timestamp t = Inr ms" "in_i64 (secs * 1000)"
    "first_millis \<le> ms + secs * 1000" "ms + secs * 1000 \<le> last_millis" "u = format_millis (ms + secs * 1000)"
    by (auto simp: shift_def split: option.splits if_splits bind_splits)
  with parse_format show ?R by blast
next
  assume ?R
  then obtain ms where ms: "parse_timestamp t = Inr ms" "in_i64 (secs * 1000)" "parse_timestamp u = Inr (ms + secs * 1000)"
    by blast
  have r: "first_millis \<le> ms + secs * 1000" "ms + secs * 1000 \<le> last_millis"
    using parse_timestamp_range [OF ms(3)] by auto
  then have "in_i64 (ms + secs * 1000)"
    by (simp add: in_i64_def i64_min_def i64_max_def first_millis_def last_millis_def)
  with ms r format_parse [OF ms(3)] show ?L by (simp add: shift_def checked_i64_def)
qed

lemma shift_error: "shift t secs = Inl e \<Longrightarrow> e = bad_timestamp"
  by (auto simp: shift_def and_then_eq_Inl dest: parse_timestamp_error split: option.splits if_splits)

section \<open>Durations are never negative\<close>

definition duration_ok :: "duration_state \<Rightarrow> bool" where
  "duration_ok st \<longleftrightarrow> 0 \<le> total_of st \<and> total_of st \<le> i64_max \<and> 0 \<le> digits_of st \<and> digits_of st \<le> i64_max"

lemma unit_scale_pos: "0 \<le> unit_scale u"
  by (simp add: unit_scale_def)

lemma duration_char_ok:
  "duration_char units st c = Inr st' \<Longrightarrow> duration_ok st \<Longrightarrow> duration_ok st'"
  using unit_scale_pos [of c]
  by (auto simp: duration_ok_def in_i64_def i64_max_def split: if_splits option.splits bind_splits
      intro: add_nonneg_nonneg)

lemma duration_chars_ok:
  "duration_chars units st cs = Inr st' \<Longrightarrow> duration_ok st \<Longrightarrow> duration_ok st'"
  by (induction units st cs rule: duration_chars.induct)
    (auto simp del: duration_char.simps dest: duration_char_ok split: if_splits)

lemma parse_duration_nonneg:
  assumes "parse_duration_seconds d = Inr n"
  shows "0 \<le> n" and "n \<le> i64_max"
proof -
  obtain rest where "strip_prefix d ''P'' = Some rest"
    using assms by (cases "strip_prefix d ''P''") (auto simp: parse_duration_seconds_def)
  with assms obtain st st' date_part time_part where
    "duration_chars ''D'' \<lparr>total_of = 0, digits_of = 0, have_digits = False, saw_component = False\<rparr> date_part = Inr st"
    "duration_chars ''HMS'' st (case time_part of Some t \<Rightarrow> t | None \<Rightarrow> []) = Inr st'" "n = total_of st'"
    by (auto simp: parse_duration_seconds_def split: if_splits)
  moreover have "duration_ok \<lparr>total_of = 0, digits_of = 0, have_digits = False, saw_component = False\<rparr>"
    by (simp add: duration_ok_def i64_max_def)
  ultimately have "duration_ok st'" by (blast intro: duration_chars_ok)
  with \<open>n = total_of st'\<close> show "0 \<le> n" "n \<le> i64_max" by (simp_all add: duration_ok_def)
qed

lemma duration_chars_error: "duration_chars units st cs = Inl e \<Longrightarrow> e = bad_duration"
  by (induction units st cs rule: duration_chars.induct)
    (auto simp: and_then_eq_Inl split: if_splits option.splits)

text \<open>A whole number of days, written the way a seal writes it, is read as that many days.\<close>

lemma duration_digits:
  assumes "list_all is_digit ds" and "digits_of st * 10 ^ length ds + int (nat_of ds) \<le> i64_max" and "0 \<le> digits_of st"
  shows "duration_chars units st (ds @ cs) =
    duration_chars units (if ds = [] then st else st\<lparr>digits_of := digits_of st * 10 ^ length ds + int (nat_of ds), have_digits := True\<rparr>) cs"
  using assms
proof (induction ds arbitrary: st)
  case Nil
  then show ?case by simp
next
  case (Cons c ds)
  let ?n = "digits_of st * 10 + int (digit_val c)"
  have e: "?n * 10 ^ length ds + int (nat_of ds) = digits_of st * 10 ^ length (c # ds) + int (nat_of (c # ds))"
    by (simp add: nat_of_Cons algebra_simps)
  have n0: "0 \<le> ?n" using Cons.prems(3) by simp
  have "?n * 1 \<le> ?n * 10 ^ length ds" using n0 by (intro mult_left_mono) auto
  also have "\<dots> \<le> ?n * 10 ^ length ds + int (nat_of ds)" by simp
  also have "\<dots> \<le> i64_max" unfolding e by (rule Cons.prems(2))
  finally have n: "0 \<le> ?n" "?n \<le> i64_max" using n0 by simp_all
  then have "in_i64 ?n" "in_i64 (digits_of st * 10)"
    using Cons.prems(3) by (auto simp: in_i64_def i64_min_def)
  then have "duration_char units st c = Inr (st\<lparr>digits_of := ?n, have_digits := True\<rparr>)"
    using Cons.prems(1) by (simp add: checked_i64_def)
  with Cons.IH [of "st\<lparr>digits_of := ?n, have_digits := True\<rparr>"] Cons.prems n e show ?case
    by (simp del: duration_char.simps add: nat_of_Cons algebra_simps)
qed

lemma whole_days:
  assumes "int n * 86400 \<le> i64_max"
  shows "parse_duration_seconds (''P'' @ show_nat n @ ''D'') = Inr (int n * 86400)"
proof -
  have d: "list_all is_digit (show_nat n)" "show_nat n \<noteq> []" using show_nat_digits by auto
  then have "CHR ''T'' \<notin> set (show_nat n @ ''D'')" by (auto simp: list_all_iff is_digit_def octet_def)
  then have s: "split_once (show_nat n @ ''D'') (CHR ''T'') = None" by (simp only: split_once_eq_None not_False_eq_True)
  have i: "in_i64 (int n * 86400)" using assms by (simp add: in_i64_def i64_min_def)
  have "int n \<le> i64_max" using assms by simp
  then have "duration_chars ''D'' \<lparr>total_of = 0, digits_of = 0, have_digits = False, saw_component = False\<rparr>
      (show_nat n @ ''D'') = Inr \<lparr>total_of = int n * 86400, digits_of = 0, have_digits = False, saw_component = True\<rparr>"
    using d i by (subst duration_digits) (simp_all add: is_digit_def octet_def unit_scale_def checked_i64_def)
  then show ?thesis
    using d s by (simp add: parse_duration_seconds_def duration_parts_def strip_prefix_def starts_with_def)
qed

section \<open>The clock that only moves forward\<close>

lemma advanced_later:
  assumes "new_advanced_clock a = Inr adv" and "parse_timestamp base = Inr ms"
  shows "base < advanced_now adv base \<or> advanced_now adv base = last_representable_instant"
    and "is_timestamp (advanced_now adv base)"
proof -
  from assms(1) have a: "0 < seconds adv" by (auto simp: new_advanced_clock_def split: if_splits)
  have last: "is_timestamp last_representable_instant" by code_simp
  have "(base < advanced_now adv base \<or> advanced_now adv base = last_representable_instant)
    \<and> is_timestamp (advanced_now adv base)"
  proof (cases "shift base (seconds adv)")
    case (Inl e)
    with last show ?thesis by (simp add: advanced_now_def)
  next
    case (Inr u)
    then obtain ms where "parse_timestamp base = Inr ms" "parse_timestamp u = Inr (ms + seconds adv * 1000)"
      by (auto simp: shift_eq_Inr)
    with parse_timestamp_order(1) [OF this] a Inr validators_agree show ?thesis by (auto simp: advanced_now_def)
  qed
  then show "base < advanced_now adv base \<or> advanced_now adv base = last_representable_instant"
    and "is_timestamp (advanced_now adv base)" by auto
qed

lemma unmoved_advanced:
  assumes "shift base (seconds adv) = Inr u"
  shows "unmoved (advanced_now adv base) (seconds adv) = base"
proof -
  from assms obtain ms where p: "parse_timestamp base = Inr ms" "in_i64 (seconds adv * 1000)"
    "parse_timestamp u = Inr (ms + seconds adv * 1000)" by (auto simp: shift_eq_Inr)
  have "in_i64 (- seconds adv * 1000)"
    using parse_timestamp_range [OF p(1)] parse_timestamp_range [OF p(3)]
    by (simp add: in_i64_def i64_min_def i64_max_def first_millis_def last_millis_def)
  with p have "shift u (- seconds adv) = Inr base" by (auto simp: shift_eq_Inr)
  with assms show ?thesis by (simp add: unmoved_def advanced_now_def)
qed

section \<open>Properties\<close>

text \<open>Day numbers and civil dates correspond one to one: the date computed for a day is valid and has
  that day number, and the day number of a valid date gives the date back.\<close>

lemma civil_date_bijection:
  "civil_from_days z = (y, m, d) \<longleftrightarrow> valid_date y m d \<and> days_from_civil y m d = z"
  using civil_from_days_valid [of z y m d] civil_of_days_from_civil [of y m d] by auto

text \<open>The two independent validators of the timestamp form, the one of the envelope verifier and the
  parser of the host clock, accept exactly the same strings.\<close>

lemma timestamp_validators_agree:
  "is_timestamp t \<longleftrightarrow> (\<exists>ms. parse_timestamp t = Inr ms)"
  by (rule validators_agree)

text \<open>Parsing and rendering are inverse: a string parses to an instant exactly when the instant lies in the
  representable years and the string is the instant's rendering, so every instant has one spelling.\<close>

lemma timestamp_round_trip:
  "parse_timestamp t = Inr ms \<longleftrightarrow> first_millis \<le> ms \<and> ms \<le> last_millis \<and> t = format_millis ms"
  using parse_timestamp_range [of t ms] format_parse [of t ms] parse_format [of ms] by auto

text \<open>The string order of valid timestamps is the order of the instants they denote, which is what every
  comparison of two timestamps as strings in the verifier relies on.\<close>

lemma timestamp_string_order:
  assumes "parse_timestamp a = Inr ma" and "parse_timestamp b = Inr mb"
  shows "(a < b \<longleftrightarrow> ma < mb) \<and> (a \<le> b \<longleftrightarrow> ma \<le> mb) \<and> (a = b \<longleftrightarrow> ma = mb)"
  using parse_timestamp_order [OF assms] by simp

theorem timestamp_string_order_witness:
  "''2024-02-29T23:59:59.999Z'' < ''2024-03-01T00:00:00.000Z'' \<longleftrightarrow> (1709251199999 :: int) < 1709251200000"
proof -
  have "parse_timestamp ''2024-02-29T23:59:59.999Z'' = Inr 1709251199999"
    "parse_timestamp ''2024-03-01T00:00:00.000Z'' = Inr 1709251200000" by code_simp+
  from timestamp_string_order [OF this] show ?thesis by blast
qed

text \<open>Shifting a timestamp by a number of seconds succeeds exactly when the product fits in an \<open>i64\<close> and the
  sum is a representable instant, and the result denotes exactly the sum.\<close>

lemma shift_exact:
  "shift t secs = Inr u \<longleftrightarrow>
     (\<exists>ms. parse_timestamp t = Inr ms \<and> in_i64 (secs * 1000) \<and> parse_timestamp u = Inr (ms + secs * 1000))"
  by (rule shift_eq_Inr)

text \<open>A duration never moves an instant backwards: whatever duration string a policy or a mandate carries,
  adding it either fails or gives a timestamp that is not earlier, by exactly the seconds parsed.\<close>

lemma add_duration_forward:
  assumes "add_duration at d = Inr u"
  shows "at \<le> u \<and> is_timestamp u
    \<and> (\<exists>n ms. parse_duration_seconds d = Inr n \<and> parse_timestamp at = Inr ms \<and> parse_timestamp u = Inr (ms + n * 1000))"
proof -
  from assms obtain n where n: "parse_duration_seconds d = Inr n" "shift at n = Inr u"
    by (auto simp: add_duration_def)
  then obtain ms where ms: "parse_timestamp at = Inr ms" "parse_timestamp u = Inr (ms + n * 1000)"
    by (auto simp: shift_eq_Inr)
  with n parse_timestamp_order(2) [OF ms] parse_duration_nonneg(1) [OF n(1)] validators_agree [of u]
  show ?thesis by auto
qed

theorem add_duration_forward_witness:
  "''2026-07-26T09:15:01.300Z'' \<le> ''2026-07-28T09:15:01.300Z''"
proof -
  have "add_duration ''2026-07-26T09:15:01.300Z'' ''P2D'' = Inr ''2026-07-28T09:15:01.300Z''" by code_simp
  from add_duration_forward [OF this] show ?thesis by blast
qed

text \<open>An advanced clock only moves forward: every clock the constructor admits reads later than the clock it
  wraps, or the last representable instant, always a valid timestamp; and where the advance is representable,
  subtracting it recovers the host's own reading.\<close>

lemma advanced_clock_forward:
  assumes "new_advanced_clock a = Inr adv" and "parse_timestamp base = Inr ms"
  shows "(base < advanced_now adv base \<or> advanced_now adv base = last_representable_instant)
    \<and> is_timestamp (advanced_now adv base)
    \<and> (case shift base (seconds adv) of
         Inr u \<Rightarrow> unmoved (advanced_now adv base) (seconds adv) = base
       | Inl e \<Rightarrow> advanced_now adv base = last_representable_instant)"
  using advanced_later [OF assms] unmoved_advanced [of base adv]
  by (auto simp: advanced_now_def split: sum.splits)

theorem advanced_clock_forward_witness:
  "''2026-07-26T09:15:01.300Z'' <
     advanced_now \<lparr>seconds = 86400, duration = ''P1D''\<rparr> ''2026-07-26T09:15:01.300Z''"
proof -
  have "new_advanced_clock \<lparr>seconds = 86400, duration = ''P1D''\<rparr> = Inr \<lparr>seconds = 86400, duration = ''P1D''\<rparr>"
    "parse_timestamp ''2026-07-26T09:15:01.300Z'' = Inr 1785057301300"
    "advanced_now \<lparr>seconds = 86400, duration = ''P1D''\<rparr> ''2026-07-26T09:15:01.300Z'' \<noteq> last_representable_instant"
    by code_simp+
  from advanced_clock_forward [OF this(1,2)] this(3) show ?thesis by blast
qed

end
