(* ===== verification/Json.thy ===== *)
theory Json
  imports Digits
begin

text \<open>
  The JSON values the program reads and writes: \<open>serde_json::Value\<close> with its public variants, its
  accessors, and its object map.

  The workspace builds \<open>serde_json\<close> without \<open>preserve_order\<close>, so \<open>Map\<close> is a \<open>BTreeMap\<close>: an object is
  the list of its members in increasing order of the names as octet strings, without duplicates
  (\<open>map_ok\<close>, kept by \<open>map_insert\<close> and \<open>map_remove\<close>). A number keeps the representation the parser chose:
  an unsigned or a negative 64-bit integer, or a binary64 as its bits.
\<close>

section \<open>Values\<close>

datatype jnum = PosInt u64 | NegInt int | Float "64 word"

datatype json =
    JNull
  | JBool bool
  | JNumber jnum
  | JString string
  | JArray "json list"
  | JObject "(string \<times> json) list"

type_synonym jmap = "(string \<times> json) list"

section \<open>Accessors\<close>

fun as_str :: "json \<Rightarrow> string option" where
  "as_str (JString s) = Some s"
| "as_str _ = None"

fun as_bool :: "json \<Rightarrow> bool option" where
  "as_bool (JBool b) = Some b"
| "as_bool _ = None"

fun as_array :: "json \<Rightarrow> json list option" where
  "as_array (JArray xs) = Some xs"
| "as_array _ = None"

fun as_object :: "json \<Rightarrow> jmap option" where
  "as_object (JObject m) = Some m"
| "as_object _ = None"

fun as_u64 :: "json \<Rightarrow> u64 option" where
  "as_u64 (JNumber (PosInt n)) = Some n"
| "as_u64 _ = None"

fun as_i64 :: "json \<Rightarrow> int option" where
  "as_i64 (JNumber (PosInt n)) = (if uint n \<le> i64_max then Some (uint n) else None)"
| "as_i64 (JNumber (NegInt n)) = Some n"
| "as_i64 _ = None"

fun is_number :: "json \<Rightarrow> bool" where
  "is_number (JNumber _) = True"
| "is_number _ = False"

fun is_object :: "json \<Rightarrow> bool" where
  "is_object (JObject _) = True"
| "is_object _ = False"

text \<open>\<open>value.get(k)\<close>, \<open>value[k]\<close> and \<open>value.get(k).and_then(Value::as_str)\<close>\<close>

definition get :: "json \<Rightarrow> string \<Rightarrow> json option" where
  "get v k = (case v of JObject m \<Rightarrow> map_of m k | _ \<Rightarrow> None)"

definition index :: "json \<Rightarrow> string \<Rightarrow> json" where
  "index v k = (case get v k of Some x \<Rightarrow> x | None \<Rightarrow> JNull)"

definition get_str :: "json \<Rightarrow> string \<Rightarrow> string option" where
  "get_str v k = Option.bind (get v k) as_str"

definition get_u64 :: "json \<Rightarrow> string \<Rightarrow> u64 option" where
  "get_u64 v k = Option.bind (get v k) as_u64"

definition contains_key :: "jmap \<Rightarrow> string \<Rightarrow> bool" where
  "contains_key m k \<longleftrightarrow> map_of m k \<noteq> None"

lemma as_str_eq_Some [simp]: "as_str v = Some s \<longleftrightarrow> v = JString s"
  by (cases v rule: as_str.cases) auto

lemma as_bool_eq_Some [simp]: "as_bool v = Some s \<longleftrightarrow> v = JBool s"
  by (cases v rule: as_bool.cases) auto

lemma as_array_eq_Some [simp]: "as_array v = Some s \<longleftrightarrow> v = JArray s"
  by (cases v rule: as_array.cases) auto

lemma as_object_eq_Some [simp]: "as_object v = Some s \<longleftrightarrow> v = JObject s"
  by (cases v rule: as_object.cases) auto

lemma as_u64_eq_Some [simp]: "as_u64 v = Some s \<longleftrightarrow> v = JNumber (PosInt s)"
  by (cases v rule: as_u64.cases) auto

lemma index_str: "as_str (index v k) = get_str v k"
  by (cases "get v k") (auto simp: index_def get_str_def)

lemma get_JObject [simp]: "get (JObject m) k = map_of m k"
  by (simp add: get_def)

lemma get_eq_Some: "get v k = Some x \<longleftrightarrow> (\<exists>m. v = JObject m \<and> map_of m k = Some x)"
  by (cases v) (auto simp: get_def)

lemma index_eq_iff: "y \<noteq> JNull \<Longrightarrow> index v k = y \<longleftrightarrow> get v k = Some y"
  by (auto simp: index_def split: option.splits)

lemma get_str_eq_Some: "get_str v k = Some s \<longleftrightarrow> get v k = Some (JString s)"
  by (auto simp: get_str_def bind_eq_Some_conv)

lemma get_u64_eq_Some: "get_u64 v k = Some n \<longleftrightarrow> get v k = Some (JNumber (PosInt n))"
  by (auto simp: get_u64_def bind_eq_Some_conv)

section \<open>Object maps\<close>

fun map_insert :: "string \<Rightarrow> json \<Rightarrow> jmap \<Rightarrow> jmap" where
  "map_insert k v [] = [(k, v)]"
| "map_insert k v ((l, w) # m) =
     (if k < l then (k, v) # (l, w) # m
      else if k = l then (k, v) # m
      else (l, w) # map_insert k v m)"

definition map_remove :: "string \<Rightarrow> jmap \<Rightarrow> jmap" where
  "map_remove k m = List.filter (\<lambda>(l, w). l \<noteq> k) m"

definition map_ok :: "jmap \<Rightarrow> bool" where
  "map_ok m \<longleftrightarrow> sorted_wrt (<) (List.map fst m)"

lemma map_ok_Nil [simp]: "map_ok []"
  by (simp add: map_ok_def)

lemma map_ok_Cons: "map_ok ((k, v) # m) \<longleftrightarrow> (\<forall>l\<in>fst ` set m. k < l) \<and> map_ok m"
  by (auto simp: map_ok_def)

lemma map_ok_distinct: "map_ok m \<Longrightarrow> distinct (List.map fst m)"
  unfolding map_ok_def by (metis strict_sorted_iff)

lemma map_insert_keys: "fst ` set (map_insert k v m) = insert k (fst ` set m)"
  by (induction k v m rule: map_insert.induct) auto

lemma map_insert_ok: "map_ok m \<Longrightarrow> map_ok (map_insert k v m)"
proof (induction k v m rule: map_insert.induct)
  case (2 k v l w m)
  consider "k < l" | "k = l" | "l < k" by (cases k l rule: linorder_cases) auto
  then show ?case
  proof cases
    case 1
    then show ?thesis using "2.prems" by (auto simp: map_ok_Cons intro: less_trans)
  next
    case 2
    then show ?thesis using "2.prems" by (auto simp: map_ok_Cons)
  next
    case 3
    then have "\<not> k < l" "k \<noteq> l" by auto
    with 3 "2.prems" "2.IH" map_insert_keys [of k v m] show ?thesis by (simp add: map_ok_Cons)
  qed
qed (simp add: map_ok_Cons)

lemma map_of_insert:
  "map_ok m \<Longrightarrow> map_of (map_insert k v m) = (map_of m)(k \<mapsto> v)"
proof (induction k v m rule: map_insert.induct)
  case (2 k v l w m)
  then show ?case by (auto simp: map_ok_Cons fun_eq_iff)
qed auto

lemma map_remove_ok: "map_ok m \<Longrightarrow> map_ok (map_remove k m)"
  by (induction m) (auto simp: map_remove_def map_ok_Cons)

lemma map_of_remove: "map_of (map_remove k m) = (map_of m)(k := None)"
  by (induction m) (auto simp: map_remove_def fun_eq_iff)

lemma map_remove_absent: "k \<notin> fst ` set m \<Longrightarrow> map_remove k m = m"
  by (induction m) (auto simp: map_remove_def)

lemma map_remove_insert: "map_ok m \<Longrightarrow> map_remove k (map_insert k v m) = map_remove k m"
proof (induction k v m rule: map_insert.induct)
  case (2 k v l w m)
  then show ?case by (auto simp: map_remove_def map_ok_Cons)
qed (simp add: map_remove_def)

lemma map_remove_idem [simp]: "map_remove k (map_remove k m) = map_remove k m"
  by (simp add: map_remove_def)

text \<open>A map is determined by what it looks up.\<close>

lemma map_ok_unique:
  "map_ok m \<Longrightarrow> map_ok n \<Longrightarrow> map_of m = map_of n \<Longrightarrow> m = n"
proof -
  assume ok: "map_ok m" "map_ok n" and eq: "map_of m = map_of n"
  have "set m = set n"
  proof -
    have "(k, v) \<in> set m \<longleftrightarrow> (k, v) \<in> set n" for k v
      using map_of_eq_Some_iff [OF map_ok_distinct [OF ok(1)], of k v]
        map_of_eq_Some_iff [OF map_ok_distinct [OF ok(2)], of k v] eq by simp
    then show ?thesis by auto
  qed
  then have keys: "List.map fst m = List.map fst n"
    using ok strict_sorted_equal [of "List.map fst m" "List.map fst n"] by (simp add: map_ok_def)
  have "List.map snd m = List.map (\<lambda>k. the (map_of m k)) (List.map fst m)"
    using map_ok_distinct [OF ok(1)] by (auto simp: map_of_is_SomeI)
  moreover have "List.map snd n = List.map (\<lambda>k. the (map_of n k)) (List.map fst n)"
    using map_ok_distinct [OF ok(2)] by (auto simp: map_of_is_SomeI)
  ultimately have "List.map snd m = List.map snd n" using keys eq by simp
  with keys show "m = n" by (metis zip_map_fst_snd)
qed

text \<open>Every object of a value is a map.\<close>

fun json_ok :: "json \<Rightarrow> bool" where
  "json_ok (JArray xs) = list_all json_ok xs"
| "json_ok (JObject m) = (map_ok m \<and> list_all (\<lambda>kv. json_ok (snd kv)) m)"
| "json_ok _ = True"

lemma json_ok_get: "json_ok v \<Longrightarrow> get v k = Some w \<Longrightarrow> json_ok w"
  by (fastforce simp: get_eq_Some list_all_iff dest: map_of_SomeD)

end
