(* ===== verification/Externals.thy ===== *)
theory Externals
  imports Json
begin

text \<open>
  What the program takes from other packages, as one record that every operation using any of it
  receives: the number conversions of \<open>serde_json\<close> and \<open>ryu-js\<close>, SHA-256, lowercase hexadecimal,
  Ed25519, HMAC-SHA-512 and the JSON parser. \<open>documented\<close> collects the documented behaviour the
  theorems rely on; no theorem assumes the hash to be free of collisions or the signature to be
  unforgeable.
\<close>

text \<open>What the strict deserialiser reports.\<close>

datatype parse_failure = DuplicateMember | OtherFailure

record ext =
  as_f64 :: "jnum \<Rightarrow> 64 word option"
  format_finite :: "64 word \<Rightarrow> string"
  sha256 :: "string \<Rightarrow> string"
  hex_encode :: "string \<Rightarrow> string"
  hex_decode :: "string \<Rightarrow> string option"
  vk_from_bytes :: "string \<Rightarrow> bool"
  vk_is_weak :: "string \<Rightarrow> bool"
  vk_verify_strict :: "string \<Rightarrow> string \<Rightarrow> string \<Rightarrow> bool"
  ed_sign :: "string \<Rightarrow> string \<Rightarrow> string"
  ed_public_key :: "string \<Rightarrow> string"
  hmac :: "string \<Rightarrow> string \<Rightarrow> string"
  strict_parse :: "string \<Rightarrow> parse_failure + json"

section \<open>Binary64\<close>

text \<open>\<open>f64::is_finite\<close> and comparison with zero, on the bits: the exponent is the eleven bits above the lowest
  52, and the sign is the highest bit.\<close>

definition is_finite :: "64 word \<Rightarrow> bool" where
  "is_finite b \<longleftrightarrow> unat b div 4503599627370496 mod 2048 \<noteq> 2047"

definition is_zero :: "64 word \<Rightarrow> bool" where
  "is_zero b \<longleftrightarrow> unat b mod 9223372036854775808 = 0"

section \<open>Documented behaviour\<close>

text \<open>The rendering of ECMAScript's \<open>Number::toString\<close> uses digits, sign, point and exponent only.\<close>

definition number_char :: "char \<Rightarrow> bool" where
  "number_char c \<longleftrightarrow> is_digit c \<or> c \<in> set ''+-.e''"

definition numbers_documented :: "ext \<Rightarrow> bool" where
  "numbers_documented x \<longleftrightarrow>
     (\<forall>b. is_finite b \<and> \<not> is_zero b \<longrightarrow>
          format_finite x b \<noteq> [] \<and> list_all number_char (format_finite x b) \<and> format_finite x b \<noteq> ''0'')"

definition hex_documented :: "ext \<Rightarrow> bool" where
  "hex_documented x \<longleftrightarrow>
     (\<forall>s. length (hex_encode x s) = 2 * length s \<and> list_all is_lower_hex (hex_encode x s)
          \<and> hex_decode x (hex_encode x s) = Some s)
     \<and> (\<forall>s. even (length s) \<and> list_all is_lower_hex s \<longrightarrow>
          (\<exists>b. hex_decode x s = Some b \<and> hex_encode x b = s))"

definition hash_documented :: "ext \<Rightarrow> bool" where
  "hash_documented x \<longleftrightarrow> (\<forall>s. length (sha256 x s) = 32)"

text \<open>A signature made with a secret key verifies under its public key, unless that key is weak.\<close>

definition signing_documented :: "ext \<Rightarrow> bool" where
  "signing_documented x \<longleftrightarrow>
     (\<forall>sk. length sk = 32 \<longrightarrow>
        length (ed_public_key x sk) = 32 \<and> vk_from_bytes x (ed_public_key x sk)
        \<and> \<not> vk_is_weak x (ed_public_key x sk)
        \<and> (\<forall>m. length (ed_sign x sk m) = 64 \<and> vk_verify_strict x (ed_public_key x sk) m (ed_sign x sk m)))"

text \<open>The parser builds maps.\<close>

definition parser_documented :: "ext \<Rightarrow> bool" where
  "parser_documented x \<longleftrightarrow> (\<forall>t v. strict_parse x t = Inr v \<longrightarrow> json_ok v)"

definition documented :: "ext \<Rightarrow> bool" where
  "documented x \<longleftrightarrow>
     numbers_documented x \<and> hex_documented x \<and> hash_documented x \<and> signing_documented x \<and> parser_documented x"

section \<open>A concrete instance\<close>

text \<open>
  Functions that satisfy the documentation, for the witnesses: an integer is the binary64 whose
  bits it has, hexadecimal is the real one, the hash keeps the last 32 octets of its input and
  a signature is the key followed by the tail of the message.
\<close>

definition hex_digit :: "nat \<Rightarrow> char" where
  "hex_digit n = char_of (if n < 10 then 48 + n else 87 + n)"

definition hex_value :: "char \<Rightarrow> nat" where
  "hex_value c = (if is_digit c then octet c - 48 else octet c - 87)"

fun demo_hex :: "string \<Rightarrow> string" where
  "demo_hex [] = []"
| "demo_hex (c # cs) = hex_digit (octet c div 16) # hex_digit (octet c mod 16) # demo_hex cs"

fun demo_unhex :: "string \<Rightarrow> string option" where
  "demo_unhex [] = Some []"
| "demo_unhex [c] = None"
| "demo_unhex (a # b # cs) =
     (if is_lower_hex a \<and> is_lower_hex b
      then map_option ((#) (char_of (16 * hex_value a + hex_value b))) (demo_unhex cs)
      else None)"

definition last_octets :: "string \<Rightarrow> string \<Rightarrow> string" where
  "last_octets pad s = drop (length s) (pad @ s)"

definition zeros :: string where "zeros = ''00000000000000000000000000000000''"

text \<open>For evaluation, without counting: one octet of the padded string is dropped for every octet of the string.\<close>

fun drop_along :: "string \<Rightarrow> string \<Rightarrow> string" where
  "drop_along s [] = s"
| "drop_along s (c # t) = drop_along (tl s) t"

lemma drop_along_eq: "drop_along s t = drop (length t) s"
  by (induction s t rule: drop_along.induct) (auto simp: drop_Suc)

lemma last_octets_code [code]: "last_octets pad s = drop_along (pad @ s) s"
  by (simp add: last_octets_def drop_along_eq)

fun demo_as_f64 :: "jnum \<Rightarrow> 64 word option" where
  "demo_as_f64 (PosInt n) = Some n"
| "demo_as_f64 (NegInt i) = Some (word_of_int (9223372036854775808 - i))"
| "demo_as_f64 (Float b) = Some b"

definition demo_verify :: "string \<Rightarrow> string \<Rightarrow> string \<Rightarrow> bool" where
  "demo_verify pk m sig \<longleftrightarrow> sig = pk @ last_octets zeros m"

definition demo_ext :: ext where
  "demo_ext =
     \<lparr>as_f64 = demo_as_f64, format_finite = (\<lambda>b. CHR ''-'' # show_nat (unat b)), sha256 = last_octets zeros,
      hex_encode = demo_hex, hex_decode = demo_unhex, vk_from_bytes = (\<lambda>pk. True), vk_is_weak = (\<lambda>pk. False),
      vk_verify_strict = demo_verify, ed_sign = (\<lambda>sk m. last_octets zeros sk @ last_octets zeros m),
      ed_public_key = last_octets zeros, hmac = (\<lambda>k d. last_octets (zeros @ zeros) d),
      strict_parse = (\<lambda>t. Inl OtherFailure)\<rparr>"

lemma hex_digit_ok: "n < 16 \<Longrightarrow> is_lower_hex (hex_digit n) \<and> hex_value (hex_digit n) = n"
  by (auto simp: hex_digit_def hex_value_def is_lower_hex_def is_digit_def)

lemma hex_value_ok: "is_lower_hex c \<Longrightarrow> hex_value c < 16 \<and> hex_digit (hex_value c) = c"
  by (auto simp: hex_digit_def hex_value_def is_lower_hex_def is_digit_def)

lemma demo_hex_ok:
  "length (demo_hex s) = 2 * length s \<and> list_all is_lower_hex (demo_hex s) \<and> demo_unhex (demo_hex s) = Some s"
proof (induction s)
  case (Cons c s)
  have "octet c div 16 < 16" "octet c mod 16 < 16" using octet_less [of c] by (simp_all add: less_mult_imp_div_less)
  with hex_digit_ok Cons show ?case by simp
qed simp

lemma demo_unhex_ok:
  "even (length s) \<Longrightarrow> list_all is_lower_hex s \<Longrightarrow> \<exists>b. demo_unhex s = Some b \<and> demo_hex b = s"
proof (induction s rule: demo_unhex.induct)
  case (3 a b cs)
  then have h: "hex_value a < 16" "hex_value b < 16" "hex_digit (hex_value a) = a" "hex_digit (hex_value b) = b"
    using hex_value_ok by auto
  then have "16 * hex_value a + hex_value b < 256" by simp
  with 3 h show ?case by auto
qed auto

lemma length_last_octets [simp]: "length (last_octets pad s) = length pad"
  by (simp add: last_octets_def)

lemma length_zeros [simp]: "length zeros = 32"
  by (simp add: zeros_def)

lemma last_octets_same [simp]: "length s = length pad \<Longrightarrow> last_octets pad s = s"
  by (simp add: last_octets_def)

lemma demo_documented [simp]: "documented demo_ext"
proof -
  have "numbers_documented demo_ext"
    using show_nat_digits by (auto simp: numbers_documented_def demo_ext_def number_char_def list_all_iff)
  moreover have "hex_documented demo_ext"
    using demo_hex_ok demo_unhex_ok by (simp add: hex_documented_def demo_ext_def)
  moreover have "hash_documented demo_ext" "signing_documented demo_ext" "parser_documented demo_ext"
    by (simp_all add: hash_documented_def signing_documented_def parser_documented_def demo_ext_def demo_verify_def)
  ultimately show ?thesis by (simp add: documented_def)
qed

end
