(* ===== verification/Jcs.thy ===== *)
theory Jcs
  imports Externals
begin

text \<open>
  Canonicalization, \<open>stozher-core/src/jcs.rs\<close>: the serializer over the six kinds of value with
  members in UTF-16 order, the hash of a value, strict parsing, and the scan for lone surrogate
  escapes. The serializer is shown to be injective up to the values numbers denote.
\<close>

section \<open>Order of member names\<close>

text \<open>The code points of a UTF-8 string, and the UTF-16 code units of a code point.\<close>

fun utf8_decode :: "nat list \<Rightarrow> nat list" where
  "utf8_decode [] = []"
| "utf8_decode (a # s) =
     (if a < 128 then a # utf8_decode s
      else if a < 224 then
        (case s of b # t \<Rightarrow> (a mod 32 * 64 + b mod 64) # utf8_decode t | _ \<Rightarrow> [])
      else if a < 240 then
        (case s of b # c # t \<Rightarrow> ((a mod 16 * 64 + b mod 64) * 64 + c mod 64) # utf8_decode t | _ \<Rightarrow> [])
      else
        (case s of
           b # c # d # t \<Rightarrow> (((a mod 8 * 64 + b mod 64) * 64 + c mod 64) * 64 + d mod 64) # utf8_decode t
         | _ \<Rightarrow> []))"

definition utf16_units :: "nat \<Rightarrow> nat list" where
  "utf16_units cp =
     (if cp < 65536 then [cp] else [55296 + (cp - 65536) div 1024, 56320 + (cp - 65536) mod 1024])"

definition encode_utf16 :: "string \<Rightarrow> nat list" where
  "encode_utf16 s = concat (List.map utf16_units (utf8_decode (List.map octet s)))"

definition cmp_utf16 :: "string \<Rightarrow> string \<Rightarrow> ordering" where
  "cmp_utf16 a b = cmp (encode_utf16 a) (encode_utf16 b)"

text \<open>\<open>keys.sort_by(|a, b| cmp_utf16(a, b))\<close>: a stable sort, as \<open>sort_key\<close> is.\<close>

definition sorted_keys :: "jmap \<Rightarrow> string list" where
  "sorted_keys m = sort_key encode_utf16 (List.map fst m)"

section \<open>Serialization\<close>

definition write_char :: "char \<Rightarrow> string" where
  "write_char c =
     (if octet c = 34 then [char_of (92 :: nat), char_of (34 :: nat)]
      else if octet c = 92 then [char_of (92 :: nat), char_of (92 :: nat)]
      else if octet c = 8 then char_of (92 :: nat) # ''b''
      else if octet c = 9 then char_of (92 :: nat) # ''t''
      else if octet c = 10 then char_of (92 :: nat) # ''n''
      else if octet c = 12 then char_of (92 :: nat) # ''f''
      else if octet c = 13 then char_of (92 :: nat) # ''r''
      else if octet c < 32
        then char_of (92 :: nat) # ''u00'' @ [hex_digit (octet c div 16), hex_digit (octet c mod 16)]
      else [c])"

text \<open>Over the bits of the octet, for evaluation: octets below 32, the quote and the backslash are written by the
  table above, all others as they are.\<close>

definition write_escaped :: "char \<Rightarrow> string" where "write_escaped c = write_char c"

lemmas write_escaped_code [code] = write_escaped_def [unfolded write_char_def]

lemma write_char_code [code]:
  "write_char (Char b0 b1 b2 b3 b4 b5 b6 b7) =
    (if (b5 \<or> b6 \<or> b7) \<and> (b0 \<or> \<not> b1 \<or> b2 \<or> b3 \<or> b4 \<or> \<not> b5 \<or> b6 \<or> b7)
         \<and> (b0 \<or> b1 \<or> \<not> b2 \<or> \<not> b3 \<or> \<not> b4 \<or> b5 \<or> \<not> b6 \<or> b7)
     then [Char b0 b1 b2 b3 b4 b5 b6 b7] else write_escaped (Char b0 b1 b2 b3 b4 b5 b6 b7))"
  by (cases b7; cases b6; cases b5; cases b4; cases b3; cases b2; cases b1; cases b0)
    (simp_all add: write_escaped_def write_char_def octet_bits)

text \<open>The escapes concern octets below 128 only, so writing the characters of a string is writing its
  octets.\<close>

definition write_string :: "string \<Rightarrow> string" where
  "write_string s = char_of (34 :: nat) # concat (List.map write_char s) @ [char_of (34 :: nat)]"

definition number_to_string :: "ext \<Rightarrow> jnum \<Rightarrow> string res" where
  "number_to_string x n =
     (case as_f64 x n of
        None \<Rightarrow> Inl (err ''jcs-non-finite-number'')
      | Some f \<Rightarrow>
          if \<not> is_finite f then Inl (err ''jcs-non-finite-number'')
          else if is_zero f then Inr ''0''
          else Inr (format_finite x f))"

text \<open>What stands between the brackets: the parts, with a comma before every part but the first.\<close>

fun comma_separated :: "string list \<Rightarrow> string" where
  "comma_separated [] = []"
| "comma_separated [s] = s"
| "comma_separated (s # ss) = s @ CHR '','' # comma_separated ss"

lemma sorted_keys_in [simp]: "set (sorted_keys m) = fst ` set m"
  by (simp add: sorted_keys_def)

lemma size_map_of [termination_simp]:
  assumes "(k, w) \<in> set m"
  shows "size (the (map_of m k)) < Suc (size_list (\<lambda>kv. Suc (size (snd kv))) m)"
proof -
  from assms obtain v where v: "map_of m k = Some v" by (cases "map_of m k") (force simp: map_of_eq_None_iff)+
  then have "(k, v) \<in> set m" by (rule map_of_SomeD)
  then have "Suc (size v) \<le> size_list (\<lambda>kv. Suc (size (snd kv))) m"
    by (intro size_list_estimation') auto
  with v show ?thesis by simp
qed

lemma map_res_cong [fundef_cong]:
  "xs = ys \<Longrightarrow> (\<And>x. x \<in> set ys \<Longrightarrow> f x = g x) \<Longrightarrow> map_res f xs = map_res g ys"
  by (induction xs arbitrary: ys) auto

fun write_value :: "ext \<Rightarrow> json \<Rightarrow> string res" where
  "write_value x JNull = Inr ''null''"
| "write_value x (JBool True) = Inr ''true''"
| "write_value x (JBool False) = Inr ''false''"
| "write_value x (JNumber n) = number_to_string x n"
| "write_value x (JString s) = Inr (write_string s)"
| "write_value x (JArray items) =
     and_then (map_res (\<lambda>item. write_value x item) items) (\<lambda>parts.
       Inr (CHR ''['' # comma_separated parts @ '']''))"
| "write_value x (JObject m) =
     and_then (map_res (\<lambda>key.
         and_then (write_value x (the (map_of m key))) (\<lambda>s. Inr (write_string key @ CHR '':'' # s)))
       (sorted_keys m)) (\<lambda>parts.
       Inr (CHR ''{'' # comma_separated parts @ ''}''))"

definition canonicalize :: "ext \<Rightarrow> json \<Rightarrow> string res" where
  "canonicalize x v = write_value x v"

definition sha256_hex :: "ext \<Rightarrow> string \<Rightarrow> string" where
  "sha256_hex x data = hex_encode x (sha256 x data)"

definition object_hash :: "ext \<Rightarrow> json \<Rightarrow> string res" where
  "object_hash x v = and_then (canonicalize x v) (\<lambda>s. Inr (sha256_hex x s))"

section \<open>Evaluation\<close>

text \<open>For evaluation: names of ASCII letters that are in order already, as in most objects, are not sorted again. The
  comparison is over the bits.\<close>

fun bits_below :: "bool list \<Rightarrow> bool list \<Rightarrow> bool" where
  "bits_below (a # s) (b # t) \<longleftrightarrow> (if a = b then bits_below s t else b)"
| "bits_below _ _ \<longleftrightarrow> False"

fun octet_below :: "char \<Rightarrow> char \<Rightarrow> bool" where
  "octet_below (Char a0 a1 a2 a3 a4 a5 a6 a7) (Char b0 b1 b2 b3 b4 b5 b6 b7) \<longleftrightarrow>
     bits_below [a7, a6, a5, a4, a3, a2, a1, a0] [b7, b6, b5, b4, b3, b2, b1, b0]"

lemma bits_less:
  "of_bool a + 2 * m < of_bool b + 2 * (n :: nat) \<longleftrightarrow> m < n \<or> m = n \<and> b \<and> \<not> a"
  "of_bool a + 2 * m = of_bool b + 2 * n \<longleftrightarrow> m = n \<and> (a \<longleftrightarrow> b)"
  by (cases a; cases b; simp; presburger)+

lemma octet_horner:
  "octet (Char b0 b1 b2 b3 b4 b5 b6 b7) = of_bool b0 + 2 * (of_bool b1 + 2 * (of_bool b2 + 2 * (of_bool b3
     + 2 * (of_bool b4 + 2 * (of_bool b5 + 2 * (of_bool b6 + 2 * (of_bool b7 + 2 * 0)))))))"
  by (simp add: octet_bits)

lemma octet_below_eq: "octet_below c d \<longleftrightarrow> octet c < octet d"
  by (cases c; cases d; simp only: octet_horner bits_less octet_below.simps bits_below.simps) auto

lemma less_char_code [code]:
  "Char a0 a1 a2 a3 a4 a5 a6 a7 < Char b0 b1 b2 b3 b4 b5 b6 b7 \<longleftrightarrow>
     octet_below (Char a0 a1 a2 a3 a4 a5 a6 a7) (Char b0 b1 b2 b3 b4 b5 b6 b7)"
  by (simp only: octet_below_eq char_less_octet)

fun ascii :: "char \<Rightarrow> bool" where
  "ascii (Char b0 b1 b2 b3 b4 b5 b6 b7) \<longleftrightarrow> \<not> b7"

lemma ascii_eq: "ascii c \<longleftrightarrow> octet c < 128"
proof (cases c)
  case (Char b0 b1 b2 b3 b4 b5 b6 b7)
  then show ?thesis
    by (cases b7; cases b6; cases b5; cases b4; cases b3; cases b2; cases b1; cases b0) (simp_all add: octet_bits)
qed

fun ascii_ordered :: "string \<Rightarrow> string \<Rightarrow> bool" where
  "ascii_ordered [] t = (t \<noteq> [] \<and> list_all ascii t)"
| "ascii_ordered (c # s) [] = False"
| "ascii_ordered (c # s) (d # t) =
     (ascii c \<and> ascii d \<and> (if c = d then ascii_ordered s t else octet_below c d \<and> list_all ascii s \<and> list_all ascii t))"

fun names_ordered :: "string list \<Rightarrow> bool" where
  "names_ordered [] \<longleftrightarrow> True"
| "names_ordered [a] \<longleftrightarrow> list_all ascii a"
| "names_ordered (a # b # s) \<longleftrightarrow> ascii_ordered a b \<and> names_ordered (b # s)"

lemma encode_ascii: "list_all ascii s \<Longrightarrow> encode_utf16 s = List.map octet s"
  by (induction s) (auto simp: encode_utf16_def utf16_units_def ascii_eq)

lemma ascii_ordered_less: "ascii_ordered a b \<Longrightarrow> list_all ascii a \<and> list_all ascii b \<and> List.map octet a < List.map octet b"
  by (induction a b rule: ascii_ordered.induct) (auto simp: octet_below_eq neq_Nil_conv split: if_splits)

lemma names_ordered_sorted:
  "names_ordered s \<Longrightarrow> sorted (List.map encode_utf16 s) \<and> distinct (List.map encode_utf16 s) \<and> (\<forall>a \<in> set s. list_all ascii a)"
proof (induction s rule: names_ordered.induct)
  case (3 a b s)
  then have IH: "sorted (List.map encode_utf16 (b # s))" "distinct (List.map encode_utf16 (b # s))"
    "\<forall>c \<in> set (b # s). list_all ascii c" by auto
  from 3 ascii_ordered_less have less: "encode_utf16 a < encode_utf16 b" and a: "list_all ascii a" by (auto simp: encode_ascii)
  with IH have "\<forall>c \<in> set (b # s). encode_utf16 a < encode_utf16 c" by auto
  with IH a show ?case by (auto simp: less_le)
qed simp_all

lemma sorted_keys_code [code]:
  "sorted_keys m = (let names = List.map fst m in if names_ordered names then names else sort_key encode_utf16 names)"
  using names_ordered_sorted [of "List.map fst m"] by (simp add: sorted_keys_def Let_def sort_key_id_if_sorted)

text \<open>Hexadecimal digits, from the bits.\<close>

definition nibble :: "bool \<Rightarrow> bool \<Rightarrow> bool \<Rightarrow> bool \<Rightarrow> char" where
  "nibble b0 b1 b2 b3 =
     (if b3 \<and> (b1 \<or> b2) then Char (\<not> b0) (b0 = b1) (b2 \<and> b1 \<or> b2 \<and> b0) False False True True False
      else Char b0 b1 b2 b3 True True False False)"

lemma demo_hex_nil [code]: "demo_hex [] = []"
  by simp

lemma demo_hex_code [code]:
  "demo_hex (Char b0 b1 b2 b3 b4 b5 b6 b7 # cs) = nibble b4 b5 b6 b7 # nibble b0 b1 b2 b3 # demo_hex cs"
  by (cases b7; cases b6; cases b5; cases b4; cases b3; cases b2; cases b1; cases b0)
    (simp_all add: nibble_def hex_digit_def octet_bits char_of_def bit_numeral_rec bit_1_0 bit_0)

text \<open>The members of such an object, written as they stand.\<close>

fun write_members :: "ext \<Rightarrow> jmap \<Rightarrow> string list res" where
  "write_members x [] = Inr []"
| "write_members x ((key, v) # m) =
     and_then (write_value x v) (\<lambda>s. and_then (write_members x m) (\<lambda>parts. Inr ((write_string key @ CHR '':'' # s) # parts)))"

lemma write_members_eq:
  "set m \<subseteq> set n \<Longrightarrow> distinct (List.map fst n) \<Longrightarrow>
   map_res (\<lambda>key. and_then (write_value x (the (map_of n key))) (\<lambda>s. Inr (write_string key @ CHR '':'' # s))) (List.map fst m)
   = write_members x m"
  by (induction m) (auto simp: and_then_assoc)

lemma write_object_code:
  "write_value x (JObject m) =
     (if names_ordered (List.map fst m)
      then and_then (write_members x m) (\<lambda>parts. Inr (CHR ''{'' # comma_separated parts @ ''}''))
      else and_then (map_res (\<lambda>key.
         and_then (write_value x (the (map_of m key))) (\<lambda>s. Inr (write_string key @ CHR '':'' # s)))
       (sorted_keys m)) (\<lambda>parts. Inr (CHR ''{'' # comma_separated parts @ ''}'')))"
proof (cases "names_ordered (List.map fst m)")
  case True
  from names_ordered_sorted [OF this] have "distinct (List.map encode_utf16 (List.map fst m))" by blast
  then have "distinct (List.map fst m)" by (simp only: distinct_map)
  from write_members_eq [OF order.refl this] True show ?thesis by (simp add: sorted_keys_code)
qed simp

lemmas write_value_code [code] = write_value.simps(1-6) write_object_code

section \<open>Strict parsing\<close>

text \<open>\<open>u32::from_str_radix\<close> of a four-octet slice: an optional plus sign and hexadecimal digits.\<close>

definition hex_digit_value :: "char \<Rightarrow> nat" where
  "hex_digit_value c =
     (if is_digit c then octet c - 48 else if octet c < 97 then octet c - 55 else octet c - 87)"

definition from_str_radix16 :: "string \<Rightarrow> nat option" where
  "from_str_radix16 s =
     (let ds = (case s of c # cs \<Rightarrow> if c = CHR ''+'' then cs else s | [] \<Rightarrow> [])
      in if ds \<noteq> [] \<and> list_all is_hex_digit ds
         then Some (foldl (\<lambda>n c. 16 * n + hex_digit_value c) 0 ds) else None)"

definition hex_at :: "string \<Rightarrow> nat option" where
  "hex_at s = (if length s < 4 then None else from_str_radix16 (take 4 s))"

definition is_high :: "nat \<Rightarrow> bool" where "is_high cp \<longleftrightarrow> 55296 \<le> cp \<and> cp \<le> 56319"
definition is_low :: "nat \<Rightarrow> bool" where "is_low cp \<longleftrightarrow> 56320 \<le> cp \<and> cp \<le> 57343"

text \<open>The scan, with what is left of the text in the place of the index \<open>i\<close>.\<close>

function surrogate_scan :: "bool \<Rightarrow> string \<Rightarrow> bool" where
  "surrogate_scan in_string s =
     (case s of
        [] \<Rightarrow> False
      | c # cs \<Rightarrow>
          if \<not> in_string then surrogate_scan (octet c = 34) cs
          else if octet c = 34 then surrogate_scan False cs
          else if octet c = 92 then
            (if take 1 cs = ''u'' then
               (case hex_at (drop 2 s) of
                  Some cp \<Rightarrow>
                    if is_high cp then
                      (let paired = take 2 (drop 6 s) = char_of (92 :: nat) # ''u''
                          \<and> (case hex_at (drop 8 s) of Some low \<Rightarrow> is_low low | None \<Rightarrow> False)
                       in if \<not> paired then True else surrogate_scan True (drop 12 s))
                    else if is_low cp then True
                    else surrogate_scan True (drop 6 s)
                | None \<Rightarrow> surrogate_scan True (drop 2 s))
             else surrogate_scan True (drop 2 s))
          else surrogate_scan True cs)"
  by pat_completeness auto
termination by (relation "measure (\<lambda>(b, s). length s)") auto

declare surrogate_scan.simps [simp del]

definition has_lone_surrogate_escape :: "string \<Rightarrow> bool" where
  "has_lone_surrogate_escape text = surrogate_scan False text"

definition parse :: "ext \<Rightarrow> string \<Rightarrow> json res" where
  "parse x text =
     (case strict_parse x text of
        Inr v \<Rightarrow> Inr v
      | Inl failure \<Rightarrow>
          if failure = DuplicateMember then Inl (err ''jcs-duplicate-key'')
          else if has_lone_surrogate_escape text then Inl (err ''jcs-lone-surrogate'')
          else Inl (err ''jcs-malformed-json''))"

section \<open>Strict deserialization\<close>

text \<open>\<open>StrictVisitor::visit_map\<close>, over the members the deserialiser delivers in text order: the first
  repeated name stops it.\<close>

fun visit_map :: "jmap \<Rightarrow> (string \<times> json) list \<Rightarrow> parse_failure + json" where
  "visit_map m [] = Inr (JObject m)"
| "visit_map m ((k, v) # rest) =
     (if contains_key m k then Inl DuplicateMember else visit_map (map_insert k v m) rest)"


section \<open>The serializer is injective\<close>

text \<open>Two values are the same when they differ in the representation of numbers only: equal trees with
  numbers compared by their ECMAScript rendering, objects by what they look up.\<close>

inductive same :: "ext \<Rightarrow> json \<Rightarrow> json \<Rightarrow> bool" for x where
  same_null: "same x JNull JNull"
| same_bool: "same x (JBool b) (JBool b)"
| same_number: "number_to_string x n = Inr s \<Longrightarrow> number_to_string x m = Inr s \<Longrightarrow> same x (JNumber n) (JNumber m)"
| same_string: "same x (JString s) (JString s)"
| same_array: "list_all2 (same x) vs ws \<Longrightarrow> same x (JArray vs) (JArray ws)"
| same_object:
    "fst ` set m = fst ` set n \<Longrightarrow>
     (\<And>k. k \<in> fst ` set m \<Longrightarrow> same x (the (map_of m k)) (the (map_of n k))) \<Longrightarrow>
     same x (JObject m) (JObject n)"

inductive_simps same_simps:
  "same x JNull w" "same x (JBool b) w" "same x (JNumber n) w" "same x (JString s) w"
  "same x (JArray vs) w" "same x (JObject m) w"

subsection \<open>Strings read back\<close>

definition read_char :: "string \<Rightarrow> char \<times> string" where
  "read_char s =
     (case s of
        c # e # r \<Rightarrow>
          if octet c \<noteq> 92 then (c, e # r)
          else if octet e = 34 \<or> octet e = 92 then (e, r)
          else if e = CHR ''b'' then (char_of (8 :: nat), r)
          else if e = CHR ''t'' then (char_of (9 :: nat), r)
          else if e = CHR ''n'' then (char_of (10 :: nat), r)
          else if e = CHR ''f'' then (char_of (12 :: nat), r)
          else if e = CHR ''r'' then (char_of (13 :: nat), r)
          else (char_of (16 * hex_value (r ! 2) + hex_value (r ! 3)), drop 4 r)
      | [c] \<Rightarrow> (c, [])
      | [] \<Rightarrow> (CHR '' '', []))"

lemma char_of_eq: "octet c = n \<Longrightarrow> char_of n = c"
  by auto

lemma octet_letters [simp]:
  "octet (CHR ''b'') = 98" "octet (CHR ''t'') = 116" "octet (CHR ''n'') = 110" "octet (CHR ''f'') = 102"
  "octet (CHR ''r'') = 114" "octet (CHR ''u'') = 117"
  by (simp_all add: octet_def)

lemma read_write_char: "read_char (write_char c @ u) = (c, u)"
proof -
  consider "octet c \<in> {34, 92, 8, 9, 10, 12, 13}" | "octet c < 32" "octet c \<notin> {34, 92, 8, 9, 10, 12, 13}"
    | "32 \<le> octet c" "octet c \<noteq> 34" "octet c \<noteq> 92" by fastforce
  then show ?thesis
  proof cases
    case 1
    then show ?thesis by (auto simp: write_char_def read_char_def char_of_eq)
  next
    case 2
    have "hex_value (hex_digit (octet c div 16)) = octet c div 16" "hex_value (hex_digit (octet c mod 16)) = octet c mod 16"
      using hex_digit_ok [of "octet c div 16"] hex_digit_ok [of "octet c mod 16"] 2(1) by auto
    with 2 show ?thesis by (simp add: write_char_def read_char_def mult.commute)
  next
    case 3
    then show ?thesis by (cases u) (auto simp: write_char_def read_char_def)
  qed
qed

lemma write_char_head: "\<exists>a r. write_char c = a # r \<and> octet a \<noteq> 34"
  by (auto simp: write_char_def)

lemma write_char_inj: "write_char c @ u = write_char d @ v \<Longrightarrow> c = d \<and> u = v"
  by (metis read_write_char prod.inject)

lemma write_chars_inj:
  assumes "octet q = 34"
  shows "concat (List.map write_char s) @ q # u = concat (List.map write_char t) @ q # v \<Longrightarrow> s = t \<and> u = v"
proof (induction s arbitrary: t)
  case Nil
  show ?case
  proof (cases t)
    case (Cons d t')
    obtain a r where "write_char d = a # r" "octet a \<noteq> 34" using write_char_head by blast
    with Nil Cons assms show ?thesis by auto
  qed (use Nil in simp)
next
  case (Cons c s)
  show ?case
  proof (cases t)
    case Nil
    obtain a r where "write_char c = a # r" "octet a \<noteq> 34" using write_char_head by blast
    with Cons.prems Nil assms show ?thesis by auto
  next
    case (Cons d t')
    with Cons.prems write_char_inj [of c _ d] have "c = d"
      "concat (List.map write_char s) @ q # u = concat (List.map write_char t') @ q # v" by auto
    with Cons.IH Cons show ?thesis by simp
  qed
qed

lemma write_string_inj: "write_string s @ u = write_string t @ v \<Longrightarrow> s = t \<and> u = v"
  using write_chars_inj [of "char_of (34 :: nat)" s u t v] by (simp add: write_string_def)

subsection \<open>Values read back\<close>

definition delimited :: "string \<Rightarrow> bool" where
  "delimited r \<longleftrightarrow> r = [] \<or> hd r \<in> set '',]}''"

lemma delimited_simps [simp]:
  "delimited []" "delimited (c # r) \<longleftrightarrow> c \<in> set '',]}''"
  by (simp_all add: delimited_def)

lemma delimiter_not_number: "c \<in> set '',]}'' \<Longrightarrow> \<not> number_char c"
  by (auto simp: number_char_def is_digit_def octet_def)

lemma number_text:
  assumes "numbers_documented x" and "number_to_string x n = Inr s"
  shows "s \<noteq> [] \<and> list_all number_char s"
  using assms by (auto simp: numbers_documented_def number_to_string_def number_char_def is_digit_def octet_def
      split: option.splits if_splits)

lemma span_unique:
  "list_all P s \<Longrightarrow> list_all P t \<Longrightarrow> r = [] \<or> \<not> P (hd r) \<Longrightarrow> r' = [] \<or> \<not> P (hd r') \<Longrightarrow> s @ r = t @ r' \<Longrightarrow>
   s = t \<and> r = r'"
proof -
  assume a: "list_all P s" "list_all P t" "r = [] \<or> \<not> P (hd r)" "r' = [] \<or> \<not> P (hd r')" and e: "s @ r = t @ r'"
  have "takeWhile P (s @ r) = s" using a(1,3) by (cases r) (auto simp: list_all_iff takeWhile_append)
  moreover have "takeWhile P (t @ r') = t" using a(2,4) by (cases r') (auto simp: list_all_iff takeWhile_append)
  ultimately show ?thesis using e by (metis same_append_eq)
qed

text \<open>The first octet of a serialized value tells which kind it is.\<close>

definition kind_char :: "json \<Rightarrow> char \<Rightarrow> bool" where
  "kind_char v c \<longleftrightarrow>
     (case v of JNull \<Rightarrow> c = CHR ''n'' | JBool b \<Rightarrow> c = (if b then CHR ''t'' else CHR ''f'')
      | JNumber _ \<Rightarrow> number_char c | JString _ \<Rightarrow> octet c = 34 | JArray _ \<Rightarrow> c = CHR ''['' | JObject _ \<Rightarrow> c = CHR ''{'')"

lemma write_value_head:
  assumes "numbers_documented x" and "write_value x v = Inr s"
  shows "\<exists>c r. s = c # r \<and> kind_char v c"
proof (cases v)
  case (JBool b)
  with assms show ?thesis by (cases b) (auto simp: kind_char_def)
next
  case (JNumber n)
  with assms number_text [of x n s] show ?thesis by (cases s) (auto simp: kind_char_def)
qed (use assms in \<open>auto simp: kind_char_def write_string_def\<close>)

lemma kind_not_delimiter: "kind_char v c \<Longrightarrow> c \<notin> set '',]}''"
  using delimiter_not_number [of c] by (cases v) (auto simp: kind_char_def octet_def split: if_splits)

lemma quote_not_delimiter: "char_of (34 :: nat) \<noteq> CHR '',''" "char_of (34 :: nat) \<noteq> CHR '']''"
  "char_of (34 :: nat) \<noteq> CHR ''}''"
  by code_simp+

lemma comma_unique:
  assumes "map_res f xs = Inr ss" and "map_res g ys = Inr ts"
    and read: "\<And>x y s t r r'. x \<in> set xs \<Longrightarrow> f x = Inr s \<Longrightarrow> g y = Inr t \<Longrightarrow> s @ r = t @ r' \<Longrightarrow> delimited r \<Longrightarrow> delimited r'
      \<Longrightarrow> R x y \<and> r = r'"
    and hf: "\<And>x s. f x = Inr s \<Longrightarrow> \<exists>c r. s = c # r \<and> c \<notin> set '',]}''"
    and hg: "\<And>y s. g y = Inr s \<Longrightarrow> \<exists>c r. s = c # r \<and> c \<notin> set '',]}''"
    and c: "c = CHR '']'' \<or> c = CHR ''}''"
    and "comma_separated ss @ c # r = comma_separated ts @ c # r'"
  shows "list_all2 R xs ys \<and> r = r'"
  using assms(1,2,7) read
proof (induction xs arbitrary: ys ss ts)
  case Nil
  show ?case
  proof (cases ys)
    case (Cons y ys')
    with Nil obtain t ts' where t: "ts = t # ts'" "g y = Inr t" by auto
    with hg [OF t(2)] Nil c show ?thesis by (cases ts') auto
  qed (use Nil in auto)
next
  case (Cons a xs)
  then obtain s ss' where s: "ss = s # ss'" "f a = Inr s" "map_res f xs = Inr ss'" by auto
  show ?case
  proof (cases ys)
    case Nil
    with Cons s hf [OF s(2)] c show ?thesis by (cases ss') auto
  next
    case (Cons b ys')
    with Cons.prems obtain t ts' where t: "ts = t # ts'" "g b = Inr t" "map_res g ys' = Inr ts'" by auto
    define u where "u = (if ss' = [] then c # r else CHR '','' # comma_separated ss' @ c # r)"
    define u' where "u' = (if ts' = [] then c # r' else CHR '','' # comma_separated ts' @ c # r')"
    have "s @ u = t @ u'"
      using Cons.prems(3) s t by (cases ss'; cases ts') (auto simp: u_def u'_def)
    moreover have "delimited u" "delimited u'" using c by (auto simp: u_def u'_def)
    ultimately have ab: "R a b" "u = u'" using Cons.prems(4) [of a s b t u u'] s t by auto
    show ?thesis
    proof (cases "ss' = []")
      case True
      with ab c have "ts' = []" "r = r'" by (auto simp: u_def u'_def split: if_splits)
      with True s(3) t(3) ab Cons show ?thesis by (cases xs; cases ys') auto
    next
      case False
      with ab c have "ts' \<noteq> []" "comma_separated ss' @ c # r = comma_separated ts' @ c # r'"
        by (auto simp: u_def u'_def split: if_splits)
      have "list_all2 R xs ys' \<and> r = r'"
        by (rule Cons.IH [OF s(3) t(3)]) (use \<open>comma_separated ss' @ c # r = _\<close> in blast, rule Cons.prems(4), auto)
      with ab(1) Cons show ?thesis by simp
    qed
  qed
qed

lemma same_kind:
  assumes "numbers_documented x" and "write_value x v = Inr s" and "write_value x w = Inr t" and "s @ r = t @ r'"
  shows "\<exists>c. kind_char v c \<and> kind_char w c"
proof -
  obtain c u where "s = c # u" "kind_char v c" using write_value_head [OF assms(1,2)] by blast
  moreover obtain d u' where "t = d # u'" "kind_char w d" using write_value_head [OF assms(1,3)] by blast
  ultimately show ?thesis using assms(4) by auto
qed

lemma kind_char_cases:
  assumes "kind_char v c" and "kind_char w c"
  shows "(case v of JNull \<Rightarrow> w = JNull | JBool b \<Rightarrow> w = JBool b | JNumber _ \<Rightarrow> (\<exists>n. w = JNumber n)
    | JString _ \<Rightarrow> (\<exists>s. w = JString s) | JArray _ \<Rightarrow> (\<exists>ys. w = JArray ys) | JObject _ \<Rightarrow> (\<exists>m. w = JObject m))"
  using assms by (cases v; cases w) (auto simp: kind_char_def number_char_def is_digit_def octet_def split: if_splits)

lemma write_value_unique:
  "numbers_documented x \<Longrightarrow> write_value x v = Inr s \<Longrightarrow> write_value x w = Inr t \<Longrightarrow> s @ r = t @ r' \<Longrightarrow>
    delimited r \<Longrightarrow> delimited r' \<Longrightarrow> same x v w \<and> r = r'"
proof (induction x v arbitrary: w s t r r' rule: write_value.induct)
  case (1 x)
  obtain c where "kind_char JNull c" "kind_char w c" using same_kind [OF 1(1,2,3,4)] by auto
  then have "w = JNull" using kind_char_cases by fastforce
  with 1 show ?case by (auto intro: same.intros)
next
  case (2 x)
  obtain c where "kind_char (JBool True) c" "kind_char w c" using same_kind [OF 2(1,2,3,4)] by auto
  then have "w = JBool True" using kind_char_cases by fastforce
  with 2 show ?case by (auto intro: same.intros)
next
  case (3 x)
  obtain c where "kind_char (JBool False) c" "kind_char w c" using same_kind [OF 3(1,2,3,4)] by auto
  then have "w = JBool False" using kind_char_cases by fastforce
  with 3 show ?case by (auto intro: same.intros)
next
  case (4 x n)
  obtain c where "kind_char (JNumber n) c" "kind_char w c" using same_kind [OF 4(1,2,3,4)] by auto
  then obtain m where w: "w = JNumber m" using kind_char_cases by fastforce
  have "list_all number_char s" "list_all number_char t"
    using number_text [OF 4(1)] 4(2,3) w by auto
  moreover have "r = [] \<or> \<not> number_char (hd r)" "r' = [] \<or> \<not> number_char (hd r')"
    using 4(5,6) delimiter_not_number by (auto simp: delimited_def)
  ultimately have "s = t \<and> r = r'" using 4(4) by (intro span_unique)
  with 4 w show ?case by (auto intro: same.intros)
next
  case (5 x a)
  obtain c where "kind_char (JString a) c" "kind_char w c" using same_kind [OF 5(1,2,3,4)] by auto
  then obtain b where w: "w = JString b" using kind_char_cases by fastforce
  with 5 write_string_inj [of a r b r'] show ?case by (auto intro: same.intros)
next
  case (6 x items)
  obtain c where "kind_char (JArray items) c" "kind_char w c" using same_kind [OF 6(2,3,4,5)] by auto
  then obtain ys where w: "w = JArray ys" using kind_char_cases by fastforce
  obtain ss ts where ss: "map_res (write_value x) items = Inr ss" "s = CHR ''['' # comma_separated ss @ '']''"
    and ts: "map_res (write_value x) ys = Inr ts" "t = CHR ''['' # comma_separated ts @ '']''"
    using 6(3,4) w by auto
  have "list_all2 (same x) items ys \<and> r = r'"
  proof (rule comma_unique [OF ss(1) ts(1)])
    show "same x v w \<and> r = r'"
      if "v \<in> set items" "write_value x v = Inr s" "write_value x w = Inr t" "s @ r = t @ r'" "delimited r" "delimited r'"
      for v w s t r r' using 6(1) [OF that(1) 6(2) that(2-6)] .
    show "\<exists>c r. s = c # r \<and> c \<notin> set '',]}''" if "write_value x v = Inr s" for v s
      using write_value_head [OF 6(2) that] kind_not_delimiter by blast
    then show "\<exists>c r. s = c # r \<and> c \<notin> set '',]}''" if "write_value x v = Inr s" for v s
      using that by blast
    show "comma_separated ss @ CHR '']'' # r = comma_separated ts @ CHR '']'' # r'"
      using 6(5) ss ts by simp
  qed simp
  with w show ?case by (auto intro: same.intros)
next
  case (7 x m)
  obtain c where "kind_char (JObject m) c" "kind_char w c" using same_kind [OF 7(2,3,4,5)] by auto
  then obtain n where w: "w = JObject n" using kind_char_cases by fastforce
  let ?f = "\<lambda>m key. and_then (write_value x (the (map_of m key))) (\<lambda>s. Inr (write_string key @ CHR '':'' # s))"
  let ?R = "\<lambda>k l. k = l \<and> same x (the (map_of m k)) (the (map_of n l))"
  obtain ss ts where ss: "map_res (?f m) (sorted_keys m) = Inr ss" "s = CHR ''{'' # comma_separated ss @ ''}''"
    and ts: "map_res (?f n) (sorted_keys n) = Inr ts" "t = CHR ''{'' # comma_separated ts @ ''}''"
    using 7(3,4) w by auto
  have "list_all2 ?R (sorted_keys m) (sorted_keys n) \<and> r = r'"
  proof (rule comma_unique [OF ss(1) ts(1)])
    show "?R k l \<and> r = r'"
      if k: "k \<in> set (sorted_keys m)" and "?f m k = Inr s" "?f n l = Inr t" "s @ r = t @ r'" and d: "delimited r" "delimited r'"
      for k l s t r r'
    proof -
      from that obtain s' t' where e: "write_value x (the (map_of m k)) = Inr s'" "write_value x (the (map_of n l)) = Inr t'"
        "write_string k @ CHR '':'' # s' @ r = write_string l @ CHR '':'' # t' @ r'" by auto
      from write_string_inj [OF e(3)] have kl: "k = l" "s' @ r = t' @ r'" by auto
      from 7(1) [OF k 7(2) e(1) e(2) kl(2) d] kl(1) show ?thesis by simp
    qed
    show "\<exists>c r. s = c # r \<and> c \<notin> set '',]}''" if "?f m k = Inr s" for k s
      using that by (auto simp: write_string_def quote_not_delimiter)
    show "\<exists>c r. s = c # r \<and> c \<notin> set '',]}''" if "?f n k = Inr s" for k s
      using that by (auto simp: write_string_def quote_not_delimiter)
    show "comma_separated ss @ CHR ''}'' # r = comma_separated ts @ CHR ''}'' # r'"
      using 7(5) ss ts by simp
  qed simp
  then have l: "list_all2 ?R (sorted_keys m) (sorted_keys n)" and r: "r = r'" by auto
  then have keys: "sorted_keys m = sorted_keys n"
    by (auto simp: list_all2_conv_all_nth intro: nth_equalityI)
  have "same x (the (map_of m k)) (the (map_of n k))" if "k \<in> fst ` set m" for k
    using l that unfolding keys by (auto simp: list_all2_same simp flip: sorted_keys_in keys)
  moreover have "fst ` set m = fst ` set n" using keys by (metis sorted_keys_in)
  ultimately show ?case unfolding w using r same_object [of m n x] by blast
qed

text \<open>And same values serialize alike, when their objects are maps.\<close>

lemma sorted_keys_determined:
  "map_ok m \<Longrightarrow> map_ok n \<Longrightarrow> fst ` set m = fst ` set n \<Longrightarrow> sorted_keys m = sorted_keys n"
  using strict_sorted_equal [of "List.map fst m" "List.map fst n"] by (simp add: map_ok_def sorted_keys_def)

lemma same_write_value:
  "same x v w \<Longrightarrow> json_ok v \<Longrightarrow> json_ok w \<Longrightarrow> write_value x v = write_value x w"
proof (induction rule: same.induct)
  case (same_array vs ws)
  have "map_res (write_value x) vs = map_res (write_value x) ws"
    using same_array by (induction vs ws rule: list_all2_induct) auto
  then show ?case by simp
next
  case (same_object m n)
  have "write_value x (the (map_of m k)) = write_value x (the (map_of n k))" if k: "k \<in> fst ` set m" for k
  proof -
    from k same_object.hyps(1) obtain v w where "map_of m k = Some v" "map_of n k = Some w"
      by (metis map_of_eq_None_iff not_None_eq)
    moreover from this have "json_ok v" "json_ok w"
      using json_ok_get [OF same_object.prems(1), of k] json_ok_get [OF same_object.prems(2), of k] by auto
    ultimately show ?thesis using same_object.IH [OF k] by simp
  qed
  moreover have "sorted_keys m = sorted_keys n"
    using same_object by (intro sorted_keys_determined) auto
  moreover have "k \<in> fst ` set m" if "k \<in> set (sorted_keys n)" for k
    using that same_object.hyps(1) by simp
  ultimately have "map_res (\<lambda>key. and_then (write_value x (the (map_of m key)))
        (\<lambda>s. Inr (write_string key @ CHR '':'' # s))) (sorted_keys m)
    = map_res (\<lambda>key. and_then (write_value x (the (map_of n key)))
        (\<lambda>s. Inr (write_string key @ CHR '':'' # s))) (sorted_keys n)"
    by (intro map_res_cong) simp_all
  then show ?case by simp
qed auto

lemma canonicalize_same:
  assumes "numbers_documented x" and "json_ok v" and "json_ok w" and "canonicalize x v = Inr s"
  shows "canonicalize x w = Inr s \<longleftrightarrow> same x v w"
  using assms write_value_unique [of x v s w s "[]" "[]"] same_write_value [of x v w]
  by (auto simp: canonicalize_def)

section \<open>Duplicate members\<close>

lemma visit_map_ok: "visit_map m ms = Inr v \<Longrightarrow> map_ok m \<Longrightarrow> \<exists>n. v = JObject n \<and> map_ok n"
  by (induction m ms rule: visit_map.induct) (auto simp: map_insert_ok split: if_splits)

lemma visit_map_iff:
  assumes "map_ok m"
  shows "(\<exists>v. visit_map m ms = Inr v) \<longleftrightarrow> distinct (List.map fst ms) \<and> fst ` set m \<inter> fst ` set ms = {}"
  using assms
proof (induction m ms rule: visit_map.induct)
  case (2 m k v rest)
  have c: "contains_key m k \<longleftrightarrow> k \<in> fst ` set m"
    by (simp add: contains_key_def map_of_eq_None_iff)
  show ?case using 2 map_insert_ok [OF 2(2), of k v] map_insert_keys [of k v m] c by auto
qed simp

lemma visit_map_lookup:
  "visit_map m ms = Inr (JObject n) \<Longrightarrow> map_ok m \<Longrightarrow> map_of n = map_of m ++ map_of ms"
proof (induction m ms rule: visit_map.induct)
  case (2 m k v rest)
  then have c: "\<not> contains_key m k" and r: "visit_map (map_insert k v m) rest = Inr (JObject n)"
    by (auto split: if_splits)
  from r have "k \<notin> fst ` set rest"
    using visit_map_iff [OF map_insert_ok [OF 2(3), of k v], of rest] map_insert_keys [of k v m] by auto
  then have "map_of rest k = None" by (simp add: map_of_eq_None_iff)
  with 2(1) [OF c r map_insert_ok [OF 2(3)]] show ?case
    by (auto simp: map_of_insert [OF 2(3)] map_add_def fun_eq_iff split: option.splits)
qed simp

section \<open>Properties\<close>



text \<open>The strict deserializer accepts the members of an object exactly when no name occurs twice, and what it
  builds is a map that looks up every member of the text.\<close>

lemma duplicate_members_rejected:
  "case visit_map [] members of
     Inr v \<Rightarrow> distinct (List.map fst members)
       \<and> (\<exists>m. v = JObject m \<and> map_ok m \<and> map_of m = map_of members)
   | Inl e \<Rightarrow> \<not> distinct (List.map fst members) \<and> e = DuplicateMember"
proof (cases "visit_map [] members")
  case (Inl e)
  have "visit_map m ms = Inl e \<Longrightarrow> e = DuplicateMember" for m ms
    by (induction m ms rule: visit_map.induct) (auto split: if_splits)
  with Inl visit_map_iff [of "[]" members] show ?thesis by auto
next
  case (Inr v)
  with visit_map_iff [of "[]" members] visit_map_ok [OF Inr] visit_map_lookup [of "[]" members] show ?thesis by auto
qed

end
