(* ===== verification/Crypto.thy ===== *)
theory Crypto
  imports Jcs
begin

text \<open>
  \<open>stozher-core/src/crypto.rs\<close>: strict signature verification, fixed-length hexadecimal, and SLIP-0010
  derivation of keys along a hardened path. Ed25519, HMAC and hexadecimal themselves are external.
\<close>

section \<open>Signatures and hexadecimal\<close>

definition sign :: "ext \<Rightarrow> string \<Rightarrow> string \<Rightarrow> string" where
  "sign x secret_key message = ed_sign x secret_key message"

definition public_key_of :: "ext \<Rightarrow> string \<Rightarrow> string" where
  "public_key_of x secret_key = ed_public_key x secret_key"

definition verify_strict :: "ext \<Rightarrow> string \<Rightarrow> string \<Rightarrow> string \<Rightarrow> bool" where
  "verify_strict x public_key message signature =
     (if \<not> vk_from_bytes x public_key then False
      else if vk_is_weak x public_key then False
      else vk_verify_strict x public_key message signature)"

text \<open>\<open>decode_hex::<N>\<close>\<close>

definition decode_hex :: "ext \<Rightarrow> nat \<Rightarrow> string \<Rightarrow> string res" where
  "decode_hex x n s =
     (if length s \<noteq> n * 2 \<or> \<not> list_all is_lower_hex s then Inl (err ''encoding-not-lowercase-hex'')
      else ok_or (hex_decode x s) ''encoding-not-lowercase-hex'')"

definition is_digest_hex :: "string \<Rightarrow> bool" where
  "is_digest_hex s \<longleftrightarrow> length s = 64 \<and> list_all is_lower_hex s"

lemma decode_hex_encode [simp]:
  "hex_documented x \<Longrightarrow> length b = n \<Longrightarrow> decode_hex x n (hex_encode x b) = Inr b"
  by (simp add: hex_documented_def decode_hex_def mult.commute)

lemma decode_hex_Inr:
  assumes "hex_documented x" and "decode_hex x n s = Inr b"
  shows "hex_encode x b = s \<and> length b = n"
proof -
  from assms(2) have s: "length s = 2 * n" "list_all is_lower_hex s" "hex_decode x s = Some b"
    by (auto simp: decode_hex_def split: if_splits)
  with assms(1) obtain b' where "hex_decode x s = Some b'" "hex_encode x b' = s"
    unfolding hex_documented_def by (metis even_mult_iff even_numeral)
  with s assms(1) show ?thesis by (auto simp: hex_documented_def)
qed

lemma decode_hex_total:
  "hex_documented x \<Longrightarrow> length s = 2 * n \<Longrightarrow> list_all is_lower_hex s \<Longrightarrow> \<exists>b. decode_hex x n s = Inr b \<and> length b = n"
proof -
  assume x: "hex_documented x" and s: "length s = 2 * n" "list_all is_lower_hex s"
  then obtain b where "hex_decode x s = Some b" unfolding hex_documented_def by (metis even_mult_iff even_numeral)
  with s have "decode_hex x n s = Inr b" by (simp add: decode_hex_def mult.commute)
  with decode_hex_Inr [OF x this] show ?thesis by blast
qed

lemma sha256_hex_digest:
  "hex_documented x \<Longrightarrow> hash_documented x \<Longrightarrow> is_digest_hex (sha256_hex x s)"
  by (simp add: hex_documented_def hash_documented_def is_digest_hex_def sha256_hex_def)

section \<open>SLIP-0010\<close>

definition hardened :: nat where "hardened = 2147483648"

record node =
  private_key :: string
  chain_code :: string

definition split_node :: "string \<Rightarrow> node" where
  "split_node i = \<lparr>private_key = take 32 i, chain_code = drop 32 i\<rparr>"

definition slip_master :: "ext \<Rightarrow> string \<Rightarrow> node res" where
  "slip_master x seed =
     (if length seed < 16 \<or> length seed > 64 then Inl (err ''slip10-bad-seed-length'')
      else Inr (split_node (hmac x ''ed25519 seed'' seed)))"

text \<open>\<open>index.to_be_bytes()\<close> of a \<open>u32\<close>\<close>

definition to_be_bytes :: "nat \<Rightarrow> string" where
  "to_be_bytes n = [char_of (n div 2 ^ 24 mod 256), char_of (n div 2 ^ 16 mod 256), char_of (n div 2 ^ 8 mod 256),
     char_of (n mod 256)]"

definition slip_child :: "ext \<Rightarrow> node \<Rightarrow> nat \<Rightarrow> node res" where
  "slip_child x parent idx =
     (if idx < hardened then Inl (err ''slip10-non-hardened-index'')
      else Inr (split_node (hmac x (chain_code parent) (char_of (0 :: nat) # private_key parent @ to_be_bytes idx))))"

text \<open>\<open>str::trim\<close>: the UTF-8 encodings of the characters with the property White_Space.\<close>

definition white_space :: "string list" where
  "white_space =
     List.map (List.map char_of)
       [[9], [10], [11], [12], [13], [32 :: nat], [194, 133], [194, 160], [225, 154, 128], [226, 128, 128],
        [226, 128, 129], [226, 128, 130], [226, 128, 131], [226, 128, 132], [226, 128, 133], [226, 128, 134],
        [226, 128, 135], [226, 128, 136], [226, 128, 137], [226, 128, 138], [226, 128, 168], [226, 128, 169],
        [226, 128, 175], [226, 129, 159], [227, 128, 128]]"

text \<open>Strips the listed octet strings off the front as long as one of them is there; the count bounds the
  number of strips, and the length of the string is always enough.\<close>

fun strip_front :: "string list \<Rightarrow> nat \<Rightarrow> string \<Rightarrow> string" where
  "strip_front ws 0 s = s"
| "strip_front ws (Suc n) s =
     (case List.find (\<lambda>w. starts_with s w) ws of
        None \<Rightarrow> s
      | Some w \<Rightarrow> strip_front ws n (drop (length w) s))"

definition trim_start :: "string \<Rightarrow> string" where
  "trim_start s = strip_front white_space (length s) s"

definition trim_end :: "string \<Rightarrow> string" where
  "trim_end s = rev (strip_front (List.map rev white_space) (length s) (rev s))"

fun split_on :: "char \<Rightarrow> string \<Rightarrow> string list" where
  "split_on c [] = [[]]"
| "split_on c (d # s) =
     (if d = c then [] # split_on c s
      else (case split_on c s of p # ps \<Rightarrow> (d # p) # ps | [] \<Rightarrow> [[d]]))"

definition path_index :: "string \<Rightarrow> nat res" where
  "path_index part =
     and_then (ok_or (strip_suffix part [char_of (39 :: nat)]) ''slip10-non-hardened-index'') (\<lambda>digits.
     and_then (ok_or (parse_u32 digits) ''slip10-bad-path'') (\<lambda>idx.
       if idx \<ge> hardened then Inl (err ''slip10-bad-path'') else Inr idx))"

fun derive_parts :: "ext \<Rightarrow> node \<Rightarrow> string list \<Rightarrow> node res" where
  "derive_parts x node [] = Inr node"
| "derive_parts x node (part # parts) =
     and_then (path_index part) (\<lambda>idx.
     and_then (slip_child x node (idx + hardened)) (\<lambda>node'. derive_parts x node' parts))"

definition derive :: "ext \<Rightarrow> string \<Rightarrow> string \<Rightarrow> node res" where
  "derive x seed path =
     (case split_on (CHR ''/'') (trim_end (trim_start path)) of
        [] \<Rightarrow> Inl (err ''slip10-bad-path'')
      | first # parts \<Rightarrow>
          if first \<noteq> ''m'' then Inl (err ''slip10-bad-path'')
          else and_then (slip_master x seed) (\<lambda>node. derive_parts x node parts))"

lemma slip_child_hardened: "slip_child x nd (idx + hardened) \<noteq> Inl e"
  by (simp add: slip_child_def)

text \<open>Which paths succeed does not depend on the keys: exactly those whose components are all hardened numbers.\<close>

lemma derive_parts_iff:
  "(\<exists>n. derive_parts x nd parts = Inr n) \<longleftrightarrow> (\<forall>part\<in>set parts. \<exists>i. path_index part = Inr i)"
proof (induction parts arbitrary: nd)
  case (Cons part parts)
  then show ?case using slip_child_hardened by (cases "path_index part") (auto simp: slip_child_def)
qed simp

lemma derive_parts_append:
  "derive_parts x nd (ps @ qs) = and_then (derive_parts x nd ps) (\<lambda>n. derive_parts x n qs)"
  by (induction ps arbitrary: nd) (simp_all add: and_then_assoc)

end
