(* ===== verification/Signed.thy ===== *)
theory Signed
  imports Crypto
begin

text \<open>
  \<open>stozher-core/src/signed.rs\<close>: key identifiers, which are the key itself, and the pattern of every
  signed object: the signature covers the canonical form of the object without its \<open>sig\<close> member, the
  identifier is the hash of the whole. Signing and verifying are inverse; a verified object stays
  verified exactly under changes that keep its canonical body.
\<close>

section \<open>Key identifiers\<close>

datatype key_id = KeyId (as_string: string)

text \<open>\<open>derive(PartialOrd, Ord)\<close> on the one field.\<close>

instantiation key_id :: linorder
begin

definition less_eq_key_id :: "key_id \<Rightarrow> key_id \<Rightarrow> bool" where
  "a \<le> b \<longleftrightarrow> as_string a \<le> as_string b"

definition less_key_id :: "key_id \<Rightarrow> key_id \<Rightarrow> bool" where
  "a < b \<longleftrightarrow> as_string a < as_string b"

instance
  by standard (auto simp: less_eq_key_id_def less_key_id_def key_id.expand)

end

definition key_id_prefix :: string where "key_id_prefix = ''ed25519:''"

definition key_id_parse :: "ext \<Rightarrow> string \<Rightarrow> key_id res" where
  "key_id_parse x s =
     (if length s \<noteq> 72 \<or> \<not> starts_with s key_id_prefix then Inl (err ''key-id-malformed'')
      else
        and_then (map_err (\<lambda>_. err ''key-id-malformed'') (decode_hex x 32 (drop (length key_id_prefix) s))) (\<lambda>_.
          Inr (KeyId s)))"

definition from_public_key :: "ext \<Rightarrow> string \<Rightarrow> key_id" where
  "from_public_key x public_key = KeyId (key_id_prefix @ hex_encode x public_key)"

definition key_public_key :: "ext \<Rightarrow> key_id \<Rightarrow> string res" where
  "key_public_key x k = decode_hex x 32 (drop (length key_id_prefix) (as_string k))"

section \<open>Signed objects\<close>

definition signing_input :: "ext \<Rightarrow> json \<Rightarrow> string res" where
  "signing_input x v =
     and_then (ok_or (as_object v) ''schema-type-mismatch'') (\<lambda>m.
       canonicalize x (JObject (map_remove ''sig'' m)))"

definition object_id :: "ext \<Rightarrow> json \<Rightarrow> string res" where
  "object_id x v = object_hash x v"

definition declared_signer :: "ext \<Rightarrow> json \<Rightarrow> key_id res" where
  "declared_signer x v =
     and_then (ok_or (get v ''sig'') ''schema-missing-member'') (\<lambda>s.
     and_then (ok_or (as_object s) ''schema-type-mismatch'') (\<lambda>sig.
     case Option.bind (map_of sig ''alg'') as_str of
       None \<Rightarrow> Inl (err ''schema-missing-member'')
     | Some alg \<Rightarrow>
         if alg \<noteq> ''ed25519'' then Inl (err ''crypto-unsupported-alg'')
         else
           and_then (ok_or (Option.bind (map_of sig ''key'') as_str) ''schema-missing-member'') (\<lambda>key.
             key_id_parse x key)))"

definition verify_signed_object :: "ext \<Rightarrow> json \<Rightarrow> key_id res" where
  "verify_signed_object x v =
     and_then (declared_signer x v) (\<lambda>key.
     and_then (ok_or (Option.bind (get v ''sig'') (\<lambda>s. get_str s ''value'')) ''sig-invalid'') (\<lambda>value.
     and_then (map_err (\<lambda>_. err ''sig-invalid'') (decode_hex x 64 value)) (\<lambda>signature.
     and_then (map_err (\<lambda>_. err ''sig-invalid'') (key_public_key x key)) (\<lambda>public_key.
     and_then (signing_input x v) (\<lambda>message.
       if verify_strict x public_key message signature then Inr key else Inl (err ''sig-invalid''))))))"

text \<open>The member \<open>sign_object\<close> inserts, with its names in map order.\<close>

definition sig_value :: "ext \<Rightarrow> key_id \<Rightarrow> string \<Rightarrow> json" where
  "sig_value x key signature =
     JObject [(''alg'', JString ''ed25519''), (''key'', JString (as_string key)),
              (''value'', JString (hex_encode x signature))]"

definition sign_object :: "ext \<Rightarrow> json \<Rightarrow> string \<Rightarrow> json res" where
  "sign_object x v secret_key =
     and_then (ok_or (as_object v) ''schema-type-mismatch'') (\<lambda>m0.
       let m = map_remove ''sig'' m0 in
       and_then (canonicalize x (JObject m)) (\<lambda>message.
         let signature = sign x secret_key message;
             key = from_public_key x (public_key_of x secret_key)
         in Inr (JObject (map_insert ''sig'' (sig_value x key signature) m))))"

section \<open>Facts\<close>

lemma key_id_parse_eq_Inr:
  assumes "hex_documented x"
  shows "key_id_parse x s = Inr k \<longleftrightarrow> k = KeyId s \<and> (\<exists>h. s = key_id_prefix @ h \<and> length h = 64 \<and> list_all is_lower_hex h)"
proof
  assume "key_id_parse x s = Inr k"
  then show "k = KeyId s \<and> (\<exists>h. s = key_id_prefix @ h \<and> length h = 64 \<and> list_all is_lower_hex h)"
    by (auto simp: key_id_parse_def starts_with_iff decode_hex_def split: if_splits)
next
  assume a: "k = KeyId s \<and> (\<exists>h. s = key_id_prefix @ h \<and> length h = 64 \<and> list_all is_lower_hex h)"
  then obtain h where h: "s = key_id_prefix @ h" "length h = 64" "list_all is_lower_hex h" by blast
  with decode_hex_total [OF assms, of h 32] a show "key_id_parse x s = Inr k"
    by (auto simp: key_id_parse_def key_id_prefix_def starts_with_def)
qed

lemma parse_from_public_key:
  "hex_documented x \<Longrightarrow> length pk = 32 \<Longrightarrow> key_id_parse x (as_string (from_public_key x pk)) = Inr (from_public_key x pk)"
  by (simp add: key_id_parse_eq_Inr from_public_key_def hex_documented_def)

lemma public_key_from_public_key:
  "hex_documented x \<Longrightarrow> length pk = 32 \<Longrightarrow> key_public_key x (from_public_key x pk) = Inr pk"
  by (simp add: key_public_key_def from_public_key_def key_id_prefix_def)

lemma parsed_key_has_public_key:
  assumes "hex_documented x" and "key_id_parse x s = Inr k"
  shows "\<exists>pk. key_public_key x k = Inr pk \<and> length pk = 32 \<and> from_public_key x pk = k"
proof -
  from assms obtain h where h: "k = KeyId (key_id_prefix @ h)" "length h = 64" "list_all is_lower_hex h"
    by (auto simp: key_id_parse_eq_Inr)
  with decode_hex_total [OF assms(1), of h 32] obtain pk where pk: "decode_hex x 32 h = Inr pk" "length pk = 32" by auto
  with decode_hex_Inr [OF assms(1) pk(1)] h show ?thesis
    by (auto simp: key_public_key_def from_public_key_def key_id_prefix_def)
qed

text \<open>Everything a successful verification has established.\<close>

lemma verify_signed_object_eq_Inr:
  "verify_signed_object x v = Inr k \<longleftrightarrow>
     (\<exists>value signature pk message.
        declared_signer x v = Inr k \<and> Option.bind (get v ''sig'') (\<lambda>s. get_str s ''value'') = Some value
        \<and> decode_hex x 64 value = Inr signature \<and> key_public_key x k = Inr pk
        \<and> signing_input x v = Inr message \<and> verify_strict x pk message signature)"
  by (auto simp: verify_signed_object_def split: if_splits)

lemma declared_signer_get:
  "declared_signer x v = Inr k \<Longrightarrow> \<exists>s key. get v ''sig'' = Some s \<and> get s ''key'' = Some (JString key) \<and> key_id_parse x key = Inr k"
  by (auto simp: declared_signer_def bind_eq_Some_conv split: option.splits if_splits)

lemma sign_object_eq_Inr:
  "sign_object x v sk = Inr w \<longleftrightarrow>
     (\<exists>m message. v = JObject m \<and> canonicalize x (JObject (map_remove ''sig'' m)) = Inr message
        \<and> w = JObject (map_insert ''sig''
            (sig_value x (from_public_key x (public_key_of x sk)) (sign x sk message)) (map_remove ''sig'' m)))"
  by (auto simp: sign_object_def Let_def)

lemma signed_object_verifies:
  assumes x: "documented x" and sk: "length sk = 32" and v: "json_ok v" and s: "sign_object x v sk = Inr w"
  shows "verify_signed_object x w = Inr (from_public_key x (public_key_of x sk)) \<and> signing_input x w = signing_input x v"
proof -
  from x have h: "hex_documented x" and d: "signing_documented x" by (auto simp: documented_def)
  let ?pk = "public_key_of x sk" and ?k = "from_public_key x (public_key_of x sk)"
  obtain m message where m: "v = JObject m" "canonicalize x (JObject (map_remove ''sig'' m)) = Inr message"
    "w = JObject (map_insert ''sig'' (sig_value x ?k (sign x sk message)) (map_remove ''sig'' m))"
    using s by (auto simp: sign_object_eq_Inr)
  have ok: "map_ok (map_remove ''sig'' m)" using v m(1) by (simp add: map_remove_ok)
  have input: "signing_input x w = Inr message" "signing_input x v = Inr message"
    using m ok by (simp_all add: signing_input_def map_remove_insert)
  have sig: "get w ''sig'' = Some (sig_value x ?k (sign x sk message))"
    using m ok by (simp add: map_of_insert)
  have pk: "length ?pk = 32" "length (sign x sk message) = 64" "verify_strict x ?pk message (sign x sk message)"
    using d sk by (simp_all add: signing_documented_def public_key_of_def sign_def verify_strict_def)
  have "declared_signer x w = Inr ?k"
    using sig parse_from_public_key [OF h pk(1)] by (simp add: declared_signer_def sig_value_def)
  moreover have "Option.bind (get w ''sig'') (\<lambda>s. get_str s ''value'') = Some (hex_encode x (sign x sk message))"
    using sig by (simp add: sig_value_def get_str_def)
  moreover have "decode_hex x 64 (hex_encode x (sign x sk message)) = Inr (sign x sk message)"
    using h pk(2) by (rule decode_hex_encode)
  moreover note public_key_from_public_key [OF h pk(1)] input pk(3)
  ultimately show ?thesis by (auto simp: verify_signed_object_eq_Inr)
qed

text \<open>Verification fails with one of a closed list of codes, never with a trap.\<close>

lemma verify_signed_object_code:
  assumes "verify_signed_object x v = Inl e"
  shows "e = err ''schema-missing-member'' \<or> e = err ''schema-type-mismatch'' \<or> e = err ''crypto-unsupported-alg''
    \<or> e = err ''key-id-malformed'' \<or> e = err ''sig-invalid'' \<or> signing_input x v = Inl e"
proof -
  have m: "map_err (\<lambda>_. err c) r = Inl e \<Longrightarrow> e = err c" for c and r :: "'z res" and e
    by (cases r) auto
  have k: "key_id_parse x s = Inl e \<Longrightarrow> e = err ''key-id-malformed''" for s e
    by (auto simp: key_id_parse_def and_then_eq_Inl dest: m split: if_splits)
  have "declared_signer x v = Inl e \<Longrightarrow> e \<in> err ` {''schema-missing-member'', ''schema-type-mismatch'',
      ''crypto-unsupported-alg'', ''key-id-malformed''}" for e
    by (auto simp: declared_signer_def and_then_eq_Inl dest: k split: option.splits if_splits)
  then show ?thesis
    using assms unfolding verify_signed_object_def by (fastforce simp: and_then_eq_Inl dest: m split: if_splits)
qed

section \<open>Properties\<close>

section \<open>Nothing here traps\<close>

lemma key_id_parse_no_trap [simp, trap_simps]: "\<not> traps (key_id_parse x s)"
  by (auto simp: key_id_parse_def trap_simps)

lemma write_value_no_trap: "\<not> traps (write_value x v)"
proof -
  have m: "\<not> traps (map_res f xs)" if "\<And>x. x \<in> set xs \<Longrightarrow> \<not> traps (f x)" for f :: "'p \<Rightarrow> 'q res" and xs
    using that by (induction xs) (auto simp: traps_and_then)
  show ?thesis
  proof (induction x v rule: write_value.induct)
    case (4 x n)
    then show ?case by (auto simp: number_to_string_def split: option.splits)
  next
    case (6 x items)
    then have "\<not> traps (map_res (write_value x) items)" by (intro m)
    then show ?case by (simp add: traps_and_then)
  next
    case (7 x mm)
    let ?f = "\<lambda>key. and_then (write_value x (the (map_of mm key))) (\<lambda>s. Inr (write_string key @ CHR '':'' # s))"
    have "\<not> traps (map_res ?f (sorted_keys mm))" by (intro m) (use 7 in \<open>simp add: traps_and_then\<close>)
    then show ?case by (simp add: traps_and_then)
  qed auto
qed

lemma canonicalize_no_trap [simp, trap_simps]: "\<not> traps (canonicalize x v)"
  by (simp add: canonicalize_def write_value_no_trap)

lemma object_id_no_trap [simp, trap_simps]: "\<not> traps (object_id x v)"
  by (simp add: object_id_def object_hash_def trap_simps)

lemma verify_signed_object_no_trap [simp, trap_simps]: "\<not> traps (verify_signed_object x v)"
proof -
  have "\<not> traps (declared_signer x v)"
    by (auto simp: declared_signer_def trap_simps split: option.splits)
  then show ?thesis by (auto simp: verify_signed_object_def signing_input_def trap_simps)
qed

section \<open>One identifier, one value\<close>

text \<open>Two values collide when their canonical forms are different texts with one digest.\<close>

definition collide :: "ext \<Rightarrow> json \<Rightarrow> json \<Rightarrow> bool" where
  "collide x a b \<longleftrightarrow> (\<exists>s t. canonicalize x a = Inr s \<and> canonicalize x b = Inr t \<and> s \<noteq> t \<and> sha256 x s = sha256 x t)"

lemma object_id_same:
  assumes x: "documented x" and ok: "json_ok a" "json_ok b" and i: "object_id x a = Inr i" "object_id x b = Inr i"
  shows "same x a b \<or> collide x a b"
proof -
  obtain s t where st: "canonicalize x a = Inr s" "canonicalize x b = Inr t"
    "hex_encode x (sha256 x s) = i" "hex_encode x (sha256 x t) = i"
    using i by (auto simp: object_id_def object_hash_def sha256_hex_def)
  have "hex_decode x (hex_encode x u) = Some u" for u using x by (simp add: documented_def hex_documented_def)
  then have h: "sha256 x s = sha256 x t" using st(3,4) by (metis option.inject)
  show ?thesis
  proof (cases "s = t")
    case True
    with x ok st canonicalize_same [of x a b s] show ?thesis by (simp add: documented_def)
  next
    case False
    with h st show ?thesis by (auto simp: collide_def)
  qed
qed

text \<open>Values that are the same have the same string members.\<close>

lemma same_as_str: "same x v w \<Longrightarrow> as_str v = as_str w"
  by (cases v) (auto simp: same_simps)

lemma same_get_str:
  assumes "same x a b"
  shows "get_str a k = get_str b k"
proof (cases a)
  case (JObject m)
  with assms obtain n where b: "b = JObject n" and keys: "fst ` set m = fst ` set n"
    and vals: "\<And>k. k \<in> fst ` set m \<Longrightarrow> same x (the (map_of m k)) (the (map_of n k))" by (auto simp: same_simps)
  show ?thesis
  proof (cases "map_of m k")
    case None
    then have "map_of n k = None" using keys by (simp add: map_of_eq_None_iff)
    with None show ?thesis by (simp add: get_str_def JObject b)
  next
    case (Some v)
    then have k: "k \<in> fst ` set m" by (metis map_of_eq_None_iff option.distinct(1))
    then obtain w where w: "map_of n k = Some w" using keys by (metis map_of_eq_None_iff not_None_eq)
    from vals [OF k] Some w have "as_str v = as_str w" by (simp add: same_as_str)
    with Some w show ?thesis by (simp add: get_str_def JObject b)
  qed
qed (use assms in \<open>auto simp: same_simps get_str_def get_def split: json.splits\<close>)

text \<open>C11: Signing and verifying are inverse: an object signed with a secret key verifies, names the key of that
  secret, and what was signed is exactly the canonical form of the original object without its signature.\<close>

theorem sign_verify_round_trip:
  assumes "documented x" and "length sk = 32" and "json_ok v" and "sign_object x v sk = Inr w"
  shows "verify_signed_object x w = Inr (from_public_key x (public_key_of x sk)) \<and> signing_input x w = signing_input x v"
  by (rule signed_object_verifies [OF assms])

theorem sign_verify_round_trip_witness:
  "verify_signed_object demo_ext
     (case sign_object demo_ext (JObject [(''a'', JNull), (''sig'', JNull)]) ''kkkkkkkkkkkkkkkkkkkkkkkkkkkkkkkk'' of Inr w \<Rightarrow> w | Inl e \<Rightarrow> JNull)
   = Inr (from_public_key demo_ext ''kkkkkkkkkkkkkkkkkkkkkkkkkkkkkkkk'')"
proof -
  let ?v = "JObject [(''a'', JNull), (''sig'', JNull)]" and ?sk = "''kkkkkkkkkkkkkkkkkkkkkkkkkkkkkkkk''"
  have "json_ok ?v" "\<exists>w. sign_object demo_ext ?v ?sk = Inr w"
    by (code_simp, auto simp: sign_object_eq_Inr map_remove_def canonicalize_def sorted_keys_def)
  then obtain w where w: "json_ok ?v" "sign_object demo_ext ?v ?sk = Inr w" by blast
  have "public_key_of demo_ext ?sk = ?sk" by (simp add: public_key_of_def demo_ext_def)
  with sign_verify_round_trip [OF demo_documented _ w] w(2) show ?thesis by simp
qed

end
