(* ===== verification/Envelope.thy ===== *)
theory Envelope
  imports Signed Timestamps
begin

text \<open>
  Structural validation, \<open>stozher-core/src/envelope.rs\<close>: the closed member tables, one definition per
  numbered step of \<open>validate\<close>, and their composition in the order of the code. The theorems say what an
  accepted envelope is: its members are exactly the permitted ones, its numbers are safe integers, its
  position and its signer are consistent, and its aggregate arithmetic holds; and that validation
  cannot trap.
\<close>

section \<open>Tables\<close>

definition classes :: "string list" where
  "classes = [''read'', ''benign'', ''consequential'', ''prohibited'']"

definition outcomes :: "string list" where
  "outcomes = [''applied'', ''failed'', ''denied'', ''blocked'', ''attempted'']"

definition kinds :: "string list" where
  "kinds = [''effect'', ''policy-change'', ''aggregate'', ''cognition'', ''signal'', ''mandate'', ''revocation'',
     ''gate-decision'', ''checkpoint'']"

definition version :: string where "version = ''stozher/0.1''"
definition max_safe_integer :: int where "max_safe_integer = 9007199254740991"
definition correlation_ref_max :: nat where "correlation_ref_max = 512"
definition aggregate_max_actions :: nat where "aggregate_max_actions = 1024"

definition common :: "string list" where
  "common = [''v'', ''kind'', ''emitted-at'', ''stream'', ''seq'', ''prev-hash'', ''identity'', ''sig'']"

definition common_optional :: "string list" where
  "common_optional = [''memory-ref'', ''correlation-ref'']"

record kind_spec =
  required :: "string list"
  optional :: "string list"
  forbidden :: "string list"
  forbidden_code :: string

definition kind_spec_of :: "string \<Rightarrow> kind_spec option" where
  "kind_spec_of kind =
     (if kind = ''effect'' then Some
        \<lparr>required = [''mandate-ref'', ''policy-version'', ''classification'', ''execution''],
         optional = [''evidence'', ''authorization'', ''trigger'', ''commitment-ref''],
         forbidden = [], forbidden_code = []\<rparr>
      else if kind = ''policy-change'' then Some
        \<lparr>required = [''mandate-ref'', ''policy-version'', ''classification'', ''execution'', ''authorization''],
         optional = [''evidence''], forbidden = [], forbidden_code = []\<rparr>
      else if kind = ''aggregate'' then Some
        \<lparr>required = [''mandate-ref'', ''policy-version'', ''classification'', ''window'', ''counts'', ''sample-hashes''],
         optional = [], forbidden = [''execution'', ''evidence'', ''authorization''],
         forbidden_code = ''schema-unknown-member''\<rparr>
      else if kind = ''cognition'' then Some
        \<lparr>required = [''mandate-ref'', ''resource'', ''cost''], optional = [],
         forbidden = [''execution'', ''evidence'', ''classification'', ''authorization'', ''commitment-ref''],
         forbidden_code = ''cognition-envelope-has-effect-fields''\<rparr>
      else if kind = ''signal'' then Some
        \<lparr>required = [''signal''], optional = [],
         forbidden = [''mandate-ref'', ''classification'', ''execution'', ''evidence'', ''authorization'', ''commitment-ref''],
         forbidden_code = ''signal-envelope-has-effect-fields''\<rparr>
      else if kind = ''mandate'' then Some
        \<lparr>required = [''mandate''], optional = [], forbidden = [], forbidden_code = []\<rparr>
      else if kind = ''revocation'' then Some
        \<lparr>required = [''revocation'', ''revokes'', ''revoked-at''], optional = [''reason''],
         forbidden = [], forbidden_code = []\<rparr>
      else if kind = ''gate-decision'' then Some
        \<lparr>required = [''decision-of''], optional = [''decision''], forbidden = [], forbidden_code = []\<rparr>
      else if kind = ''checkpoint'' then Some
        \<lparr>required = [''checkpoint''], optional = [], forbidden = [], forbidden_code = []\<rparr>
      else None)"

definition members_of :: "string \<Rightarrow> (string list \<times> string list) option" where
  "members_of kind =
     (case kind_spec_of kind of
        None \<Rightarrow> None
      | Some spec \<Rightarrow> Some (common @ required spec, common_optional @ optional spec))"

definition sub_object_spec :: "string \<Rightarrow> (string list \<times> string list) option" where
  "sub_object_spec name =
     (if name = ''identity'' then Some ([''subject'', ''key'', ''component''], [])
      else if name = ''execution'' then
        Some ([''action'', ''target'', ''args-hash'', ''outcome'', ''started-at'', ''finished-at''], [])
      else if name = ''evidence'' then Some ([''schema'', ''media-type'', ''payload-hash'', ''retain-until''], [])
      else if name = ''authorization'' then Some ([''request'', ''decision''], [])
      else if name = ''revocation'' then Some ([''revokes'', ''revoked-at'', ''sig''], [''v'', ''kind'', ''reason''])
      else if name = ''sig'' then Some ([''alg'', ''key'', ''value''], [])
      else if name = ''resource'' then Some ([''kind'', ''name''], [])
      else if name = ''window'' then Some ([''from'', ''to''], [])
      else if name = ''counts'' then Some ([''total'', ''by-action''], [])
      else if name = ''trigger'' then Some ([''signal-ref'', ''standing-mandate-ref''], [''rule''])
      else if name = ''commitment-ref'' then Some ([''object-type'', ''object-id'', ''transition''], [])
      else if name = ''signal'' then
        Some ([''source'', ''received-at'', ''media-type'', ''payload-hash'', ''sender-verified''],
              [''source-ref'', ''retain-until'', ''sender-verification''])
      else None)"

definition cost_dimensions :: "string list" where
  "cost_dimensions = [''tokens'', ''tokens-in'', ''tokens-out'', ''requests'', ''wall-clock-ms'', ''wall-clock-seconds'']"

section \<open>Member checks\<close>

text \<open>\<open>map[k]\<close> of a \<open>Map\<close> traps when the name is absent.\<close>

definition member :: "jmap \<Rightarrow> string \<Rightarrow> json res" where
  "member m k = (case map_of m k of Some v \<Rightarrow> Inr v | None \<Rightarrow> Inl Panic)"

definition is_string :: "json \<Rightarrow> bool" where
  "is_string v \<longleftrightarrow> as_str v \<noteq> None"

definition cost_member :: "string \<times> json \<Rightarrow> unit res" where
  "cost_member kv =
     (case strip_prefix (fst kv) ''money-'' of
        Some currency \<Rightarrow>
          if length currency \<noteq> 3 \<or> \<not> list_all is_lower currency then Inl (err ''schema-unknown-member'')
          else if \<not> is_string (snd kv) then Inl (err ''schema-type-mismatch'')
          else Inr ()
      | None \<Rightarrow> check (fst kv \<in> set cost_dimensions) ''schema-unknown-member'')"

definition validate_cost :: "json \<Rightarrow> unit res" where
  "validate_cost cost =
     and_then (ok_or (as_object cost) ''schema-type-mismatch'') (\<lambda>m. for_each cost_member m)"

definition stream_char :: "char \<Rightarrow> bool" where
  "stream_char c \<longleftrightarrow> is_alphanumeric c \<or> c \<in> set ''._:-''"

definition validate_stream_id :: "string \<Rightarrow> unit res" where
  "validate_stream_id stream =
     check (stream \<noteq> [] \<and> length stream \<le> 128 \<and> list_all stream_char stream) ''stream-id-malformed''"

definition require_digest :: "json \<Rightarrow> unit res" where
  "require_digest v =
     and_then (ok_or (as_str v) ''schema-type-mismatch'') (\<lambda>s. check (is_digest_hex s) ''encoding-not-lowercase-hex'')"

definition require_timestamp :: "json \<Rightarrow> unit res" where
  "require_timestamp v =
     and_then (ok_or (as_str v) ''schema-type-mismatch'') (\<lambda>s. check (is_timestamp s) ''encoding-bad-timestamp'')"

text \<open>\<open>as_i64().map(i128::from).or_else(|| as_u64().map(i128::from))\<close>\<close>

fun as_int :: "json \<Rightarrow> int option" where
  "as_int v = (case as_i64 v of Some i \<Rightarrow> Some i | None \<Rightarrow> map_option uint (as_u64 v))"

lemma for_each_cong [fundef_cong]:
  "xs = ys \<Longrightarrow> (\<And>x. x \<in> set ys \<Longrightarrow> f x = g x) \<Longrightarrow> for_each f xs = for_each g ys"
  by (induction xs arbitrary: ys) auto

fun check_numbers :: "json \<Rightarrow> unit res" where
  "check_numbers (JNumber n) =
     (case as_int (JNumber n) of
        Some i \<Rightarrow> check (\<bar>i\<bar> \<le> max_safe_integer) ''encoding-integer-out-of-range''
      | None \<Rightarrow> Inl (err ''encoding-non-integer-number''))"
| "check_numbers (JArray items) = for_each (\<lambda>item. check_numbers item) items"
| "check_numbers (JObject m) = for_each (\<lambda>kv. check_numbers (snd kv)) m"
| "check_numbers _ = Inr ()"

section \<open>Validation, step by step\<close>

definition validate_version :: "jmap \<Rightarrow> unit res" where
  "validate_version m =
     (case map_of m ''v'' of
        None \<Rightarrow> Inl (err ''schema-missing-member'')
      | Some v \<Rightarrow>
          (case as_str v of
             None \<Rightarrow> Inl (err ''schema-type-mismatch'')
           | Some s \<Rightarrow> check (s = version) ''envelope-version-unsupported''))"

definition validate_kind :: "jmap \<Rightarrow> (string \<times> kind_spec) res" where
  "validate_kind m =
     (case map_of m ''kind'' of
        None \<Rightarrow> Inl (err ''schema-missing-member'')
      | Some v \<Rightarrow>
          (case as_str v of
             None \<Rightarrow> Inl (err ''schema-type-mismatch'')
           | Some kind \<Rightarrow>
               and_then (ok_or (kind_spec_of kind) ''envelope-unknown-kind'') (\<lambda>spec. Inr (kind, spec))))"

definition validate_forbidden :: "kind_spec \<Rightarrow> jmap \<Rightarrow> unit res" where
  "validate_forbidden spec m = for_each (\<lambda>f. check (\<not> contains_key m f) (forbidden_code spec)) (forbidden spec)"

definition validate_known :: "kind_spec \<Rightarrow> jmap \<Rightarrow> unit res" where
  "validate_known spec m =
     for_each (\<lambda>key.
         check (key \<in> set common \<or> key \<in> set (required spec) \<or> key \<in> set (optional spec)
                \<or> key \<in> set common_optional) ''schema-unknown-member'')
       (List.map fst m)"

definition validate_required :: "kind_spec \<Rightarrow> jmap \<Rightarrow> unit res" where
  "validate_required spec m =
     for_each (\<lambda>r. check (contains_key m r) ''schema-missing-member'') (common @ required spec)"

definition validate_sub_object :: "string \<times> json \<Rightarrow> unit res" where
  "validate_sub_object kv =
     (if fst kv = ''cost'' then validate_cost (snd kv)
      else
        (case sub_object_spec (fst kv) of
           None \<Rightarrow> Inr ()
         | Some (req, opt) \<Rightarrow>
             and_then (ok_or (as_object (snd kv)) ''schema-type-mismatch'') (\<lambda>sub.
             and_then (for_each (\<lambda>key. check (key \<in> set req \<or> key \<in> set opt) ''schema-unknown-member'')
                         (List.map fst sub)) (\<lambda>_.
               for_each (\<lambda>r. check (contains_key sub r) ''schema-missing-member'') req))))"

text \<open>\<open>if let Some(v) = ... { require(v)? }\<close>\<close>

definition if_some :: "'a option \<Rightarrow> ('a \<Rightarrow> unit res) \<Rightarrow> unit res" where
  "if_some v f = (case v of None \<Rightarrow> Inr () | Some w \<Rightarrow> f w)"

definition sub_member :: "jmap \<Rightarrow> string \<times> string \<Rightarrow> json option" where
  "sub_member m pc = Option.bind (map_of m (fst pc)) (\<lambda>p. get p (snd pc))"

definition validate_digests :: "jmap \<Rightarrow> unit res" where
  "validate_digests m =
     and_then (for_each (\<lambda>path. if_some (map_of m path) (\<lambda>v. if v = JNull then Inr () else require_digest v))
        [''mandate-ref'', ''prev-hash'']) (\<lambda>_.
     and_then (for_each (\<lambda>pc. if_some (sub_member m pc) require_digest)
        [(''execution'', ''args-hash''), (''evidence'', ''payload-hash''), (''signal'', ''payload-hash'')]) (\<lambda>_.
     and_then (if_some (map_of m ''trigger'') (\<lambda>trigger.
        for_each (\<lambda>child. if_some (get trigger child) require_digest) [''signal-ref'', ''standing-mandate-ref''])) (\<lambda>_.
     if_some (map_of m ''sample-hashes'') (\<lambda>samples.
        and_then (ok_or (as_array samples) ''schema-type-mismatch'') (\<lambda>items. for_each require_digest items)))))"

definition validate_timestamps :: "jmap \<Rightarrow> unit res" where
  "validate_timestamps m =
     and_then (and_then (member m ''emitted-at'') require_timestamp) (\<lambda>_.
     for_each (\<lambda>pc. if_some (sub_member m pc) require_timestamp)
       [(''execution'', ''started-at''), (''execution'', ''finished-at''), (''evidence'', ''retain-until''),
        (''window'', ''from''), (''window'', ''to''), (''signal'', ''received-at''), (''signal'', ''retain-until'')])"

definition validate_position :: "jmap \<Rightarrow> unit res" where
  "validate_position m =
     and_then (member m ''stream'') (\<lambda>s.
     and_then (ok_or (as_str s) ''schema-type-mismatch'') (\<lambda>stream.
     and_then (validate_stream_id stream) (\<lambda>_.
     and_then (member m ''seq'') (\<lambda>n.
     and_then (ok_or (as_u64 n) ''schema-type-mismatch'') (\<lambda>seq.
     and_then (member m ''prev-hash'') (\<lambda>prev.
       if seq = 0 \<and> prev \<noteq> JNull then Inl (err ''chain-genesis-prev-not-null'')
       else if seq > 0 \<and> prev = JNull then Inl (err ''chain-prev-hash-missing'')
       else Inr ()))))))"

definition validate_signer :: "ext \<Rightarrow> jmap \<Rightarrow> unit res" where
  "validate_signer x m =
     and_then (member m ''identity'') (\<lambda>identity.
     and_then (ok_or (get_str identity ''key'') ''schema-missing-member'') (\<lambda>identity_key.
     and_then (key_id_parse x identity_key) (\<lambda>_.
     and_then (member m ''sig'') (\<lambda>sig.
     and_then (ok_or (get_str sig ''key'') ''schema-missing-member'') (\<lambda>sig_key.
       check (identity_key = sig_key) ''identity-key-sig-mismatch'')))))"

definition validate_classification :: "jmap \<Rightarrow> unit res" where
  "validate_classification m =
     if_some (map_of m ''classification'') (\<lambda>v.
       and_then (ok_or (as_str v) ''schema-type-mismatch'') (\<lambda>class.
         check (class \<in> set classes) ''envelope-classification-unknown''))"

text \<open>\<open>as_str().unwrap_or_default()\<close>\<close>

definition str_or_empty :: "json \<Rightarrow> string" where
  "str_or_empty v = (case as_str v of Some s \<Rightarrow> s | None \<Rightarrow> [])"

definition validate_execution :: "jmap \<Rightarrow> unit res" where
  "validate_execution m =
     if_some (map_of m ''execution'') (\<lambda>execution.
       and_then (ok_or (get_str execution ''outcome'') ''schema-type-mismatch'') (\<lambda>outcome.
       and_then (check (outcome \<in> set outcomes) ''envelope-outcome-unknown'') (\<lambda>_.
         let started = str_or_empty (index execution ''started-at'');
             finished = str_or_empty (index execution ''finished-at'')
         in check (\<not> finished < started) ''execution-time-inverted'')))"

text \<open>The sum is an \<open>i128\<close>: at most 1024 counts of at most \<open>i64::MAX\<close> each cannot leave it.\<close>

fun sum_counts :: "int \<Rightarrow> jmap \<Rightarrow> int res" where
  "sum_counts acc [] = Inr acc"
| "sum_counts acc ((action, v) # m) =
     and_then (ok_or (as_i64 v) ''schema-type-mismatch'') (\<lambda>count.
       if count < 0 then Inl (err ''aggregate-count-negative'') else sum_counts (acc + count) m)"

definition validate_aggregate :: "json option \<Rightarrow> json \<Rightarrow> json \<Rightarrow> unit res" where
  "validate_aggregate classification counts samples =
     and_then (check (Option.bind classification as_str = Some ''read'') ''aggregate-class-not-read'') (\<lambda>_.
     and_then (ok_or (as_i64 (index counts ''total'')) ''schema-type-mismatch'') (\<lambda>total.
     and_then (check (\<not> total < 0) ''aggregate-count-negative'') (\<lambda>_.
     and_then (ok_or (as_object (index counts ''by-action'')) ''schema-type-mismatch'') (\<lambda>by_action.
     and_then (check (\<not> length by_action > aggregate_max_actions) ''aggregate-cardinality'') (\<lambda>_.
     and_then (sum_counts 0 by_action) (\<lambda>sum.
     and_then (check (sum = total) ''aggregate-count-mismatch'') (\<lambda>_.
     and_then (ok_or (as_array samples) ''schema-type-mismatch'') (\<lambda>items.
       check (items \<noteq> [] \<and> \<not> length items > 16) ''aggregate-sample-bounds''))))))))"

definition validate_correlation :: "jmap \<Rightarrow> unit res" where
  "validate_correlation m =
     if_some (map_of m ''correlation-ref'') (\<lambda>v.
       and_then (ok_or (as_str v) ''schema-type-mismatch'') (\<lambda>s.
         check (\<not> length s > correlation_ref_max) ''correlation-ref-too-long''))"

definition validate :: "ext \<Rightarrow> json \<Rightarrow> unit res" where
  "validate x envelope =
     and_then (ok_or (as_object envelope) ''schema-type-mismatch'') (\<lambda>m.
     and_then (validate_version m) (\<lambda>_.
     and_then (validate_kind m) (\<lambda>(kind, spec).
     and_then (validate_forbidden spec m) (\<lambda>_.
     and_then (validate_known spec m) (\<lambda>_.
     and_then (validate_required spec m) (\<lambda>_.
     and_then (for_each validate_sub_object m) (\<lambda>_.
     and_then (check_numbers envelope) (\<lambda>_.
     and_then (validate_digests m) (\<lambda>_.
     and_then (validate_timestamps m) (\<lambda>_.
     and_then (validate_position m) (\<lambda>_.
     and_then (validate_signer x m) (\<lambda>_.
     and_then (validate_classification m) (\<lambda>_.
     and_then (validate_execution m) (\<lambda>_.
     and_then
       (if kind = ''aggregate'' then
          and_then (member m ''counts'') (\<lambda>counts.
          and_then (member m ''sample-hashes'') (\<lambda>samples.
            validate_aggregate (map_of m ''classification'') counts samples))
        else Inr ()) (\<lambda>_.
       validate_correlation m)))))))))))))))"


section \<open>What each step establishes\<close>

lemma if_some_eq_Inr [simp, res_simps]:
  "if_some v f = Inr u \<longleftrightarrow> (\<forall>w. v = Some w \<longrightarrow> f w = Inr ())"
  by (cases v) (auto simp: if_some_def)

lemma member_eq_Inr [simp, res_simps]: "member m k = Inr v \<longleftrightarrow> map_of m k = Some v"
  by (auto simp: member_def split: option.splits)

lemma contains_key_iff: "contains_key m k \<longleftrightarrow> k \<in> fst ` set m"
  by (simp add: contains_key_def map_of_eq_None_iff)

fun safe_numbers :: "json \<Rightarrow> bool" where
  "safe_numbers (JNumber n) = (\<exists>i. as_int (JNumber n) = Some i \<and> \<bar>i\<bar> \<le> max_safe_integer)"
| "safe_numbers (JArray items) = list_all safe_numbers items"
| "safe_numbers (JObject m) = list_all (\<lambda>kv. safe_numbers (snd kv)) m"
| "safe_numbers _ = True"

lemma check_numbers_iff: "check_numbers v = Inr () \<longleftrightarrow> safe_numbers v"
  by (induction v rule: check_numbers.induct) (auto simp: list_all_iff simp del: as_int.simps split: option.splits)

lemma validate_steps:
  assumes "validate x e = Inr u"
  obtains m kind spec where "e = JObject m" "validate_version m = Inr ()" "validate_kind m = Inr (kind, spec)"
    "validate_forbidden spec m = Inr ()" "validate_known spec m = Inr ()" "validate_required spec m = Inr ()"
    "for_each validate_sub_object m = Inr ()" "check_numbers e = Inr ()" "validate_digests m = Inr ()"
    "validate_timestamps m = Inr ()" "validate_position m = Inr ()" "validate_signer x m = Inr ()"
    "validate_classification m = Inr ()" "validate_execution m = Inr ()"
    "kind = ''aggregate'' \<longrightarrow> (\<exists>counts samples. map_of m ''counts'' = Some counts \<and> map_of m ''sample-hashes'' = Some samples
        \<and> validate_aggregate (map_of m ''classification'') counts samples = Inr ())"
    "validate_correlation m = Inr ()"
  using assms by (auto simp: validate_def simp del: for_each_eq_Inr split: if_splits)

lemma validate_kind_eq_Inr:
  "validate_kind m = Inr (kind, spec) \<longleftrightarrow> map_of m ''kind'' = Some (JString kind) \<and> kind_spec_of kind = Some spec"
  by (auto simp: validate_kind_def split: option.splits)

lemma validate_members:
  assumes "validate_known spec m = Inr ()" and "validate_required spec m = Inr ()"
  shows "set (common @ required spec) \<subseteq> fst ` set m"
    and "fst ` set m \<subseteq> set (common @ required spec) \<union> set (common_optional @ optional spec)"
  using assms by (auto simp: validate_known_def validate_required_def contains_key_iff)

lemma validate_position_eq_Inr:
  "validate_position m = Inr () \<longleftrightarrow>
     (\<exists>stream seq prev. map_of m ''stream'' = Some (JString stream) \<and> validate_stream_id stream = Inr ()
        \<and> map_of m ''seq'' = Some (JNumber (PosInt seq)) \<and> map_of m ''prev-hash'' = Some prev
        \<and> (seq = 0 \<longleftrightarrow> prev = JNull))"
  by (auto simp: validate_position_def word_gt_0 split: if_splits)

lemma validate_signer_eq_Inr:
  "validate_signer x m = Inr () \<longleftrightarrow>
     (\<exists>identity sig key k. map_of m ''identity'' = Some identity \<and> map_of m ''sig'' = Some sig
        \<and> get_str identity ''key'' = Some key \<and> get_str sig ''key'' = Some key \<and> key_id_parse x key = Inr k)"
  by (auto simp: validate_signer_def)

text \<open>The counts of an accepted aggregate, and their sum.\<close>

fun counts_of :: "jmap \<Rightarrow> int list option" where
  "counts_of [] = Some []"
| "counts_of ((a, v) # m) =
     (case (as_i64 v, counts_of m) of (Some c, Some cs) \<Rightarrow> Some (c # cs) | _ \<Rightarrow> None)"

lemma sum_counts_eq_Inr:
  "sum_counts acc m = Inr s \<longleftrightarrow> (\<exists>cs. counts_of m = Some cs \<and> (\<forall>c\<in>set cs. 0 \<le> c) \<and> s = acc + sum_list cs)"
proof (induction acc m arbitrary: s rule: sum_counts.induct)
  case (2 acc a v m)
  show ?case
  proof (cases "as_i64 v")
    case (Some c)
    show ?thesis
    proof (cases "c < 0")
      case False
      have IH: "sum_counts (acc + c) m = Inr t \<longleftrightarrow>
          (\<exists>cs. counts_of m = Some cs \<and> (\<forall>c\<in>set cs. 0 \<le> c) \<and> t = (acc + c) + sum_list cs)" for t
        by (rule 2) (use Some False in simp_all)
      from Some False show ?thesis by (cases "counts_of m") (simp_all add: IH add.assoc not_less)
    qed (use Some in \<open>auto split: option.splits\<close>)
  qed (auto split: option.splits)
qed auto

lemma validate_aggregate_eq_Inr:
  "validate_aggregate cl counts samples = Inr () \<longleftrightarrow>
     (\<exists>total by_action cs items. cl = Some (JString ''read'')
        \<and> as_i64 (index counts ''total'') = Some total \<and> index counts ''by-action'' = JObject by_action
        \<and> length by_action \<le> 1024 \<and> counts_of by_action = Some cs \<and> (\<forall>c\<in>set cs. 0 \<le> c) \<and> total = sum_list cs
        \<and> samples = JArray items \<and> 1 \<le> length items \<and> length items \<le> 16)"
  by (auto simp: validate_aggregate_def sum_counts_eq_Inr aggregate_max_actions_def bind_eq_Some_conv sum_list_nonneg
      Suc_le_eq not_less)

lemma validate_position_facts:
  assumes "validate x e = Inr u"
  obtains m seq stream prev where "e = JObject m" "map_of m ''seq'' = Some (JNumber (PosInt seq))"
    "get_u64 e ''seq'' = Some seq" "int (unat seq) \<le> max_safe_integer" "get_str e ''stream'' = Some stream"
    "get e ''prev-hash'' = Some prev" "seq = 0 \<longleftrightarrow> prev = JNull" "prev = JNull \<or> (\<exists>h. prev = JString h \<and> is_digest_hex h)"
    "safe_numbers e"
proof -
  obtain m kind spec where v: "e = JObject m" "check_numbers e = Inr ()" "validate_digests m = Inr ()"
    "validate_position m = Inr ()"
    using validate_steps [OF assms] by metis
  obtain seq prev stream where p: "map_of m ''seq'' = Some (JNumber (PosInt seq))" "map_of m ''prev-hash'' = Some prev"
    "seq = 0 \<longleftrightarrow> prev = JNull" "map_of m ''stream'' = Some (JString stream)"
    using v(4) by (auto simp: validate_position_eq_Inr)
  have d: "prev \<noteq> JNull \<Longrightarrow> require_digest prev = Inr ()"
    using v(3) p(2) by (auto simp: validate_digests_def split: if_splits)
  then have "prev = JNull \<or> (\<exists>h. prev = JString h \<and> is_digest_hex h)" by (auto simp: require_digest_def)
  moreover have n: "safe_numbers e" using v(2) by (simp only: check_numbers_iff)
  moreover have "int (unat seq) \<le> max_safe_integer"
  proof -
    have "\<forall>kv\<in>set m. safe_numbers (snd kv)" using n v(1) by (simp add: list_all_iff)
    from bspec [OF this map_of_SomeD [OF p(1)]] have "safe_numbers (JNumber (PosInt seq))" by (simp only: snd_conv)
    then have "\<bar>uint seq\<bar> \<le> max_safe_integer" by (auto split: if_splits)
    then show ?thesis by simp
  qed
  ultimately show ?thesis using that [of m seq stream prev] v(1) p by (simp add: get_u64_def get_str_def)
qed

section \<open>Validation does not trap\<close>

lemma traps_if_some [trap_simps]: "traps (if_some v f) \<longleftrightarrow> (\<exists>w. v = Some w \<and> traps (f w))"
  by (cases v) (auto simp: if_some_def)

lemma traps_member [trap_simps]: "traps (member m k) \<longleftrightarrow> k \<notin> fst ` set m"
  by (auto simp: member_def map_of_eq_None_iff [symmetric] split: option.splits)

lemma require_no_trap [simp, trap_simps]: "\<not> traps (require_digest v)" "\<not> traps (require_timestamp v)"
  by (simp_all add: require_digest_def require_timestamp_def trap_simps)

lemma validate_cost_no_trap [simp, trap_simps]: "\<not> traps (validate_cost v)"
proof -
  have "\<not> traps (cost_member kv)" for kv by (auto simp: cost_member_def trap_simps split: option.splits)
  then show ?thesis by (auto simp: validate_cost_def trap_simps)
qed

lemma validate_sub_object_no_trap [simp, trap_simps]: "\<not> traps (validate_sub_object kv)"
  by (auto simp: validate_sub_object_def trap_simps split: option.splits)

lemma check_numbers_no_trap [simp, trap_simps]: "\<not> traps (check_numbers v)"
  by (induction v rule: check_numbers.induct) (auto simp: trap_simps simp del: as_int.simps split: option.splits)

lemma validate_digests_no_trap [simp, trap_simps]: "\<not> traps (validate_digests m)"
  unfolding validate_digests_def by (simp add: trap_simps)

lemma sum_counts_no_trap [simp, trap_simps]: "\<not> traps (sum_counts acc m)"
  by (induction acc m rule: sum_counts.induct) (auto simp: trap_simps)

lemma validate_aggregate_no_trap [simp, trap_simps]: "\<not> traps (validate_aggregate cl c s)"
  unfolding validate_aggregate_def by (simp add: trap_simps)

lemma validate_no_trap: "\<not> traps (validate x e)"
proof -
  have parts: "\<not> traps (validate_version m)" "\<not> traps (validate_kind m)" "\<not> traps (validate_forbidden spec m)"
    "\<not> traps (validate_known spec m)" "\<not> traps (validate_required spec m)"
    "\<not> traps (validate_classification m)" "\<not> traps (validate_execution m)" "\<not> traps (validate_correlation m)" for m spec
    by (auto simp: validate_version_def validate_kind_def validate_forbidden_def validate_known_def validate_required_def
        validate_classification_def validate_execution_def validate_correlation_def trap_simps split: option.splits)
  have mapped: "\<not> traps (validate_timestamps m) \<and> \<not> traps (validate_position m) \<and> \<not> traps (validate_signer x m)"
    if "validate_required spec m = Inr ()" for m spec
  proof -
    have "set common \<subseteq> fst ` set m" using that by (auto simp: validate_required_def contains_key_iff)
    then show ?thesis
      by (auto simp: validate_timestamps_def validate_position_def validate_signer_def validate_stream_id_def trap_simps
          common_def)
  qed
  have agg: "''counts'' \<in> fst ` set m \<and> ''sample-hashes'' \<in> fst ` set m"
    if "validate_required spec m = Inr ()" "validate_kind m = Inr (''aggregate'', spec)" for m spec
    using that by (auto simp: validate_required_def contains_key_iff validate_kind_eq_Inr kind_spec_of_def)
  show ?thesis
    unfolding validate_def
    by (auto simp: traps_and_then traps_if parts traps_member simp del: for_each_eq_Inr dest: mapped agg traps_for_each)
qed

section \<open>Concrete envelopes\<close>

text \<open>Envelopes of three kinds for the witnesses, with their members in map order.\<close>

definition demo_secret :: string where "demo_secret = ''ffffffffffffffffffffffffffffffff''"
definition demo_key :: string where "demo_key = ''ed25519:6666666666666666666666666666666666666666666666666666666666666666''"
definition demo_digest :: string where "demo_digest = ''aaaaaaaaaaaaaaaaaaaaaaaaaaaaaaaaaaaaaaaaaaaaaaaaaaaaaaaaaaaaaaaa''"

definition demo_signed :: "json \<Rightarrow> json" where
  "demo_signed v = (case sign_object demo_ext v demo_secret of Inr w \<Rightarrow> w | Inl _ \<Rightarrow> JNull)"

definition demo_id :: "json \<Rightarrow> string" where
  "demo_id v = (case object_id demo_ext v of Inr i \<Rightarrow> i | Inl _ \<Rightarrow> [])"

definition demo_num :: "u64 \<Rightarrow> json" where "demo_num n = JNumber (PosInt n)"

definition demo_identity :: json where
  "demo_identity = JObject [(''component'', JString ''c''), (''key'', JString demo_key), (''subject'', JString ''s'')]"

definition demo_sig :: json where
  "demo_sig = JObject [(''alg'', JString ''ed25519''), (''key'', JString demo_key), (''value'', JString [])]"

definition demo_aggregate :: json where
  "demo_aggregate = JObject
     [(''classification'', JString ''read''),
      (''counts'', JObject [(''by-action'', JObject [(''a.get'', demo_num 2), (''a.list'', demo_num 3)]), (''total'', demo_num 5)]),
      (''emitted-at'', JString ''2026-07-26T09:15:01.300Z''), (''identity'', demo_identity), (''kind'', JString ''aggregate''),
      (''mandate-ref'', JString demo_digest), (''policy-version'', JString ''p''), (''prev-hash'', JString demo_digest),
      (''sample-hashes'', JArray [JString demo_digest]), (''seq'', demo_num 7), (''sig'', demo_sig), (''stream'', JString ''gw''),
      (''v'', JString version),
      (''window'', JObject [(''from'', JString ''2026-07-26T09:00:00.000Z''), (''to'', JString ''2026-07-26T09:15:00.000Z'')])]"

definition demo_effect :: json where
  "demo_effect = JObject
     [(''classification'', JString ''benign''), (''emitted-at'', JString ''2026-07-26T09:15:01.300Z''),
      (''execution'', JObject [(''action'', JString ''a.put''), (''args-hash'', JString demo_digest),
         (''finished-at'', JString ''2026-07-26T09:15:01.200Z''), (''outcome'', JString ''applied''),
         (''started-at'', JString ''2026-07-26T09:15:01.100Z''), (''target'', JString ''t'')]),
      (''identity'', demo_identity), (''kind'', JString ''effect''), (''mandate-ref'', JString demo_digest),
      (''policy-version'', JString ''p''), (''prev-hash'', JNull), (''seq'', demo_num 0), (''sig'', demo_sig),
      (''stream'', JString ''gw''), (''v'', JString version)]"

section \<open>Properties\<close>

text \<open>C8: The member sets are closed: an accepted envelope is an object of a known kind and of this wire version
  that carries every required member of its kind, nothing outside the permitted set of its kind, and none of
  the members its kind forbids.\<close>

theorem validate_closed:
  assumes "validate x e = Inr ()"
  shows "\<exists>m kind req opt. e = JObject m \<and> map_of m ''kind'' = Some (JString kind) \<and> map_of m ''v'' = Some (JString version)
    \<and> members_of kind = Some (req, opt) \<and> set req \<subseteq> fst ` set m \<and> fst ` set m \<subseteq> set req \<union> set opt
    \<and> (case kind_spec_of kind of Some spec \<Rightarrow> set (forbidden spec) \<inter> fst ` set m = {} | None \<Rightarrow> False)"
proof -
  obtain m kind spec where v: "e = JObject m" "validate_version m = Inr ()" "validate_kind m = Inr (kind, spec)"
    "validate_forbidden spec m = Inr ()" "validate_known spec m = Inr ()" "validate_required spec m = Inr ()"
    using validate_steps [OF assms] .
  have k: "map_of m ''kind'' = Some (JString kind)" "kind_spec_of kind = Some spec"
    using v(3) by (auto simp: validate_kind_eq_Inr)
  moreover have "map_of m ''v'' = Some (JString version)"
    using v(2) by (auto simp: validate_version_def split: option.splits)
  moreover have "set (forbidden spec) \<inter> fst ` set m = {}"
    using v(4) by (auto simp: validate_forbidden_def contains_key_iff)
  moreover have "members_of kind = Some (common @ required spec, common_optional @ optional spec)"
    using k(2) by (simp add: members_of_def)
  moreover note validate_members [OF v(5,6)] v(1)
  ultimately show ?thesis by auto
qed

theorem validate_closed_witness:
  "\<exists>m. demo_aggregate = JObject m \<and> ''execution'' \<notin> fst ` set m"
proof -
  have "validate demo_ext demo_aggregate = Inr ()" by code_simp
  from validate_closed [OF this] obtain m kind where d: "demo_aggregate = JObject m" "map_of m ''kind'' = Some (JString kind)"
    "case kind_spec_of kind of Some spec \<Rightarrow> set (forbidden spec) \<inter> fst ` set m = {} | None \<Rightarrow> False" by blast
  have "get demo_aggregate ''kind'' = Some (JString ''aggregate'')" by code_simp
  then have "kind = ''aggregate''" unfolding d(1) get_JObject d(2) by simp
  with d(1,3) show ?thesis by (auto simp: kind_spec_of_def)
qed

text \<open>An accepted envelope is consistent in itself: all of its numbers are integers a binary64 represents
  exactly, its position is the genesis position exactly when it names no predecessor, its identity carries
  the key that its signature names, and an execution it reports does not end before it began.\<close>

lemma validate_consistent:
  assumes "validate x e = Inr ()"
  shows "safe_numbers e
    \<and> (\<exists>seq. get_u64 e ''seq'' = Some seq \<and> (seq = 0 \<longleftrightarrow> get e ''prev-hash'' = Some JNull)
         \<and> (seq \<noteq> 0 \<longrightarrow> (\<exists>h. get e ''prev-hash'' = Some (JString h) \<and> is_digest_hex h)))
    \<and> (\<exists>key k. key_id_parse x key = Inr k \<and> get_str (index e ''identity'') ''key'' = Some key
         \<and> get_str (index e ''sig'') ''key'' = Some key)
    \<and> (\<forall>ex s f ms mf. get e ''execution'' = Some ex \<and> get_str ex ''started-at'' = Some s \<and> get_str ex ''finished-at'' = Some f
         \<and> parse_timestamp s = Inr ms \<and> parse_timestamp f = Inr mf \<longrightarrow> ms \<le> mf)"
proof -
  obtain m kind spec where v: "e = JObject m" "validate_signer x m = Inr ()" "validate_execution m = Inr ()"
    using validate_steps [OF assms] by metis
  obtain seq prev where p: "get_u64 e ''seq'' = Some seq" "get e ''prev-hash'' = Some prev"
    "seq = 0 \<longleftrightarrow> prev = JNull" "prev = JNull \<or> (\<exists>h. prev = JString h \<and> is_digest_hex h)" "safe_numbers e"
    by (rule validate_position_facts [OF assms], rule that, assumption+)
  have "ms \<le> mf" if "get e ''execution'' = Some ex" "get_str ex ''started-at'' = Some s" "get_str ex ''finished-at'' = Some f"
    "parse_timestamp s = Inr ms" "parse_timestamp f = Inr mf" for ex s f ms mf
  proof -
    have "\<not> f < s"
      using v(1,3) that(1,2,3)
      by (auto simp: validate_execution_def str_or_empty_def index_def get_str_eq_Some Let_def)
    with parse_timestamp_order(2) [OF that(4,5)] show ?thesis by (auto simp: not_less)
  qed
  moreover have "\<exists>key k. key_id_parse x key = Inr k \<and> get_str (index e ''identity'') ''key'' = Some key
      \<and> get_str (index e ''sig'') ''key'' = Some key"
    using v(1,2) by (auto simp: validate_signer_eq_Inr index_def)
  moreover have "seq = 0 \<longleftrightarrow> get e ''prev-hash'' = Some JNull" using p(2,3) by simp
  moreover have "seq \<noteq> 0 \<longrightarrow> (\<exists>h. get e ''prev-hash'' = Some (JString h) \<and> is_digest_hex h)"
    using p(2,3,4) by blast
  ultimately show ?thesis using p(1,5) by blast
qed

theorem validate_consistent_witness:
  "safe_numbers demo_effect \<and> get demo_effect ''prev-hash'' = Some JNull"
proof -
  have v: "validate demo_ext demo_effect = Inr ()" by code_simp
  have "get_u64 demo_effect ''seq'' = Some 0" by code_simp
  with validate_consistent [OF v] show ?thesis by auto
qed

text \<open>An accepted aggregate says what it counts: its total is the sum of its per-action counts, none of which is
  negative, over at most 1024 actions, with one to sixteen samples, and only for the class \<open>read\<close>.\<close>

lemma validate_aggregate_sound:
  assumes "validate x e = Inr ()" and "get e ''kind'' = Some (JString ''aggregate'')"
  shows "\<exists>total by_action cs items. get e ''classification'' = Some (JString ''read'')
    \<and> as_i64 (index (index e ''counts'') ''total'') = Some total
    \<and> index (index e ''counts'') ''by-action'' = JObject by_action \<and> counts_of by_action = Some cs
    \<and> length cs \<le> 1024 \<and> (\<forall>c\<in>set cs. 0 \<le> c \<and> c \<le> total) \<and> total = sum_list cs
    \<and> get e ''sample-hashes'' = Some (JArray items) \<and> 1 \<le> length items \<and> length items \<le> 16"
proof -
  obtain m kind spec where v: "e = JObject m" "validate_kind m = Inr (kind, spec)"
    "kind = ''aggregate'' \<longrightarrow> (\<exists>counts samples. map_of m ''counts'' = Some counts \<and> map_of m ''sample-hashes'' = Some samples
        \<and> validate_aggregate (map_of m ''classification'') counts samples = Inr ())"
    using validate_steps [OF assms(1)] by metis
  then obtain counts samples where a: "map_of m ''counts'' = Some counts" "map_of m ''sample-hashes'' = Some samples"
    "validate_aggregate (map_of m ''classification'') counts samples = Inr ()"
    using assms(2) by (auto simp: validate_kind_eq_Inr)
  have len: "counts_of b = Some cs \<Longrightarrow> length cs = length b" for b cs
    by (induction b arbitrary: cs rule: counts_of.induct) (auto split: option.splits)
  have le: "(\<forall>c\<in>set cs. 0 \<le> c) \<Longrightarrow> c \<in> set cs \<Longrightarrow> c \<le> sum_list cs" for cs :: "int list" and c
    by (induction cs) (auto intro: sum_list_nonneg add_increasing add_increasing2)
  from a show ?thesis
    unfolding validate_aggregate_eq_Inr by (force simp: v(1) index_def len intro: le)
qed

theorem validate_aggregate_sound_witness:
  "\<exists>total cs. as_i64 (index (index demo_aggregate ''counts'') ''total'') = Some total \<and> total = sum_list cs \<and> length cs \<le> 1024"
proof -
  have "validate demo_ext demo_aggregate = Inr ()" "get demo_aggregate ''kind'' = Some (JString ''aggregate'')" by code_simp+
  from validate_aggregate_sound [OF this] show ?thesis by blast
qed

text \<open>Validation never traps, whatever value it is given: every failure is an error code.\<close>

lemma validate_never_traps: "\<not> traps (validate x e)"
  by (rule validate_no_trap)

end
