(* ===== verification/Chain.thy ===== *)
theory Chain
  imports Envelope
begin

text \<open>
  Hash chain verification, \<open>stozher-core/src/chain.rs\<close>: one record of a range against its predecessor,
  the loop over the range, and checkpoints over a range. The abstract counterpart is \<open>chain_of\<close>: what it
  is for a list of envelopes to be a contiguous piece of a stream. Verification is shown to decide it,
  and two verified ranges with one head to be the same records unless SHA-256 collides.
\<close>

section \<open>Verification of a range\<close>

record chain_result =
  count :: nat
  head_hash :: string
  anchored :: bool

definition attach :: "u64 option \<Rightarrow> error \<Rightarrow> error" where
  "attach s e = (case s of Some n \<Rightarrow> at_seq n e | None \<Rightarrow> e)"

text \<open>\<open>first_seq + index as u64\<close> traps when it overflows.\<close>

definition expected_position :: "u64 \<Rightarrow> nat \<Rightarrow> u64 res" where
  "expected_position first_seq idx =
     (if unat first_seq + idx < 2 ^ 64 then Inr (first_seq + of_nat idx) else Inl Panic)"

definition verify_link :: "string option \<Rightarrow> u64 \<Rightarrow> string option \<Rightarrow> string option \<Rightarrow> unit res" where
  "verify_link anchor seq previous prev_hash =
     (case (previous, prev_hash) of
        (None, None) \<Rightarrow> Inr ()
      | (None, Some claimed) \<Rightarrow>
          (case anchor of
             Some a \<Rightarrow> if claimed \<noteq> a then Inl (at_seq seq (err ''chain-prev-hash-mismatch'')) else Inr ()
           | None \<Rightarrow> Inr ())
      | (Some actual, Some claimed) \<Rightarrow>
          if claimed \<noteq> actual then Inl (at_seq seq (err ''chain-prev-hash-mismatch'')) else Inr ()
      | (Some actual, None) \<Rightarrow> Inl (at_seq seq (err ''chain-prev-hash-missing'')))"

text \<open>\<open>get("seq").and_then(Value::as_u64).unwrap_or_default()\<close>\<close>

definition seq_or_default :: "json \<Rightarrow> u64" where
  "seq_or_default e = (case get_u64 e ''seq'' of Some n \<Rightarrow> n | None \<Rightarrow> 0)"

definition verify_record ::
  "ext \<Rightarrow> string \<Rightarrow> string option \<Rightarrow> u64 \<Rightarrow> nat \<Rightarrow> string option \<Rightarrow> json \<Rightarrow> string res" where
  "verify_record x stream anchor first_seq idx previous current =
     (let observed_seq = get_u64 current ''seq'';
          seq = seq_or_default current
      in
        and_then (map_err (attach observed_seq) (verify_signed_object x current)) (\<lambda>_.
        and_then (map_err (at_seq seq) (validate x current)) (\<lambda>_.
          if str_or_empty (index current ''stream'') \<noteq> stream
          then Inl (at_seq seq (err ''chain-stream-mismatch''))
          else
            and_then (expected_position first_seq idx) (\<lambda>expected_seq.
              if seq \<noteq> expected_seq then
                Inl (at_seq seq (err (if seq < expected_seq then ''chain-seq-duplicate'' else ''chain-seq-gap'')))
              else
                and_then (verify_link anchor seq previous (as_str (index current ''prev-hash''))) (\<lambda>_.
                  object_id x current)))))"

fun verify_from ::
  "ext \<Rightarrow> string \<Rightarrow> string option \<Rightarrow> u64 \<Rightarrow> nat \<Rightarrow> string option \<Rightarrow> json list \<Rightarrow> string option res" where
  "verify_from x stream anchor first_seq idx previous [] = Inr previous"
| "verify_from x stream anchor first_seq idx previous (current # rest) =
     and_then (verify_record x stream anchor first_seq idx previous current) (\<lambda>record_id.
       verify_from x stream anchor first_seq (Suc idx) (Some record_id) rest)"

definition verify_chain :: "ext \<Rightarrow> json list \<Rightarrow> string \<Rightarrow> string option \<Rightarrow> chain_result res" where
  "verify_chain x envelopes stream anchor =
     (case envelopes of
        [] \<Rightarrow> Inl (err ''chain-empty-range'')
      | first # _ \<Rightarrow>
          (let first_seq = seq_or_default first
           in and_then (verify_from x stream anchor first_seq 0 None envelopes) (\<lambda>previous.
                Inr \<lparr>count = length envelopes, head_hash = (case previous of Some h \<Rightarrow> h | None \<Rightarrow> []),
                     anchored = (first_seq = 0 \<or> anchor \<noteq> None)\<rparr>)))"

section \<open>Checkpoints\<close>

text \<open>\<open>to_seq.saturating_sub(from_seq) + 1\<close>, which traps on the one difference that leaves no room.\<close>

definition attested_count :: "u64 \<Rightarrow> u64 \<Rightarrow> u64 res" where
  "attested_count from_seq to_seq =
     (case checked_add_u64 (saturating_sub_u64 to_seq from_seq) 1 of Some n \<Rightarrow> Inr n | None \<Rightarrow> Inl Panic)"

definition verify_checkpoint :: "ext \<Rightarrow> json \<Rightarrow> json list \<Rightarrow> string option \<Rightarrow> chain_result res" where
  "verify_checkpoint x checkpoint records anchor =
     and_then (ok_or (get checkpoint ''checkpoint'') ''schema-missing-member'') (\<lambda>body.
     and_then (ok_or (get_str body ''stream'') ''schema-missing-member'') (\<lambda>stream.
     and_then (ok_or (get_u64 body ''from-seq'') ''schema-missing-member'') (\<lambda>from_seq.
     and_then (ok_or (get_u64 body ''to-seq'') ''schema-missing-member'') (\<lambda>to_seq.
     and_then (ok_or (get_u64 body ''count'') ''schema-missing-member'') (\<lambda>cnt.
     and_then (ok_or (get_str body ''head-hash'') ''schema-missing-member'') (\<lambda>head.
     and_then (attested_count from_seq to_seq) (\<lambda>attested.
       if cnt \<noteq> attested then Inl (err ''checkpoint-count-mismatch'')
       else if length records \<noteq> unat cnt then Inl (err ''checkpoint-count-mismatch'')
       else
         and_then (ok_or (case records of [] \<Rightarrow> None | e # _ \<Rightarrow> get_u64 e ''seq'') ''schema-missing-member'') (\<lambda>observed_first.
           if observed_first \<noteq> from_seq then Inl (err ''checkpoint-range-mismatch'')
           else
             and_then (verify_chain x records stream anchor) (\<lambda>result.
               if head_hash result \<noteq> head then Inl (err ''checkpoint-head-mismatch'') else Inr result)))))))))"

section \<open>What a chain is\<close>

text \<open>An authentic record: signed by the key it names, and structurally valid.\<close>

definition authentic :: "ext \<Rightarrow> json \<Rightarrow> bool" where
  "authentic x e \<longleftrightarrow> (\<exists>k. verify_signed_object x e = Inr k) \<and> validate x e = Inr ()"

definition seq_no :: "json \<Rightarrow> nat" where
  "seq_no e = unat (seq_or_default e)"

definition prev_of :: "json \<Rightarrow> string option" where
  "prev_of e = as_str (index e ''prev-hash'')"

text \<open>Contiguous records of one stream from position \<open>n\<close>, each naming the identifier of the one before; the
  predecessor of the first is \<open>p\<close> where one is required. The value is the identifier of the last.\<close>

fun chain_of :: "ext \<Rightarrow> string \<Rightarrow> nat \<Rightarrow> string option \<Rightarrow> json list \<Rightarrow> string option \<Rightarrow> bool" where
  "chain_of x stream n p [] h \<longleftrightarrow> h = p"
| "chain_of x stream n p (e # es) h \<longleftrightarrow>
     authentic x e \<and> get_str e ''stream'' = Some stream \<and> seq_no e = n
     \<and> (p \<noteq> None \<longrightarrow> prev_of e = p)
     \<and> (case object_id x e of Inr i \<Rightarrow> chain_of x stream (Suc n) (Some i) es h | Inl _ \<Rightarrow> False)"


section \<open>Verification decides the specification\<close>

lemma authentic_facts:
  assumes "authentic x e"
  obtains n s where "get_u64 e ''seq'' = Some n" "int (unat n) \<le> max_safe_integer" "get_str e ''stream'' = Some s"
    "n = 0 \<longleftrightarrow> prev_of e = None"
proof -
  from assms have "validate x e = Inr ()" by (simp add: authentic_def)
  then show ?thesis
  proof (rule validate_position_facts)
    fix m seq stream prev
    assume a: "get_u64 e ''seq'' = Some seq" "int (unat seq) \<le> max_safe_integer" "get_str e ''stream'' = Some stream"
      "get e ''prev-hash'' = Some prev" "seq = 0 \<longleftrightarrow> prev = JNull" "prev = JNull \<or> (\<exists>h. prev = JString h \<and> is_digest_hex h)"
    have "prev_of e = None \<longleftrightarrow> prev = JNull" using a(4,6) by (auto simp: prev_of_def index_def)
    then show ?thesis using that [OF a(1,2,3)] a(5) by simp
  qed
qed

lemma authentic_seq:
  assumes "authentic x e"
  shows "int (seq_no e) \<le> max_safe_integer"
proof -
  from assms obtain n where n: "get_u64 e ''seq'' = Some n" "int (unat n) \<le> max_safe_integer"
    by (rule authentic_facts)
  then have "seq_no e = unat n" by (simp add: seq_no_def seq_or_default_def)
  with n(2) show ?thesis by (simp only:)
qed

lemma unat_eq_position: "unat (a :: u64) + k < 2 ^ 64 \<Longrightarrow> unat (a + of_nat k) = unat a + k"
  by (simp add: unat_word_ariths take_bit_nat_def unat_of_nat)

definition anchor_ok :: "string option \<Rightarrow> json \<Rightarrow> bool" where
  "anchor_ok anchor e \<longleftrightarrow> (case (anchor, prev_of e) of (Some a, Some c) \<Rightarrow> c = a | _ \<Rightarrow> True)"

lemma verify_link_eq_Inr:
  "verify_link anchor seq previous prev = Inr u \<longleftrightarrow>
     (case previous of Some p \<Rightarrow> prev = Some p
      | None \<Rightarrow> (case (anchor, prev) of (Some a, Some c) \<Rightarrow> c = a | _ \<Rightarrow> True))"
  by (auto simp: verify_link_def split: option.splits)

lemma verify_record_eq_Inr:
  "verify_record x stream anchor first_seq idx previous e = Inr i \<longleftrightarrow>
     authentic x e \<and> get_str e ''stream'' = Some stream \<and> unat first_seq + idx < 2 ^ 64 \<and> seq_no e = unat first_seq + idx
     \<and> (case previous of Some p \<Rightarrow> prev_of e = Some p | None \<Rightarrow> anchor_ok anchor e) \<and> object_id x e = Inr i"
  (is "?L \<longleftrightarrow> ?R")
proof (cases "authentic x e")
  case True
  then obtain n s where e: "get_u64 e ''seq'' = Some n" "get_str e ''stream'' = Some s" by (rule authentic_facts)
  from True obtain k where k: "verify_signed_object x e = Inr k" "validate x e = Inr ()" by (auto simp: authentic_def)
  have st: "str_or_empty (index e ''stream'') = s"
    using e(2) by (auto simp: get_str_eq_Some index_def str_or_empty_def)
  have pos: "n = first_seq + of_nat idx \<longleftrightarrow> unat n = unat first_seq + idx" if "unat first_seq + idx < 2 ^ 64"
    using unat_eq_position [OF that] by (simp add: word_eq_iff_unsigned [where ?'a = nat])
  show ?thesis
    using True e pos
    by (auto simp: verify_record_def k st expected_position_def verify_link_eq_Inr seq_no_def seq_or_default_def anchor_ok_def
        prev_of_def [symmetric] split: option.splits if_splits)
next
  case False
  then show ?thesis by (auto simp: verify_record_def authentic_def Let_def)
qed

lemma verify_from_some:
  "verify_from x stream anchor first_seq idx (Some p) es = Inr h \<longleftrightarrow>
     chain_of x stream (unat first_seq + idx) (Some p) es h \<and> (es = [] \<or> unat first_seq + idx + length es \<le> 2 ^ 64)"
proof (induction es arbitrary: idx p)
  case (Cons e es)
  show ?case
    by (cases "object_id x e") (auto simp: verify_record_eq_Inr Cons.IH ac_simps)
qed auto

lemma chain_of_positions:
  "chain_of x stream n p es h \<Longrightarrow> es = [] \<or> int (n + length es) \<le> max_safe_integer + 1"
proof (induction es arbitrary: n p)
  case (Cons e es)
  from Cons.prems have a: "authentic x e" "seq_no e = n" by auto
  from a(1) have "int (seq_no e) \<le> max_safe_integer" by (rule authentic_seq)
  then have "int n \<le> max_safe_integer" unfolding a(2) .
  moreover from Cons.prems obtain i where "chain_of x stream (Suc n) (Some i) es h" by (auto split: sum.splits)
  from Cons.IH [OF this] have "es = [] \<or> int (Suc n + length es) \<le> max_safe_integer + 1" .
  ultimately show ?case by auto
qed simp

lemma chain_of_bound: "chain_of x stream n p es h \<Longrightarrow> es \<noteq> [] \<Longrightarrow> n + length es \<le> 2 ^ 64"
  using chain_of_positions [of x stream n p es h] by (simp add: max_safe_integer_def)

lemma verify_chain_iff:
  "verify_chain x es stream anchor = Inr r \<longleftrightarrow>
     (\<exists>e rest h. es = e # rest \<and> chain_of x stream (seq_no e) None es (Some h) \<and> anchor_ok anchor e
        \<and> r = \<lparr>count = length es, head_hash = h, anchored = (seq_no e = 0 \<or> anchor \<noteq> None)\<rparr>)"
proof (cases es)
  case (Cons e rest)
  let ?n = "seq_or_default e"
  have n: "unat ?n = seq_no e" by (simp add: seq_no_def)
  have lt: "seq_no e < 2 ^ 64" unfolding n [symmetric] by (rule order.strict_trans2 [OF unsigned_less]) simp
  have z: "?n = 0 \<longleftrightarrow> seq_no e = 0" by (simp add: seq_no_def unat_eq_0)
  have some: "chain_of x stream k (Some i) es' h \<Longrightarrow> h \<noteq> None" for k i es' h
    by (induction es' arbitrary: k i) (auto split: sum.splits)
  have "verify_from x stream anchor ?n 0 None es = Inr h \<longleftrightarrow>
      chain_of x stream (seq_no e) None es h \<and> anchor_ok anchor e" for h
    using lt
    by (cases "object_id x e") (auto simp: Cons verify_record_eq_Inr verify_from_some n dest: chain_of_bound)
  note V = this
  have "verify_chain x es stream anchor = and_then (verify_from x stream anchor ?n 0 None es) (\<lambda>previous.
      Inr \<lparr>count = length es, head_hash = (case previous of Some h \<Rightarrow> h | None \<Rightarrow> []),
        anchored = (seq_no e = 0 \<or> anchor \<noteq> None)\<rparr>)"
    unfolding verify_chain_def Cons Let_def by (simp add: z)
  then have "verify_chain x es stream anchor = Inr r \<longleftrightarrow> (\<exists>h. chain_of x stream (seq_no e) None es h \<and> anchor_ok anchor e
      \<and> r = \<lparr>count = length es, head_hash = (case h of Some h \<Rightarrow> h | None \<Rightarrow> []),
        anchored = (seq_no e = 0 \<or> anchor \<noteq> None)\<rparr>)"
    by (simp only: and_then_eq_Inr V sum.inject) blast
  moreover have "h \<noteq> None" if "chain_of x stream (seq_no e) None es h" for h
    using that some by (auto simp: Cons split: sum.splits)
  ultimately show ?thesis using Cons by force
qed (simp add: verify_chain_def)

section \<open>Verification does not trap\<close>

lemma attach_Panic [simp]: "attach s e = Panic \<longleftrightarrow> e = Panic"
  by (cases e) (auto simp: attach_def err_def split: option.splits)

lemma traps_map_err_attach [simp, trap_simps]: "traps (map_err (attach s) r) \<longleftrightarrow> traps r"
  by (cases r) (auto simp: traps_def)

lemma at_seq_Panic [simp]: "at_seq s e = Panic \<longleftrightarrow> e = Panic"
  by (cases e) auto

lemma verify_record_no_trap:
  assumes "unat first_seq + idx < 2 ^ 64"
  shows "\<not> traps (verify_record x stream anchor first_seq idx previous e)"
proof -
  have "\<not> traps (verify_link a s p q)" for a s p q
    by (auto simp: verify_link_def split: option.splits)
  with assms show ?thesis
    by (auto simp: verify_record_def Let_def trap_simps expected_position_def validate_no_trap split: option.splits)
qed

lemma verify_from_no_trap:
  "idx = 0 \<or> unat first_seq + idx \<le> 2 ^ 53 \<Longrightarrow> \<not> traps (verify_from x stream anchor first_seq idx previous es)"
proof (induction es arbitrary: idx previous)
  case (Cons e es)
  have "unat first_seq + idx < 2 ^ 64"
    using Cons.prems unsigned_less [of first_seq] by auto
  then have 1: "\<not> traps (verify_record x stream anchor first_seq idx previous e)"
    by (rule verify_record_no_trap)
  have "\<not> traps (verify_from x stream anchor first_seq (Suc idx) (Some i) es)"
    if "verify_record x stream anchor first_seq idx previous e = Inr i" for i
  proof (rule Cons.IH)
    from that have a: "authentic x e" "seq_no e = unat first_seq + idx" by (auto simp: verify_record_eq_Inr)
    from authentic_seq [OF a(1)] have "int (unat first_seq + idx) \<le> max_safe_integer" unfolding a(2) .
    then have "int (unat first_seq + idx) \<le> int 9007199254740991" unfolding max_safe_integer_def by (simp only: of_nat_numeral)
    then have "unat first_seq + idx \<le> 9007199254740991" unfolding of_nat_le_iff .
    then show "Suc idx = 0 \<or> unat first_seq + Suc idx \<le> 2 ^ 53" by simp
  qed
  with 1 show ?case by (auto simp: traps_and_then)
qed simp

lemma verify_chain_no_trap [simp, trap_simps]: "\<not> traps (verify_chain x es stream anchor)"
proof (cases es)
  case (Cons e rest)
  have "\<not> traps (verify_from x stream anchor (seq_or_default e) 0 None es)"
    by (rule verify_from_no_trap) simp
  then show ?thesis unfolding verify_chain_def Cons Let_def list.case traps_and_then by simp
qed (simp add: verify_chain_def)

lemma attested_count_simps:
  "traps (attested_count a b) \<longleftrightarrow> a = 0 \<and> b = - 1"
  "attested_count a b = Inr n \<longleftrightarrow> \<not> (a = 0 \<and> b = - 1) \<and> unat n = (unat b - unat a) + 1"
proof -
  have m: "unat (- 1 :: u64) = 2 ^ 64 - 1" by (simp add: unsigned_minus_1_eq_mask mask_eq_exp_minus_1)
  have s: "unat (saturating_sub_u64 b a) = unat b - unat a"
    by (auto simp: saturating_sub_u64_def unat_sub word_le_nat_alt)
  have lt: "unat b < 2 ^ 64" "unat a < 2 ^ 64" using unsigned_less [of b] unsigned_less [of a] by simp_all
  have e: "unat b - unat a + 1 < 2 ^ 64 \<longleftrightarrow> \<not> (a = 0 \<and> b = - 1)"
  proof -
    have "a = 0 \<longleftrightarrow> unat a = 0" by (simp add: unat_eq_0)
    moreover have "b = - 1 \<longleftrightarrow> unat b = 2 ^ 64 - 1" unfolding word_eq_iff_unsigned [where ?'a = nat] m ..
    ultimately show ?thesis using lt by auto
  qed
  show t: "traps (attested_count a b) \<longleftrightarrow> a = 0 \<and> b = - 1"
    using e by (auto simp: attested_count_def checked_add_u64_def s traps_def)
  show "attested_count a b = Inr n \<longleftrightarrow> \<not> (a = 0 \<and> b = - 1) \<and> unat n = (unat b - unat a) + 1"
  proof (cases "a = 0 \<and> b = - 1")
    case False
    with e have "unat b - unat a + 1 < 2 ^ 64" by simp
    moreover from this have "unat (saturating_sub_u64 b a + 1) = unat b - unat a + 1"
      using unat_eq_position [of "saturating_sub_u64 b a" 1] s by simp
    ultimately show ?thesis
      using False by (auto simp: attested_count_def checked_add_u64_def s word_eq_iff_unsigned [where ?'a = nat])
  next
    case True
    with t have "attested_count a b = Inl Panic" by (simp add: traps_def)
    with True show ?thesis by simp
  qed
qed

section \<open>Tamper evidence\<close>

lemma same_prev_of:
  assumes "same x a b" and "map_ok m" "a = JObject m" "b = JObject n" "map_ok n" and "authentic x a" "authentic x b"
  shows "prev_of a = prev_of b"
proof -
  have k: "''prev-hash'' \<in> fst ` set m" "''prev-hash'' \<in> fst ` set n"
  proof -
    obtain prev where "get a ''prev-hash'' = Some prev"
      using assms(6) unfolding authentic_def by (metis validate_position_facts)
    with assms(3) show "''prev-hash'' \<in> fst ` set m" by (force dest: map_of_SomeD)
    obtain prev where "get b ''prev-hash'' = Some prev"
      using assms(7) unfolding authentic_def by (metis validate_position_facts)
    with assms(4) show "''prev-hash'' \<in> fst ` set n" by (force dest: map_of_SomeD)
  qed
  have "same x (the (map_of m ''prev-hash'')) (the (map_of n ''prev-hash''))"
    using assms(1) k by (auto simp: assms(3,4) same_simps)
  moreover obtain v w where "map_of m ''prev-hash'' = Some v" "map_of n ''prev-hash'' = Some w"
    using k by (metis map_of_eq_None_iff not_None_eq)
  ultimately show ?thesis
    by (cases v) (auto simp: prev_of_def index_def assms(3,4) same_simps)
qed

lemma chain_of_snoc:
  "chain_of x stream n p (es @ [e]) h \<longleftrightarrow>
     (\<exists>q i. chain_of x stream n p es q \<and> authentic x e \<and> get_str e ''stream'' = Some stream \<and> seq_no e = n + length es
        \<and> (q \<noteq> None \<longrightarrow> prev_of e = q) \<and> object_id x e = Inr i \<and> h = Some i)"
proof (induction es arbitrary: n p)
  case Nil
  show ?case by (auto split: sum.splits)
next
  case (Cons a es)
  show ?case by (cases "object_id x a") (auto simp: Cons.IH)
qed

lemma chain_of_Some: "chain_of x stream n p es h \<Longrightarrow> es \<noteq> [] \<Longrightarrow> h \<noteq> None"
  by (cases es rule: rev_cases) (auto simp: chain_of_snoc)

lemma chain_of_same:
  assumes x: "documented x"
  shows "chain_of x stream n None es h \<Longrightarrow> chain_of x stream' n' None es' h \<Longrightarrow> length es = length es' \<Longrightarrow>
    list_all json_ok es \<Longrightarrow> list_all json_ok es' \<Longrightarrow>
    \<not> (\<exists>(a, b) \<in> set (zip es es'). collide x a b) \<Longrightarrow> list_all2 (same x) es es'"
proof (induction es arbitrary: es' h rule: rev_induct)
  case (snoc e es)
  then obtain e' fs where es': "es' = fs @ [e']" "length es = length fs" by (cases es' rule: rev_cases) auto
  obtain q i where c: "chain_of x stream n None es q" "authentic x e" "q \<noteq> None \<longrightarrow> prev_of e = q"
    "object_id x e = Inr i" "h = Some i" using snoc.prems(1) by (auto simp: chain_of_snoc)
  obtain q' i' where c': "chain_of x stream' n' None fs q'" "authentic x e'" "q' \<noteq> None \<longrightarrow> prev_of e' = q'"
    "object_id x e' = Inr i'" "h = Some i'" using snoc.prems(2) es' by (auto simp: chain_of_snoc)
  have ok: "json_ok e" "json_ok e'" "list_all json_ok es" "list_all json_ok fs" using snoc.prems es' by auto
  have nc: "\<not> collide x e e'" "\<not> (\<exists>(a, b) \<in> set (zip es fs). collide x a b)"
    using snoc.prems(6) es' by auto
  have s: "same x e e'" using object_id_same [OF x ok(1,2)] c(4,5) c'(4,5) nc(1) by auto
  obtain m where m: "e = JObject m" using c(2) unfolding authentic_def by (metis validate_position_facts)
  obtain m' where m': "e' = JObject m'" using c'(2) unfolding authentic_def by (metis validate_position_facts)
  have prev: "prev_of e = prev_of e'"
    using same_prev_of [OF s _ m m' _ c(2) c'(2)] ok m m' by simp
  show ?case
  proof (cases "es = []")
    case False
    then have "fs \<noteq> []" using es'(2) by (metis length_0_conv)
    with False have "q \<noteq> None" "q' \<noteq> None" using chain_of_Some [OF c(1)] chain_of_Some [OF c'(1)] es' by auto
    with c(3) c'(3) prev have "q = q'" by simp
    with snoc.IH [OF c(1)] c'(1) es' ok nc(2) s show ?thesis by (auto intro: list_all2_appendI)
  qed (use es' s in auto)
qed simp

text \<open>The position of every record of a chain.\<close>

lemma chain_of_nth:
  "chain_of x stream n p es h \<Longrightarrow> k < length es \<Longrightarrow>
     authentic x (es ! k) \<and> get_str (es ! k) ''stream'' = Some stream \<and> seq_no (es ! k) = n + k
     \<and> (0 < k \<longrightarrow> (\<exists>i. object_id x (es ! (k - 1)) = Inr i \<and> prev_of (es ! k) = Some i))"
proof (induction es arbitrary: n p k)
  case (Cons e es)
  then obtain i where i: "object_id x e = Inr i" "chain_of x stream (Suc n) (Some i) es h" by (auto split: sum.splits)
  show ?case
  proof (cases k)
    case 0
    with Cons.prems show ?thesis by auto
  next
    case (Suc j)
    have j: "j < length es" using Cons.prems Suc by simp
    show ?thesis
    proof (cases j)
      case 0
      then have "prev_of (es ! 0) = Some i" using i(2) j by (cases es) auto
      with Cons.IH [OF i(2) j] Suc 0 i(1) show ?thesis by simp
    next
      case (Suc l)
      with Cons.IH [OF i(2) j] \<open>k = Suc j\<close> show ?thesis by simp
    qed
  qed
qed simp

lemma chain_of_last: "chain_of x stream n p es h \<Longrightarrow> es \<noteq> [] \<Longrightarrow> \<exists>i. object_id x (last es) = Inr i \<and> h = Some i"
  by (cases es rule: rev_cases) (auto simp: chain_of_snoc)

section \<open>Checkpoints\<close>

lemma verify_checkpoint_eq_Inr:
  "verify_checkpoint x c rs anchor = Inr r \<longleftrightarrow>
     (\<exists>body stream a b n attested e rest. get c ''checkpoint'' = Some body \<and> get_str body ''stream'' = Some stream
        \<and> get_u64 body ''from-seq'' = Some a \<and> get_u64 body ''to-seq'' = Some b \<and> get_u64 body ''count'' = Some n
        \<and> get_str body ''head-hash'' = Some (head_hash r) \<and> attested_count a b = Inr attested \<and> n = attested
        \<and> length rs = unat n \<and> rs = e # rest \<and> get_u64 e ''seq'' = Some a \<and> verify_chain x rs stream anchor = Inr r)"
  unfolding verify_checkpoint_def by (cases rs) (auto split: if_splits)

lemma verify_checkpoint_traps:
  "traps (verify_checkpoint x c rs anchor) \<longleftrightarrow>
     (\<exists>body stream n h. get c ''checkpoint'' = Some body \<and> get_str body ''stream'' = Some stream
        \<and> get_u64 body ''from-seq'' = Some 0 \<and> get_u64 body ''to-seq'' = Some (- 1) \<and> get_u64 body ''count'' = Some n
        \<and> get_str body ''head-hash'' = Some h)"
  unfolding verify_checkpoint_def by (auto simp: traps_and_then attested_count_simps(1))

section \<open>A concrete chain\<close>

definition demo_record :: "u64 \<Rightarrow> json \<Rightarrow> json" where
  "demo_record n prev = demo_signed (JObject
     [(''emitted-at'', JString ''2026-07-26T09:15:01.300Z''), (''identity'', demo_identity), (''kind'', JString ''mandate''),
      (''mandate'', JNull), (''prev-hash'', prev), (''seq'', demo_num n), (''stream'', JString ''gw''),
      (''v'', JString version)])"

definition demo_chain :: "json list" where
  "demo_chain = (let a = demo_record 0 JNull in [a, demo_record 1 (JString (demo_id a))])"

definition demo_checkpoint :: "u64 \<Rightarrow> u64 \<Rightarrow> json \<Rightarrow> json" where
  "demo_checkpoint from_seq to_seq e = JObject [(''checkpoint'', JObject
     [(''count'', demo_num 1), (''from-seq'', demo_num from_seq), (''head-hash'', JString (demo_id e)),
      (''stream'', JString ''gw''), (''to-seq'', demo_num to_seq)])]"

section \<open>Properties\<close>

text \<open>Chain verification decides what a chain is: it succeeds exactly on the non-empty lists of authentic
  envelopes of the named stream with consecutive positions in which every record names the identifier of its
  predecessor, with the supplied anchor where the first record names one, and then reports their number, the
  identifier of the last, and whether the range is anchored.\<close>

lemma verify_chain_decides:
  "verify_chain x es stream anchor = Inr r \<longleftrightarrow>
     (\<exists>e rest h. es = e # rest \<and> chain_of x stream (seq_no e) None es (Some h) \<and> anchor_ok anchor e
        \<and> r = \<lparr>count = length es, head_hash = h,
              anchored = (case anchor of None \<Rightarrow> seq_no e = 0 | Some _ \<Rightarrow> True)\<rparr>)"
  unfolding verify_chain_iff by (cases anchor) auto

text \<open>C5: A chain is tamper evident: two verified ranges of equal length with one head are the same records, one by
  one, or two records at one position are a collision of SHA-256, so the head alone fixes the whole history.\<close>

theorem chain_tamper_evident:
  assumes "documented x" and "list_all json_ok es" and "list_all json_ok es'"
    and "verify_chain x es stream anchor = Inr r" and "verify_chain x es' stream' anchor' = Inr r'"
    and "head_hash r = head_hash r'" and "count r = count r'"
  shows "list_all2 (same x) es es' \<or> (\<exists>(a, b) \<in> set (zip es es'). collide x a b)"
proof -
  obtain n h where a: "chain_of x stream n None es (Some h)" "head_hash r = h" "count r = length es"
    using assms(4) by (auto simp: verify_chain_iff)
  obtain n' h' where b: "chain_of x stream' n' None es' (Some h')" "head_hash r' = h'" "count r' = length es'"
    using assms(5) by (auto simp: verify_chain_iff)
  show ?thesis
    using chain_of_same [OF assms(1) a(1), of stream' n' es'] a b assms by auto
qed

theorem chain_tamper_evident_witness:
  "list_all2 (same demo_ext) demo_chain demo_chain \<or> (\<exists>(a, b) \<in> set (zip demo_chain demo_chain). collide demo_ext a b)"
proof -
  have "list_all json_ok demo_chain" by code_simp
  moreover have "\<exists>r. verify_chain demo_ext demo_chain ''gw'' None = Inr r"
  proof -
    have "(case verify_chain demo_ext demo_chain ''gw'' None of Inr r \<Rightarrow> True | Inl _ \<Rightarrow> False)" by code_simp
    then show ?thesis by (auto split: sum.splits)
  qed
  ultimately show ?thesis using chain_tamper_evident [OF demo_documented] by metis
qed

text \<open>Chain verification never traps, although the expected position is an unchecked sum of two machine integers:
  every record before has passed validation, which bounds its position.\<close>

lemma verify_chain_never_traps: "\<not> traps (verify_chain x es stream anchor)"
  by (rule verify_chain_no_trap)

text \<open>C13: A verified checkpoint is over exactly the records it attests: their number is its \<open>count\<close>, they start at its
  \<open>from-seq\<close>, they are consecutive, and its \<open>head-hash\<close> is the identifier of the last. The count is the length of
  the attested range, or the range is inverted and the count is one.\<close>

theorem verify_checkpoint_sound:
  assumes "verify_checkpoint x c rs anchor = Inr r"
  shows "\<exists>body a b n h stream. get c ''checkpoint'' = Some body \<and> get_u64 body ''from-seq'' = Some a
    \<and> get_u64 body ''to-seq'' = Some b \<and> get_u64 body ''count'' = Some n \<and> get_str body ''head-hash'' = Some h
    \<and> get_str body ''stream'' = Some stream
    \<and> length rs = unat n \<and> chain_of x stream (unat a) None rs (Some h) \<and> object_id x (last rs) = Inr h
    \<and> (unat a + length rs = unat b + 1 \<or> b < a \<and> length rs = 1)"
proof -
  from assms obtain body stream a b n attested e rest where v: "get c ''checkpoint'' = Some body"
    "get_str body ''stream'' = Some stream" "get_u64 body ''from-seq'' = Some a" "get_u64 body ''to-seq'' = Some b"
    "get_u64 body ''count'' = Some n" "get_str body ''head-hash'' = Some (head_hash r)" "attested_count a b = Inr n"
    "length rs = unat n" "rs = e # rest" "get_u64 e ''seq'' = Some a" "verify_chain x rs stream anchor = Inr r"
    unfolding verify_checkpoint_eq_Inr by blast
  have "seq_no e = unat a" using v(10) by (simp add: seq_no_def seq_or_default_def)
  moreover obtain h where "chain_of x stream (seq_no e) None rs (Some h)" "head_hash r = h"
    using v(9,11) by (auto simp: verify_chain_iff simp del: chain_of.simps)
  ultimately have c: "chain_of x stream (unat a) None rs (Some (head_hash r))" by simp
  moreover have "object_id x (last rs) = Inr (head_hash r)" using chain_of_last [OF c] v(9) by auto
  moreover have "unat a + length rs = unat b + 1 \<or> b < a \<and> length rs = 1"
    using v(7,8) by (auto simp: attested_count_simps word_less_nat_alt)
  ultimately show ?thesis using v by blast
qed

theorem verify_checkpoint_sound_witness:
  "let e = demo_record 5 (JString demo_digest)
   in \<exists>r. verify_checkpoint demo_ext (demo_checkpoint 5 3 e) [e] None = Inr r \<and> object_id demo_ext e = Inr (head_hash r)"
proof -
  let ?e = "demo_record 5 (JString demo_digest)"
  have "(case verify_checkpoint demo_ext (demo_checkpoint 5 3 ?e) [?e] None of Inr r \<Rightarrow> head_hash r = demo_id ?e | Inl _ \<Rightarrow> False)"
    by code_simp
  then obtain r where r: "verify_checkpoint demo_ext (demo_checkpoint 5 3 ?e) [?e] None = Inr r" "head_hash r = demo_id ?e"
    by (auto split: sum.splits)
  from verify_checkpoint_sound [OF r(1)] obtain h where "object_id demo_ext ?e = Inr h" by auto
  with r show ?thesis by (auto simp: demo_id_def Let_def)
qed

text \<open>C17: Checkpoint verification traps on exactly one kind of input: a complete checkpoint that claims the range from
  position 0 to the largest machine integer, whose length is not a machine integer.\<close>

theorem verify_checkpoint_traps_iff:
  "traps (verify_checkpoint x c rs anchor) \<longleftrightarrow>
     (\<exists>body stream n h. get c ''checkpoint'' = Some body \<and> get_str body ''stream'' = Some stream
        \<and> get_u64 body ''from-seq'' = Some 0 \<and> get_u64 body ''to-seq'' = Some (- 1) \<and> get_u64 body ''count'' = Some n
        \<and> get_str body ''head-hash'' = Some h)"
  by (rule verify_checkpoint_traps)

end
