(* ===== verification/Scope.thy ===== *)
theory Scope
  imports Envelope
begin

text \<open>
  The scope of a mandate, from \<open>stozher-core/src/mandate.rs\<close>: the pattern language (exact equality, the
  star, a dotted prefix), whether one pattern covers another, and the comparisons of whole scopes. What
  the chain walk needs of a pattern language is the locale \<open>pattern_language\<close>: covering is sound for
  matching and composes. The code's two functions are an instance.
\<close>

section \<open>Patterns\<close>

definition star :: string where "star = ''*''"
definition dot_star :: string where "dot_star = ''.*''"

definition matches :: "string \<Rightarrow> string \<Rightarrow> bool" where
  "matches pattern v =
     (if pattern = star \<or> pattern = v then True
      else
        (case strip_suffix pattern dot_star of
           Some prefix \<Rightarrow>
             length v > length prefix + 1 \<and> starts_with v prefix \<and> v ! length prefix = CHR ''.''
         | None \<Rightarrow> False))"

definition covers_pattern :: "string \<Rightarrow> string \<Rightarrow> bool" where
  "covers_pattern parent child =
     (if parent = star \<or> parent = child then True
      else
        (case strip_suffix parent dot_star of
           Some parent_prefix \<Rightarrow>
             (case strip_suffix child dot_star of
                Some child_prefix \<Rightarrow>
                  child_prefix = parent_prefix
                  \<or> (length child_prefix > length parent_prefix \<and> starts_with child_prefix parent_prefix
                     \<and> child_prefix ! length parent_prefix = CHR ''.'')
              | None \<Rightarrow> matches parent child)
         | None \<Rightarrow> False))"

definition dimensions :: "string list" where
  "dimensions = [''components'', ''actions'', ''classes'', ''resources'']"

definition patterns :: "json \<Rightarrow> string \<Rightarrow> string list res" where
  "patterns scope dimension =
     and_then (ok_or (Option.bind (get scope dimension) as_array) ''schema-missing-member'') (\<lambda>items.
       map_res (\<lambda>p. ok_or (as_str p) ''scope-bad-pattern'') items)"

record mandate_request =
  component :: string
  action :: string
  classification :: string
  resource :: string

definition request_from_value :: "json \<Rightarrow> mandate_request res" where
  "request_from_value v =
     and_then (ok_or (get_str v ''component'') ''schema-missing-member'') (\<lambda>c.
     and_then (ok_or (get_str v ''action'') ''schema-missing-member'') (\<lambda>a.
     and_then (ok_or (get_str v ''classification'') ''schema-missing-member'') (\<lambda>k.
     and_then (ok_or (get_str v ''resource'') ''schema-missing-member'') (\<lambda>r.
       Inr \<lparr>component = c, action = a, classification = k, resource = r\<rparr>))))"

fun permits_dimensions :: "json \<Rightarrow> (string \<times> string) list \<Rightarrow> bool res" where
  "permits_dimensions scope [] = Inr True"
| "permits_dimensions scope ((dimension, v) # rest) =
     and_then (patterns scope dimension) (\<lambda>ps.
       if \<not> list_ex (\<lambda>p. matches p v) ps then Inr False else permits_dimensions scope rest)"

definition scope_permits :: "json \<Rightarrow> mandate_request \<Rightarrow> bool res" where
  "scope_permits scope request =
     permits_dimensions scope
       (zip dimensions [component request, action request, classification request, resource request])"

fun subset_dimensions :: "json \<Rightarrow> json \<Rightarrow> string list \<Rightarrow> bool res" where
  "subset_dimensions child parent [] = Inr True"
| "subset_dimensions child parent (dimension # rest) =
     and_then (patterns parent dimension) (\<lambda>parent_patterns.
     and_then (patterns child dimension) (\<lambda>child_patterns.
       if \<not> list_all (\<lambda>c. list_ex (\<lambda>p. covers_pattern p c) parent_patterns) child_patterns then Inr False
       else subset_dimensions child parent rest))"

definition scope_subset :: "json \<Rightarrow> json \<Rightarrow> bool res" where
  "scope_subset child parent = subset_dimensions child parent dimensions"

text \<open>\<open>validate_scope\<close>: one pattern, and the loop over the dimensions.\<close>

definition validate_pattern :: "string \<Rightarrow> string \<Rightarrow> unit res" where
  "validate_pattern dimension pattern =
     (let bare = (case strip_suffix pattern dot_star of Some b \<Rightarrow> b | None \<Rightarrow> pattern)
      in if pattern \<noteq> star \<and> CHR ''*'' \<in> set bare then Inl (err ''scope-bad-pattern'')
         else if dimension = ''classes'' \<and> pattern \<noteq> star \<and> pattern \<notin> set classes
         then Inl (err ''scope-bad-pattern'')
         else Inr ())"

definition validate_scope :: "json \<Rightarrow> unit res" where
  "validate_scope scope =
     for_each (\<lambda>dimension. and_then (patterns scope dimension) (for_each (validate_pattern dimension))) dimensions"

section \<open>The interface of a pattern language\<close>

locale pattern_language =
  fixes hit :: "'p \<Rightarrow> 'v \<Rightarrow> bool"
    and covers :: "'p \<Rightarrow> 'p \<Rightarrow> bool"
  assumes covers_sound: "covers p c \<Longrightarrow> hit c v \<Longrightarrow> hit p v"
    and covers_self: "covers p p"
    and covers_compose: "covers p c \<Longrightarrow> covers c d \<Longrightarrow> covers p d"
begin

definition within :: "'p list \<Rightarrow> 'p list \<Rightarrow> bool" where
  "within cs ps \<longleftrightarrow> list_all (\<lambda>c. list_ex (\<lambda>p. covers p c) ps) cs"

lemma within_hit: "within cs ps \<Longrightarrow> list_ex (\<lambda>c. hit c v) cs \<Longrightarrow> list_ex (\<lambda>p. hit p v) ps"
  unfolding within_def list_all_iff list_ex_iff using covers_sound by blast

lemma within_self: "within ps ps"
  unfolding within_def list_all_iff list_ex_iff using covers_self by blast

lemma within_trans: "within ds cs \<Longrightarrow> within cs ps \<Longrightarrow> within ds ps"
  unfolding within_def list_all_iff list_ex_iff using covers_compose by blast

end

section \<open>The code's patterns are one\<close>

text \<open>A value under a prefix: the prefix, a dot, and something after the dot.\<close>

lemma under_prefix:
  "Suc (length q) < length v \<and> starts_with v q \<and> v ! length q = CHR ''.'' \<longleftrightarrow> (\<exists>r. v = q @ CHR ''.'' # r \<and> r \<noteq> [])"
proof
  assume a: "Suc (length q) < length v \<and> starts_with v q \<and> v ! length q = CHR ''.''"
  then obtain s where s: "v = q @ s" by (auto simp: starts_with_iff)
  with a show "\<exists>r. v = q @ CHR ''.'' # r \<and> r \<noteq> []" by (cases s) auto
qed (auto simp: neq_Nil_conv)

lemma matches_iff:
  "matches p v \<longleftrightarrow> p = star \<or> p = v \<or> (\<exists>q r. p = q @ dot_star \<and> v = q @ CHR ''.'' # r \<and> r \<noteq> [])"
  by (auto simp: matches_def under_prefix strip_suffix_eq_Some strip_suffix_eq_None split: option.splits)

lemma prefix_dot: "length c > length q \<and> starts_with c q \<and> c ! length q = CHR ''.'' \<longleftrightarrow> (\<exists>r. c = q @ CHR ''.'' # r)"
proof
  assume a: "length c > length q \<and> starts_with c q \<and> c ! length q = CHR ''.''"
  then obtain s where s: "c = q @ s" by (auto simp: starts_with_iff)
  with a show "\<exists>r. c = q @ CHR ''.'' # r" by (cases s) auto
qed auto

text \<open>One pattern covers another exactly when it matches it as a string.\<close>

lemma dotted_split:
  "d @ dot_star = q @ CHR ''.'' # r \<longleftrightarrow> d = q \<and> r = star \<or> (\<exists>s. d = q @ CHR ''.'' # s \<and> r = s @ dot_star)"
  by (auto simp: append_eq_append_conv2 dot_star_def star_def Cons_eq_append_conv append_eq_Cons_conv)

lemma covers_pattern_iff: "covers_pattern p c \<longleftrightarrow> matches p c"
proof (cases "p = star \<or> p = c")
  case False
  show ?thesis
  proof (cases "strip_suffix p dot_star")
    case (Some q)
    then have p: "p = q @ dot_star" by (simp add: strip_suffix_eq_Some)
    show ?thesis
    proof (cases "strip_suffix c dot_star")
      case (Some d)
      then have c: "c = d @ dot_star" by (simp add: strip_suffix_eq_Some)
      from False p c have "covers_pattern p c \<longleftrightarrow> d = q \<or> (\<exists>s. d = q @ CHR ''.'' # s)"
        by (simp add: covers_pattern_def prefix_dot)
      also have "\<dots> \<longleftrightarrow> (\<exists>r. c = q @ CHR ''.'' # r \<and> r \<noteq> [])"
        unfolding c dotted_split by (auto simp: star_def dot_star_def)
      also have "\<dots> \<longleftrightarrow> matches p c" using False by (auto simp: matches_iff p)
      finally show ?thesis .
    qed (use False \<open>strip_suffix p dot_star = Some q\<close> in \<open>simp add: covers_pattern_def\<close>)
  next
    case None
    with False show ?thesis by (simp add: covers_pattern_def matches_def)
  qed
qed (auto simp: covers_pattern_def matches_def)

lemma matches_trans:
  assumes "matches p c" and "matches c v"
  shows "matches p v"
proof -
  from assms consider "p = star \<or> p = c \<or> c = v"
    | "c = star" "p \<noteq> star"
    | q r d s where "p = q @ dot_star" "c = q @ CHR ''.'' # r" "r \<noteq> []" "c = d @ dot_star" "v = d @ CHR ''.'' # s" "s \<noteq> []"
    unfolding matches_iff by metis
  then show ?thesis
  proof cases
    case 1
    with assms show ?thesis by (auto simp: matches_iff)
  next
    case 2
    with assms(1) show ?thesis by (auto simp: matches_iff star_def append_eq_Cons_conv Cons_eq_append_conv)
  next
    case 3
    then have "d = q \<or> (\<exists>u. d = q @ CHR ''.'' # u)" using dotted_split [of d q r] by auto
    with 3 show ?thesis by (auto simp: matches_iff)
  qed
qed

interpretation pats: pattern_language matches covers_pattern
  by unfold_locales (unfold covers_pattern_iff, erule (1) matches_trans, simp add: matches_iff, erule (1) matches_trans)

section \<open>Narrowing\<close>

lemma patterns_no_trap [simp, trap_simps]: "\<not> traps (patterns s d)"
proof -
  have "\<not> traps (map_res (\<lambda>p. ok_or (as_str p) c) xs)" for xs c
    by (induction xs) (auto simp: trap_simps)
  then show ?thesis by (simp add: patterns_def trap_simps)
qed

lemma permits_dimensions_eq:
  "permits_dimensions scope dvs = Inr True \<longleftrightarrow>
     (\<forall>(d, v)\<in>set dvs. \<exists>ps. patterns scope d = Inr ps \<and> list_ex (\<lambda>p. matches p v) ps)"
  by (induction scope dvs rule: permits_dimensions.induct) auto

lemma subset_dimensions_eq:
  "subset_dimensions child parent ds = Inr True \<longleftrightarrow>
     (\<forall>d\<in>set ds. \<exists>ps cs. patterns parent d = Inr ps \<and> patterns child d = Inr cs \<and> pats.within cs ps)"
  by (induction child parent ds rule: subset_dimensions.induct) (auto simp: pats.within_def)

lemma scope_permits_eq:
  "scope_permits scope r = Inr True \<longleftrightarrow>
     (\<exists>cs as ks rs. patterns scope ''components'' = Inr cs \<and> list_ex (\<lambda>p. matches p (component r)) cs
        \<and> patterns scope ''actions'' = Inr as \<and> list_ex (\<lambda>p. matches p (action r)) as
        \<and> patterns scope ''classes'' = Inr ks \<and> list_ex (\<lambda>p. matches p (classification r)) ks
        \<and> patterns scope ''resources'' = Inr rs \<and> list_ex (\<lambda>p. matches p (resource r)) rs)"
  by (auto simp: scope_permits_def permits_dimensions_eq dimensions_def)

lemma scope_subset_dimension:
  "scope_subset child parent = Inr True \<Longrightarrow> d \<in> set dimensions \<Longrightarrow>
     \<exists>ps cs. patterns parent d = Inr ps \<and> patterns child d = Inr cs \<and> pats.within cs ps"
  by (simp add: scope_subset_def subset_dimensions_eq)

text \<open>What a scope permits, a scope above it permits; and the relation composes.\<close>

lemma scope_subset_permits:
  assumes "scope_subset child parent = Inr True" and "scope_permits child r = Inr True"
  shows "scope_permits parent r = Inr True"
proof -
  have "\<exists>ps. patterns parent d = Inr ps \<and> list_ex (\<lambda>p. matches p v) ps"
    if "(d, v) \<in> set (zip dimensions [component r, action r, classification r, resource r])" for d v
  proof -
    from that have "d \<in> set dimensions" by (auto dest: set_zip_leftD)
    with scope_subset_dimension [OF assms(1)] obtain ps cs where
      "patterns parent d = Inr ps" "patterns child d = Inr cs" "pats.within cs ps" by blast
    moreover have "list_ex (\<lambda>p. matches p v) cs"
      using assms(2) that calculation(2) by (fastforce simp: scope_permits_def permits_dimensions_eq)
    ultimately show ?thesis using pats.within_hit by blast
  qed
  then show ?thesis by (auto simp: scope_permits_def permits_dimensions_eq)
qed

lemma scope_subset_trans:
  assumes "scope_subset a b = Inr True" and "scope_subset b c = Inr True"
  shows "scope_subset a c = Inr True"
proof -
  have "\<exists>ps cs. patterns c d = Inr ps \<and> patterns a d = Inr cs \<and> pats.within cs ps" if "d \<in> set dimensions" for d
    using scope_subset_dimension [OF assms(1) that] scope_subset_dimension [OF assms(2) that]
    by (auto intro: pats.within_trans)
  then show ?thesis by (simp add: scope_subset_def subset_dimensions_eq)
qed

lemma scope_subset_resources:
  assumes "scope_subset child parent = Inr True" and "patterns child ''resources'' = Inr cs" and "list_ex (\<lambda>p. matches p v) cs"
  shows "\<exists>ps. patterns parent ''resources'' = Inr ps \<and> list_ex (\<lambda>p. matches p v) ps"
  using scope_subset_dimension [OF assms(1), of "''resources''"] assms(2,3) pats.within_hit
  by (auto simp: dimensions_def)

lemma scope_no_trap [simp, trap_simps]: "\<not> traps (scope_permits s r)" "\<not> traps (scope_subset a b)" "\<not> traps (validate_scope s)"
proof -
  have "\<not> traps (permits_dimensions s dvs)" for dvs
    by (induction s dvs rule: permits_dimensions.induct) (auto simp: trap_simps)
  then show "\<not> traps (scope_permits s r)" by (simp add: scope_permits_def)
  have "\<not> traps (subset_dimensions a b ds)" for ds
    by (induction a b ds rule: subset_dimensions.induct) (auto simp: trap_simps)
  then show "\<not> traps (scope_subset a b)" by (simp add: scope_subset_def)
  have "\<not> traps (validate_pattern d p)" for d p by (simp add: validate_pattern_def Let_def trap_simps)
  then show "\<not> traps (validate_scope s)" by (auto simp: validate_scope_def trap_simps)
qed

end
