(* ===== verification/Decimal.thy ===== *)
theory Decimal
  imports Digits Complex_Main
begin

text \<open>
  Exact comparison and addition of monetary decimal strings, \<open>stozher-core/src/decimal.rs\<close>.
  \<open>parts\<close>, \<open>compare\<close>, \<open>at_most\<close> and \<open>add\<close> are the code's functions; \<open>amount\<close> is the abstract
  specification, the rational number a string denotes. The theorems say that the digit algorithms
  decide the order of the rationals and compute their sum, with no rounding.
\<close>

section \<open>The model\<close>

fun then_with :: "ordering \<Rightarrow> ordering \<Rightarrow> ordering" where
  "then_with Equal o2 = o2"
| "then_with o1 o2 = o1"

definition max_len :: nat where "max_len = 32"

definition digits :: "string \<Rightarrow> bool" where
  "digits part \<longleftrightarrow> part \<noteq> [] \<and> list_all is_digit part"

definition parts :: "string \<Rightarrow> (string \<times> string) res" where
  "parts value =
     (if value = [] \<or> length value > max_len then Inl (err ''schema-type-mismatch'')
      else
        (let (integer, fraction) =
               (case split_once value (CHR ''.'') of Some p \<Rightarrow> p | None \<Rightarrow> (value, []))
         in if \<not> digits integer \<or> CHR ''.'' \<in> set value \<and> \<not> digits fraction
            then Inl (err ''schema-type-mismatch'')
            else Inr (integer, fraction)))"

definition trim :: "string \<Rightarrow> string" where
  "trim s = (let trimmed = dropWhile (\<lambda>c. c = CHR ''0'') s in if trimmed = [] then ''0'' else trimmed)"

text \<open>The loop over both fractions, a missing digit read as zero.\<close>

fun cmp_fraction :: "string \<Rightarrow> string \<Rightarrow> ordering" where
  "cmp_fraction [] [] = Equal"
| "cmp_fraction (a # as) [] =
     (let order = cmp a (CHR ''0'') in if order \<noteq> Equal then order else cmp_fraction as [])"
| "cmp_fraction [] (b # bs) =
     (let order = cmp (CHR ''0'') b in if order \<noteq> Equal then order else cmp_fraction [] bs)"
| "cmp_fraction (a # as) (b # bs) =
     (let order = cmp a b in if order \<noteq> Equal then order else cmp_fraction as bs)"

definition compare :: "string \<Rightarrow> string \<Rightarrow> ordering res" where
  "compare left right =
     and_then (parts left) (\<lambda>(left_int, left_frac).
     and_then (parts right) (\<lambda>(right_int, right_frac).
       let l = trim left_int; r = trim right_int;
           integer = then_with (cmp (length l) (length r)) (cmp l r)
       in if integer \<noteq> Equal then Inr integer
          else Inr (cmp_fraction left_frac right_frac)))"

definition at_most :: "string \<Rightarrow> string \<Rightarrow> bool res" where
  "at_most left right = and_then (compare left right) (\<lambda>o1. Inr (o1 \<noteq> Greater))"

definition pad :: "nat \<Rightarrow> string \<Rightarrow> string \<Rightarrow> string" where
  "pad scale ip fp = ip @ fp @ replicate (scale - length fp) (CHR ''0'')"

definition digit_at :: "string \<Rightarrow> nat \<Rightarrow> nat" where
  "digit_at side index =
     (if index + 1 \<le> length side then digit_val (side ! (length side - (index + 1))) else 0)"

text \<open>The body of the addition loop: the running carry and the digits pushed so far.\<close>

definition add_step :: "string \<Rightarrow> string \<Rightarrow> nat \<Rightarrow> nat \<times> string \<Rightarrow> nat \<times> string" where
  "add_step a b index st =
     (let (carry, acc) = st; total = digit_at a index + digit_at b index + carry
      in (total div 10, acc @ [digit_char (total mod 10)]))"

definition add_loop :: "string \<Rightarrow> string \<Rightarrow> nat \<Rightarrow> nat \<times> string" where
  "add_loop a b n = fold (add_step a b) [0..<n] (0, [])"

definition sum_digits :: "string \<Rightarrow> string \<Rightarrow> string" where
  "sum_digits a b =
     (let (carry, acc) = add_loop a b (max (length a) (length b))
      in rev (if carry > 0 then acc @ [digit_char carry] else acc))"

definition render_total :: "nat \<Rightarrow> string \<Rightarrow> string" where
  "render_total scale ds =
     (let integer = trim (take (length ds - scale) ds); fraction = drop (length ds - scale) ds
      in if scale = 0 then integer else integer @ CHR ''.'' # fraction)"

definition add :: "string \<Rightarrow> string \<Rightarrow> string res" where
  "add left right =
     and_then (parts left) (\<lambda>(left_int, left_frac).
     and_then (parts right) (\<lambda>(right_int, right_frac).
       let scale = max (length left_frac) (length right_frac);
           a = pad scale left_int left_frac;
           b = pad scale right_int right_frac;
           total = render_total scale (sum_digits a b)
       in if length total > max_len then Inl (err ''schema-type-mismatch'') else Inr total))"

section \<open>The specification\<close>

definition is_decimal :: "string \<Rightarrow> bool" where
  "is_decimal s \<longleftrightarrow> (\<exists>p. parts s = Inr p)"

definition amount :: "string \<Rightarrow> rat" where
  "amount s =
     (case parts s of
        Inl _ \<Rightarrow> 0
      | Inr (i, f) \<Rightarrow> of_nat (nat_of (i @ f)) / 10 ^ length f)"

section \<open>Digit strings as numbers\<close>

lemma nat_of_dropWhile_zero: "nat_of (dropWhile (\<lambda>c. c = CHR ''0'') ds) = nat_of ds"
  by (induction ds) (auto simp: nat_of_Cons)

lemma nat_of_trim [simp]: "nat_of (trim ds) = nat_of ds"
proof (cases "dropWhile (\<lambda>c. c = CHR ''0'') ds = []")
  case True
  with nat_of_dropWhile_zero [of ds] show ?thesis
    by (simp add: trim_def Let_def nat_of_Cons)
next
  case False
  then have "trim ds = dropWhile (\<lambda>c. c = CHR ''0'') ds"
    unfolding trim_def Let_def by (rule if_not_P)
  then show ?thesis by (simp only: nat_of_dropWhile_zero)
qed

lemma digits_trim: "list_all is_digit ds \<Longrightarrow> list_all is_digit (trim ds) \<and> trim ds \<noteq> []"
  by (auto simp: trim_def Let_def list_all_iff dest: set_dropWhileD)

text \<open>Without leading zeros, the longer digit string is the larger number.\<close>

lemma trim_bounds:
  assumes "list_all is_digit ds"
  shows "nat_of ds < 10 ^ length (trim ds)"
    and "length (trim ds) > 1 \<Longrightarrow> 10 ^ (length (trim ds) - 1) \<le> nat_of ds"
proof -
  show "nat_of ds < 10 ^ length (trim ds)"
    using nat_of_less [of "trim ds"] digits_trim [OF assms] by simp
  assume len: "length (trim ds) > 1"
  then have ne: "dropWhile (\<lambda>c. c = CHR ''0'') ds \<noteq> []"
    by (auto simp: trim_def Let_def split: if_splits)
  then obtain c cs where c: "trim ds = c # cs" "c \<noteq> CHR ''0''"
    by (metis (mono_tags, lifting) hd_dropWhile list.collapse trim_def)
  with digits_trim [OF assms] have "is_digit c" by simp
  with c(2) have "digit_val c > 0"
    by (metis digit_eq_iff digit_zero gr0I)
  with c(1) have "10 ^ length cs \<le> nat_of (trim ds)"
    by (simp add: nat_of_Cons trans_le_add1)
  with c(1) show "10 ^ (length (trim ds) - 1) \<le> nat_of ds"
    using nat_of_trim [of ds] by simp
qed

lemma cmp_trim:
  assumes "digits l" and "digits r"
  shows "then_with (cmp (length (trim l)) (length (trim r))) (cmp (trim l) (trim r))
    = cmp (nat_of l) (nat_of r)"
proof -
  from assms have d: "list_all is_digit l" "list_all is_digit r" by (auto simp: digits_def)
  have pos: "0 < length (trim l)" "0 < length (trim r)" using digits_trim d by auto
  have step: "nat_of a < nat_of b"
    if "length (trim a) < length (trim b)" "list_all is_digit a" "list_all is_digit b"
      "0 < length (trim a)" for a b
  proof -
    from that have "nat_of a < 10 ^ length (trim a)" by (intro trim_bounds)
    also have "\<dots> \<le> 10 ^ (length (trim b) - 1)"
      using that(1) by (intro power_increasing) auto
    also have "\<dots> \<le> nat_of b" using that(1,3,4) by (intro trim_bounds) linarith+
    finally show ?thesis .
  qed
  consider "length (trim l) < length (trim r)" | "length (trim l) = length (trim r)"
    | "length (trim r) < length (trim l)" by linarith
  then show ?thesis
  proof cases
    case 1
    then show ?thesis using step [OF 1] d pos by (simp add: cmp_def)
  next
    case 2
    then show ?thesis
      using cmp_nat_of_same_length [of "trim l" "trim r"] digits_trim d by (simp add: cmp_def)
  next
    case 3
    then show ?thesis using step [OF 3] d pos by (auto simp: cmp_def)
  qed
qed

text \<open>Comparing the fractions is comparing them right-padded to one length.\<close>

lemma cmp_fraction_pad:
  "cmp_fraction l r =
     cmp (l @ replicate (length r - length l) (CHR ''0'')) (r @ replicate (length l - length r) (CHR ''0''))"
  by (induction l r rule: cmp_fraction.induct) (auto simp: cmp_def Let_def)

lemma cmp_fraction_nat_of:
  assumes "list_all is_digit l" and "list_all is_digit r"
  shows "cmp_fraction l r =
    cmp (nat_of l * 10 ^ (length r - length l)) (nat_of r * 10 ^ (length l - length r))"
proof -
  have "cmp_fraction l r =
      cmp (nat_of (l @ replicate (length r - length l) (CHR ''0'')))
          (nat_of (r @ replicate (length l - length r) (CHR ''0'')))"
    unfolding cmp_fraction_pad
    by (rule cmp_nat_of_same_length) (use assms in \<open>auto simp: list_all_iff\<close>)
  then show ?thesis by (simp add: nat_of_append)
qed

section \<open>What parsing accepts\<close>

lemma dot_not_digit [simp]: "\<not> is_digit (CHR ''.'')"
  by (simp add: is_digit_def octet_def)

lemma digits_no_dot: "list_all is_digit ds \<Longrightarrow> CHR ''.'' \<notin> set ds"
  by (auto simp: list_all_iff)

lemma parts_eq_Inr:
  "parts s = Inr (i, f) \<longleftrightarrow>
     digits i \<and> length s \<le> max_len \<and> (s = i \<and> f = [] \<or> s = i @ CHR ''.'' # f \<and> digits f)"
proof
  assume "parts s = Inr (i, f)"
  then show "digits i \<and> length s \<le> max_len \<and> (s = i \<and> f = [] \<or> s = i @ CHR ''.'' # f \<and> digits f)"
    by (auto simp: parts_def Let_def split_once_eq_Some split_once_eq_None
        split: if_splits option.splits prod.splits)
next
  assume r: "digits i \<and> length s \<le> max_len \<and> (s = i \<and> f = [] \<or> s = i @ CHR ''.'' # f \<and> digits f)"
  then have nd: "CHR ''.'' \<notin> set i" by (auto simp: digits_def dest: digits_no_dot)
  from r have "s \<noteq> []" by (auto simp: digits_def)
  moreover from r nd have "(case split_once s (CHR ''.'') of Some p \<Rightarrow> p | None \<Rightarrow> (s, [])) = (i, f)"
  proof (elim conjE disjE)
    assume "s = i" "f = []"
    with nd show ?thesis by (simp add: split_once_eq_None [THEN iffD2])
  next
    assume "s = i @ CHR ''.'' # f"
    with nd show ?thesis by (simp add: split_once_eq_Some [THEN iffD2])
  qed
  ultimately show "parts s = Inr (i, f)"
    using r nd by (auto simp: parts_def)
qed

lemma parts_digits:
  "parts s = Inr (i, f) \<Longrightarrow> digits i \<and> list_all is_digit i \<and> list_all is_digit f"
  by (auto simp: parts_eq_Inr digits_def)

lemma parts_error: "parts s = Inl e \<Longrightarrow> e = err ''schema-type-mismatch''"
  by (auto simp: parts_def Let_def split: if_splits option.splits prod.splits)

lemma amount_parts:
  "parts s = Inr (i, f) \<Longrightarrow>
   amount s = of_nat (nat_of i) + of_nat (nat_of f) / 10 ^ length f"
  by (simp add: amount_def nat_of_append add_divide_distrib)

lemma fraction_less_one:
  "list_all is_digit f \<Longrightarrow> (of_nat (nat_of f) :: rat) / 10 ^ length f < 1"
proof -
  assume "list_all is_digit f"
  then have "nat_of f < 10 ^ length f" by (rule nat_of_less)
  then have "(of_nat (nat_of f) :: rat) < of_nat (10 ^ length f)" by (subst of_nat_less_iff)
  then show ?thesis by simp
qed

text \<open>Integer parts first, then fractions: the order of two sums of that shape.\<close>

lemma cmp_sum:
  fixes x y :: rat
  assumes "0 \<le> x" "x < 1" "0 \<le> y" "y < 1"
  shows "cmp (of_nat a + x) (of_nat b + y) = then_with (cmp a b) (cmp x y)"
proof -
  consider "a < b" | "a = b" | "b < a" by linarith
  then show ?thesis
  proof cases
    case 1
    then have "(of_nat a :: rat) + 1 \<le> of_nat b"
      by (metis Suc_leI of_nat_Suc of_nat_le_iff add.commute)
    with assms have "of_nat a + x < of_nat b + y" by linarith
    with 1 show ?thesis by (simp add: cmp_def)
  next
    case 2
    then show ?thesis by (simp add: cmp_def)
  next
    case 3
    then have "(of_nat b :: rat) + 1 \<le> of_nat a"
      by (metis Suc_leI of_nat_Suc of_nat_le_iff add.commute)
    with assms have "of_nat b + y < of_nat a + x" by linarith
    with 3 show ?thesis by (auto simp: cmp_def)
  qed
qed

lemma cmp_fraction_rat:
  assumes "list_all is_digit l" and "list_all is_digit r"
  shows "cmp_fraction l r =
    cmp ((of_nat (nat_of l) :: rat) / 10 ^ length l) (of_nat (nat_of r) / 10 ^ length r)"
proof -
  let ?M = "max (length l) (length r)"
  have scale: "(of_nat n :: rat) / 10 ^ k = of_nat (n * 10 ^ (m - k)) / 10 ^ max k m" for n k m
    by (cases "k \<le> m") (auto simp: max_def field_simps simp flip: power_add)
  have "cmp ((of_nat x :: rat) / 10 ^ ?M) (of_nat y / 10 ^ ?M) = cmp x y" for x y
    by (simp add: cmp_def divide_less_cancel)
  then show ?thesis
    using scale [of "nat_of l" "length l" "length r"] scale [of "nat_of r" "length r" "length l"]
    by (simp only: cmp_fraction_nat_of [OF assms] max.commute)
qed

text \<open>The comparison the code computes is the comparison of the amounts.\<close>

lemma compare_parts:
  assumes "parts l = Inr (li, lf)" and "parts r = Inr (ri, rf)"
  shows "compare l r = Inr (cmp (amount l) (amount r))"
proof -
  note d = assms [THEN parts_digits]
  have "cmp (amount l) (amount r) =
      then_with (cmp (nat_of li) (nat_of ri)) (cmp_fraction lf rf)"
    unfolding assms [THEN amount_parts]
    using d by (subst cmp_sum) (use fraction_less_one in \<open>auto simp: cmp_fraction_rat\<close>)
  then show ?thesis
    using assms d by (cases "cmp (nat_of li) (nat_of ri)") (simp_all add: compare_def Let_def cmp_trim)
qed

section \<open>Addition\<close>

text \<open>The number the last \<open>n\<close> digits of a string denote: what the loop has added after \<open>n\<close> steps.\<close>

definition low :: "string \<Rightarrow> nat \<Rightarrow> nat" where
  "low side n = nat_of (drop (length side - n) side)"

lemma low_0 [simp]: "low side 0 = 0"
  by (simp add: low_def)

lemma low_Suc: "low side (Suc n) = digit_at side n * 10 ^ n + low side n"
proof (cases "n + 1 \<le> length side")
  case True
  then have "drop (length side - Suc n) side = side ! (length side - Suc n) # drop (length side - n) side"
    by (subst Cons_nth_drop_Suc [symmetric]) (auto simp: Suc_diff_Suc)
  with True show ?thesis by (simp add: low_def digit_at_def nat_of_Cons)
next
  case False
  then show ?thesis by (simp add: low_def digit_at_def)
qed

lemma low_all: "length side \<le> n \<Longrightarrow> low side n = nat_of side"
  by (simp add: low_def)

lemma digit_at_le: "list_all is_digit side \<Longrightarrow> digit_at side n \<le> 9"
  by (auto simp: digit_at_def list_all_length intro: digit_val_le)

lemma add_loop_Suc: "add_loop a b (Suc n) = add_step a b n (add_loop a b n)"
  by (simp add: add_loop_def)

text \<open>
  The loop invariant. The bound on the carry is also what keeps the code's \<open>u8\<close> arithmetic in
  range: one step adds at most \<open>9 + 9 + 1\<close>.
\<close>

lemma add_loop_invariant:
  assumes "list_all is_digit a" and "list_all is_digit b" and "add_loop a b n = (c, acc)"
  shows "c \<le> 1 \<and> length acc = n \<and> list_all is_digit acc
    \<and> nat_of (rev acc) + c * 10 ^ n = low a n + low b n"
  using assms(3)
proof (induction n arbitrary: c acc)
  case 0
  then show ?case by (simp add: add_loop_def)
next
  case (Suc n)
  obtain c0 acc0 where prev: "add_loop a b n = (c0, acc0)" by fastforce
  let ?t = "digit_at a n + digit_at b n + c0"
  from Suc.IH [OF prev] have c0: "c0 \<le> 1" and len: "length acc0 = n"
    and dig: "list_all is_digit acc0"
    and val: "nat_of (rev acc0) + c0 * 10 ^ n = low a n + low b n" by auto
  define q m where "q = ?t div 10" and "m = ?t mod 10"
  then have m: "m < 10" and t: "m + 10 * q = ?t" by (simp_all add: mod_mult_div_eq)
  from Suc.prems prev have c: "c = q" and acc: "acc = acc0 @ [digit_char m]"
    by (auto simp: add_loop_Suc add_step_def Let_def q_def m_def)
  have "?t \<le> 19"
    using digit_at_le [OF assms(1), of n] digit_at_le [OF assms(2), of n] c0 by linarith
  then have "c \<le> 1" using c t by linarith
  moreover have "nat_of (rev acc) + c * 10 ^ Suc n = low a (Suc n) + low b (Suc n)"
  proof -
    have "nat_of (rev acc) + c * 10 ^ Suc n = (m + 10 * q) * 10 ^ n + nat_of (rev acc0)"
      using len m by (simp add: acc c nat_of_Cons algebra_simps)
    also have "\<dots> = ?t * 10 ^ n + nat_of (rev acc0)" by (simp only: t)
    finally show ?thesis using val by (simp add: low_Suc algebra_simps)
  qed
  ultimately show ?case using acc len dig m by simp
qed

lemma sum_digits_spec:
  assumes "list_all is_digit a" and "list_all is_digit b"
  shows "list_all is_digit (sum_digits a b)" and "nat_of (sum_digits a b) = nat_of a + nat_of b"
    and "max (length a) (length b) \<le> length (sum_digits a b)"
proof -
  let ?n = "max (length a) (length b)"
  obtain c acc where l: "add_loop a b ?n = (c, acc)" by fastforce
  from add_loop_invariant [OF assms l] have c: "c \<le> 1" and len: "length acc = ?n"
    and dig: "list_all is_digit acc" and val: "nat_of (rev acc) + c * 10 ^ ?n = nat_of a + nat_of b"
    by (auto simp: low_all)
  have s: "sum_digits a b = rev (if c > 0 then acc @ [digit_char c] else acc)"
    by (simp add: sum_digits_def l)
  from s c dig show "list_all is_digit (sum_digits a b)" by simp
  from s c len val show "nat_of (sum_digits a b) = nat_of a + nat_of b"
    by (auto simp: nat_of_Cons split: if_splits)
  from s len show "?n \<le> length (sum_digits a b)" by (cases "c > 0") (auto intro: le_SucI)
qed

lemma parts_render_total:
  assumes "list_all is_digit ds" and "scale < length ds" and "length (render_total scale ds) \<le> max_len"
  shows "parts (render_total scale ds) = Inr (trim (take (length ds - scale) ds), drop (length ds - scale) ds)"
proof -
  let ?i = "trim (take (length ds - scale) ds)" and ?f = "drop (length ds - scale) ds"
  have "list_all is_digit (take (length ds - scale) ds)" "list_all is_digit ?f"
    using assms(1) by (auto simp: list_all_iff dest: in_set_takeD in_set_dropD)
  then have "digits ?i" and "list_all is_digit ?f"
    using digits_trim by (auto simp: digits_def)
  moreover have "?f = [] \<longleftrightarrow> scale = 0" using assms(2) by auto
  ultimately show ?thesis
    using assms(3) by (auto simp: parts_eq_Inr render_total_def Let_def digits_def)
qed

lemma amount_render_total:
  assumes "list_all is_digit ds" and "scale < length ds" and "length (render_total scale ds) \<le> max_len"
  shows "amount (render_total scale ds) = of_nat (nat_of ds) / 10 ^ scale"
proof -
  let ?i = "take (length ds - scale) ds" and ?f = "drop (length ds - scale) ds"
  have "nat_of ds = nat_of ?i * 10 ^ scale + nat_of ?f"
    using nat_of_append [of ?i ?f] assms(2) by simp
  then show ?thesis
    using assms(2) by (simp add: amount_parts [OF parts_render_total [OF assms]] add_divide_distrib)
qed

lemma pad_spec:
  assumes "parts s = Inr (i, f)" and "length f \<le> scale"
  shows "list_all is_digit (pad scale i f)" and "scale < length (pad scale i f)"
    and "(of_nat (nat_of (pad scale i f)) :: rat) / 10 ^ scale = amount s"
proof -
  note d = parts_digits [OF assms(1)]
  then show "list_all is_digit (pad scale i f)" by (auto simp: pad_def list_all_iff)
  from d assms(2) show "scale < length (pad scale i f)" by (auto simp: pad_def digits_def)
  have "nat_of (pad scale i f) = nat_of (i @ f) * 10 ^ (scale - length f)"
    using nat_of_append [of "i @ f" "replicate (scale - length f) (CHR ''0'')"] by (simp add: pad_def)
  with assms(2) show "(of_nat (nat_of (pad scale i f)) :: rat) / 10 ^ scale = amount s"
    by (simp add: amount_def assms(1) field_simps flip: power_add)
qed

text \<open>The sum the code returns is the sum of the amounts, whenever it fits the length bound.\<close>

lemma add_parts:
  assumes "parts l = Inr (li, lf)" and "parts r = Inr (ri, rf)"
  defines "scale \<equiv> max (length lf) (length rf)"
  defines "tot \<equiv> render_total scale (sum_digits (pad scale li lf) (pad scale ri rf))"
  shows "add l r = (if length tot > max_len then Inl (err ''schema-type-mismatch'') else Inr tot)"
    and "length tot \<le> max_len \<Longrightarrow> amount tot = amount l + amount r"
proof -
  show "add l r = (if length tot > max_len then Inl (err ''schema-type-mismatch'') else Inr tot)"
    by (simp add: add_def assms Let_def)
  have le: "length lf \<le> scale" "length rf \<le> scale" by (simp_all add: scale_def)
  note pl = pad_spec [OF assms(1) le(1)] and pr = pad_spec [OF assms(2) le(2)]
  note sd = sum_digits_spec [OF pl(1) pr(1)]
  assume "length tot \<le> max_len"
  moreover have "scale < length (sum_digits (pad scale li lf) (pad scale ri rf))"
    using pl(2) sd(3) by linarith
  ultimately have "amount tot = of_nat (nat_of (pad scale li lf) + nat_of (pad scale ri rf)) / 10 ^ scale"
    unfolding tot_def using sd by (subst amount_render_total) auto
  then show "amount tot = amount l + amount r"
    using pl(3) pr(3) by (simp add: add_divide_distrib)
qed

text \<open>A success bound: two strings of at most 31 characters together always add.\<close>

lemma length_trim: "length (trim ds) \<le> max 1 (length ds)"
  using length_dropWhile_le [of "\<lambda>c. c = CHR ''0''" ds] by (auto simp: trim_def Let_def)

lemma length_sum_digits: "length (sum_digits a b) \<le> Suc (max (length a) (length b))"
proof -
  have "length (snd (add_loop a b n)) = n" for n
    by (induction n) (auto simp: add_loop_Suc add_step_def Let_def split: prod.splits, simp add: add_loop_def)
  then show ?thesis by (auto simp: sum_digits_def Let_def split: prod.splits) (metis snd_conv le_refl le_SucI)+
qed

lemma length_render_total:
  "length (render_total scale ds) \<le>
     length (trim (take (length ds - scale) ds)) + (if scale = 0 then 0 else 1 + scale)"
  by (simp add: render_total_def Let_def) linarith

lemma length_parts:
  "parts s = Inr (i, f) \<Longrightarrow> length s = length i + (if f = [] then 0 else 1 + length f) \<and> 0 < length i"
  by (auto simp: parts_eq_Inr digits_def)

lemma add_fits:
  assumes "parts l = Inr (li, lf)" and "parts r = Inr (ri, rf)" and "length l + length r \<le> 31"
  shows "\<exists>s. add l r = Inr s"
proof -
  let ?scale = "max (length lf) (length rf)"
  let ?ds = "sum_digits (pad ?scale li lf) (pad ?scale ri rf)"
  have ds: "length ?ds \<le> Suc (max (length li) (length ri) + ?scale)"
    using length_sum_digits [of "pad ?scale li lf" "pad ?scale ri rf"]
    by (simp add: pad_def nat_add_max_left)
  have "length (take (length ?ds - ?scale) ?ds) \<le> Suc (max (length li) (length ri))"
    using ds by simp
  then have "length (trim (take (length ?ds - ?scale) ?ds)) \<le> Suc (max (length li) (length ri))"
    using length_trim [of "take (length ?ds - ?scale) ?ds"] by linarith
  then have "length (render_total ?scale ?ds) \<le>
      Suc (max (length li) (length ri)) + (if ?scale = 0 then 0 else 1 + ?scale)"
    using length_render_total [of ?scale ?ds] by linarith
  also have "\<dots> \<le> max_len"
    using length_parts [OF assms(1)] length_parts [OF assms(2)] assms(3)
    by (auto simp: max_len_def max_def split: if_splits)
  finally show ?thesis by (simp add: add_parts(1) [OF assms(1,2)])
qed

section \<open>The contract other components rely on\<close>

text \<open>
  What the budget fold relies on: a partial addition and a partial comparison that are exact on the
  amounts they denote, and that refuse instead of guessing. Nothing in it mentions digits.
\<close>

locale exact_amounts =
  fixes plus :: "string \<Rightarrow> string \<Rightarrow> string res"
    and le :: "string \<Rightarrow> string \<Rightarrow> bool res"
    and val :: "string \<Rightarrow> rat"
    and valid :: "string \<Rightarrow> bool"
  assumes plus_exact: "plus x y = Inr z \<Longrightarrow> valid x \<and> valid y \<and> valid z \<and> val z = val x + val y"
    and le_exact: "valid x \<Longrightarrow> valid y \<Longrightarrow> le x y = Inr (val x \<le> val y)"
    and le_valid: "le x y = Inr b \<Longrightarrow> valid x \<and> valid y"
    and val_nonneg: "0 \<le> val x"
begin

text \<open>Summing a list of charges one by one: the total is exact, and it only grows.\<close>

fun plus_all :: "string \<Rightarrow> string list \<Rightarrow> string res" where
  "plus_all acc [] = Inr acc"
| "plus_all acc (x # xs) = and_then (plus acc x) (\<lambda>acc'. plus_all acc' xs)"

lemma plus_all_exact: "plus_all acc xs = Inr z \<Longrightarrow> val z = val acc + sum_list (map val xs)"
  by (induction xs arbitrary: acc) (auto dest: plus_exact)

lemma plus_all_grows: "plus_all acc xs = Inr z \<Longrightarrow> val acc \<le> val z"
  using plus_all_exact [of acc xs z] sum_list_nonneg [of "map val xs"] val_nonneg by auto

text \<open>A charge within its cap: the exact meaning of \<open>held + adding <= limit\<close>.\<close>

lemma within_cap:
  assumes "plus held adding = Inr s" and "le s limit = Inr b"
  shows "b \<longleftrightarrow> val held + val adding \<le> val limit"
  using plus_exact [OF assms(1)] le_valid [OF assms(2)] le_exact [of s limit] assms(2) by auto

end

lemma amount_nonneg: "0 \<le> amount s"
  by (auto simp: amount_def split: sum.splits prod.splits)

lemma compare_spec:
  "compare l r =
     (if is_decimal l \<and> is_decimal r then Inr (cmp (amount l) (amount r))
      else Inl (err ''schema-type-mismatch''))"
proof (cases "is_decimal l \<and> is_decimal r")
  case True
  then obtain li lf ri rf where "parts l = Inr (li, lf)" "parts r = Inr (ri, rf)"
    by (auto simp: is_decimal_def)
  with True show ?thesis by (simp add: compare_parts)
next
  case False
  then show ?thesis
    by (cases "parts l"; cases "parts r") (auto simp: is_decimal_def compare_def dest: parts_error)
qed

lemma at_most_spec:
  "at_most l r =
     (if is_decimal l \<and> is_decimal r then Inr (amount l \<le> amount r)
      else Inl (err ''schema-type-mismatch''))"
  by (auto simp: at_most_def compare_spec cmp_def)

lemma add_exact:
  assumes "add l r = Inr s"
  shows "is_decimal l \<and> is_decimal r \<and> is_decimal s \<and> amount s = amount l + amount r"
proof -
  from assms obtain li lf ri rf where p: "parts l = Inr (li, lf)" "parts r = Inr (ri, rf)"
    by (auto simp: add_def)
  let ?scale = "max (length lf) (length rf)"
  let ?ds = "sum_digits (pad ?scale li lf) (pad ?scale ri rf)"
  from assms have s: "s = render_total ?scale ?ds" and len: "length s \<le> max_len"
    by (auto simp: add_parts(1) [OF p] split: if_splits)
  from len have "amount s = amount l + amount r"
    unfolding s by (rule add_parts(2) [OF p])
  moreover have "is_decimal s"
  proof -
    have le: "length lf \<le> ?scale" "length rf \<le> ?scale" by simp_all
    note pl = pad_spec [OF p(1) le(1)] and pr = pad_spec [OF p(2) le(2)]
    have "list_all is_digit ?ds" by (rule sum_digits_spec(1) [OF pl(1) pr(1)])
    moreover have "?scale < length ?ds"
      using sum_digits_spec(3) [OF pl(1) pr(1)] pl(2) by linarith
    ultimately have "parts s = Inr (trim (take (length ?ds - ?scale) ?ds), drop (length ?ds - ?scale) ?ds)"
      unfolding s by (rule parts_render_total) (use len s in simp)
    then show ?thesis by (auto simp: is_decimal_def)
  qed
  ultimately show ?thesis using p by (auto simp: is_decimal_def)
qed

lemma add_error: "add l r = Inl e \<Longrightarrow> e = err ''schema-type-mismatch''"
  by (auto simp: add_def and_then_eq_Inl Let_def dest: parts_error split: if_splits)

interpretation decimal: exact_amounts add at_most amount is_decimal
proof (unfold_locales, goal_cases)
  case (1 x y z)
  then show ?case using add_exact by blast
next
  case (2 x y)
  then show ?case by (simp add: at_most_spec)
next
  case (3 x y b)
  then show ?case by (simp add: at_most_spec split: if_splits)
next
  case (4 x)
  show ?case by (rule amount_nonneg)
qed

section \<open>Properties\<close>

text \<open>C12: Comparing two monetary strings never goes through a rounded representation. On decimal
  strings the digit algorithm of \<open>compare\<close> (leading zeros, lengths, right-padded fractions) returns
  exactly the order of the rational amounts, whatever their scale; on anything else it refuses with
  \<open>schema-type-mismatch\<close>.\<close>

theorem decimal_compare_exact:
  "compare l r =
     (if is_decimal l \<and> is_decimal r then Inr (cmp (amount l) (amount r))
      else Inl (err ''schema-type-mismatch''))"
  by (rule compare_spec)

text \<open>C14: The carry addition is exact and total on short operands: a sum that is returned is a
  decimal string denoting the sum of the two amounts, every refusal carries
  \<open>schema-type-mismatch\<close>, and two decimal strings of at most 31 characters together are never
  refused, so a refusal means a malformed operand or a total that outgrew the bound.\<close>

theorem decimal_add_exact:
  "(case add l r of
      Inr s \<Rightarrow> is_decimal l \<and> is_decimal r \<and> is_decimal s \<and> amount s = amount l + amount r
    | Inl e \<Rightarrow> e = err ''schema-type-mismatch''
        \<and> \<not> (is_decimal l \<and> is_decimal r \<and> length l + length r \<le> 31))"
proof (cases "add l r")
  case (Inl e)
  moreover have "\<not> (is_decimal l \<and> is_decimal r \<and> length l + length r \<le> 31)"
  proof
    assume "is_decimal l \<and> is_decimal r \<and> length l + length r \<le> 31"
    then obtain li lf ri rf where "parts l = Inr (li, lf)" "parts r = Inr (ri, rf)"
      "length l + length r \<le> 31" by (auto simp: is_decimal_def)
    then have "\<exists>s. add l r = Inr s" by (rule add_fits)
    with Inl show False by simp
  qed
  ultimately show ?thesis by (simp add: add_error)
next
  case (Inr s)
  then show ?thesis by (simp add: add_exact)
qed

end
