(* ===== verification/Mandate.thy ===== *)
theory Mandate
  imports Scope Decimal
begin

text \<open>
  Mandate chains, \<open>stozher-core/src/mandate.rs\<close>: the walk from a leaf mandate to a human root at use
  time, the checks of one grant at grant time, revocations and their propagation to everything
  delegated beneath. The walk is one definition per group of checks and a recursion that follows the
  parent; it ends because the hop budget of a parent is larger than its child's.
\<close>

section \<open>Members of a mandate\<close>

definition resolve :: "jmap \<Rightarrow> string \<Rightarrow> json res" where
  "resolve mandates i = ok_or (map_of mandates i) ''mandate-unresolved''"

definition grantee_subject :: "json \<Rightarrow> string res" where
  "grantee_subject mandate =
     ok_or (Option.bind (get mandate ''grantee'') (\<lambda>g. get_str g ''subject'')) ''schema-missing-member''"

definition key_at :: "ext \<Rightarrow> json \<Rightarrow> string \<Rightarrow> key_id res" where
  "key_at x mandate party =
     and_then (ok_or (Option.bind (get mandate party) (\<lambda>p. get_str p ''key'')) ''schema-missing-member'') (\<lambda>raw.
       key_id_parse x raw)"

definition max_depth_of :: "json \<Rightarrow> u32 res" where
  "max_depth_of mandate =
     and_then (ok_or (get_u64 mandate ''max-depth'') ''schema-missing-member'') (\<lambda>raw.
       if unat raw < 2 ^ 32 then Inr (ucast raw) else Inl (err ''encoding-integer-out-of-range''))"

definition window_of :: "json \<Rightarrow> (string \<times> string) res" where
  "window_of mandate =
     and_then (ok_or (get_str mandate ''not-before'') ''schema-missing-member'') (\<lambda>from_at.
     and_then (ok_or (get_str mandate ''not-after'') ''mandate-missing-expiry'') (\<lambda>to_at.
       Inr (from_at, to_at)))"

definition grantor_role :: "json \<Rightarrow> string res" where
  "grantor_role mandate =
     ok_or (Option.bind (get mandate ''grantor'') (\<lambda>g. get_str g ''role'')) ''schema-missing-member''"

text \<open>\<open>is_none_or(Value::is_null)\<close>\<close>

definition no_parent :: "json \<Rightarrow> bool" where
  "no_parent mandate \<longleftrightarrow> (case get mandate ''parent'' of None \<Rightarrow> True | Some p \<Rightarrow> p = JNull)"

fun budget_dimensions :: "jmap \<Rightarrow> jmap \<Rightarrow> bool res" where
  "budget_dimensions child [] = Inr True"
| "budget_dimensions child ((dimension, parent_value) # rest) =
     (case map_of child dimension of
        None \<Rightarrow> budget_dimensions child rest
      | Some child_value \<Rightarrow>
          (case (child_value, parent_value) of
             (JNumber c, JNumber p) \<Rightarrow>
               (case (as_i64 (JNumber c), as_i64 (JNumber p)) of
                  (Some c', Some p') \<Rightarrow> if c' > p' then Inr False else budget_dimensions child rest
                | _ \<Rightarrow> Inl (err ''schema-type-mismatch''))
           | (JString c, JString p) \<Rightarrow>
               and_then (at_most c p) (\<lambda>ok. if \<not> ok then Inr False else budget_dimensions child rest)
           | _ \<Rightarrow> Inl (err ''schema-type-mismatch'')))"

definition budget_within :: "json option \<Rightarrow> json option \<Rightarrow> bool res" where
  "budget_within child parent =
     (case Option.bind parent as_object of
        None \<Rightarrow> Inr True
      | Some p \<Rightarrow>
          (case Option.bind child as_object of
             None \<Rightarrow> Inr True
           | Some c \<Rightarrow> budget_dimensions c p))"

section \<open>Revocations\<close>

text \<open>The cursor climbs the parents; the bound is one more than the number of mandates.\<close>

fun authorized_from :: "ext \<Rightarrow> jmap \<Rightarrow> key_id \<Rightarrow> nat \<Rightarrow> string \<Rightarrow> bool" where
  "authorized_from x mandates signer 0 cursor = False"
| "authorized_from x mandates signer (Suc n) cursor =
     (case map_of mandates cursor of
        None \<Rightarrow> False
      | Some mandate \<Rightarrow>
          if key_at x mandate ''grantor'' = Inr signer then True
          else
            (case get_str mandate ''parent'' of
               Some parent \<Rightarrow> authorized_from x mandates signer n parent
             | None \<Rightarrow> False))"

definition revoker_is_authorized :: "ext \<Rightarrow> jmap \<Rightarrow> string \<Rightarrow> key_id \<Rightarrow> key_id list \<Rightarrow> bool" where
  "revoker_is_authorized x mandates target signer roots =
     (if signer \<in> set roots then True
      else authorized_from x mandates signer (Suc (length mandates)) target)"

text \<open>\<open>HashMap<String, String>\<close>: the instant each mandate was revoked at.\<close>

type_synonym revocation_map = "string \<rightharpoonup> string"

text \<open>Whether the target was revoked before it was issued; a target that is not at hand has no such bound.\<close>

definition backdated :: "jmap \<Rightarrow> string \<Rightarrow> string \<Rightarrow> bool" where
  "backdated mandates target revoked_at =
     (case Option.bind (map_of mandates target) (\<lambda>m. get_str m ''issued-at'') of
        Some issued_at \<Rightarrow> revoked_at < issued_at
      | None \<Rightarrow> False)"

definition index_revocation :: "ext \<Rightarrow> jmap \<Rightarrow> key_id list \<Rightarrow> revocation_map \<Rightarrow> json \<Rightarrow> revocation_map" where
  "index_revocation x mandates roots idx revocation =
     (case verify_signed_object x revocation of
        Inl _ \<Rightarrow> idx
      | Inr signer \<Rightarrow>
          (case (get_str revocation ''revokes'', get_str revocation ''revoked-at'') of
             (Some target, Some revoked_at) \<Rightarrow>
               if \<not> revoker_is_authorized x mandates target signer roots then idx
               else if backdated mandates target revoked_at then idx
               else
                 (case idx target of
                    Some existing \<Rightarrow> if revoked_at < existing then idx(target \<mapsto> revoked_at) else idx
                  | None \<Rightarrow> idx(target \<mapsto> revoked_at))
           | _ \<Rightarrow> idx))"

definition propagate_one :: "revocation_map \<times> bool \<Rightarrow> string \<times> json \<Rightarrow> revocation_map \<times> bool" where
  "propagate_one state im =
     (case state of (idx, changed) \<Rightarrow>
       (case get_str (snd im) ''parent'' of
          None \<Rightarrow> (idx, changed)
        | Some parent \<Rightarrow>
            (case idx parent of
               None \<Rightarrow> (idx, changed)
             | Some parent_revoked \<Rightarrow>
                 (let update = (case idx (fst im) of Some existing \<Rightarrow> parent_revoked < existing | None \<Rightarrow> True)
                  in if update then (idx(fst im \<mapsto> parent_revoked), True) else (idx, changed)))))"

fun propagate_revocations :: "nat \<Rightarrow> jmap \<Rightarrow> revocation_map \<Rightarrow> revocation_map" where
  "propagate_revocations 0 mandates idx = idx"
| "propagate_revocations (Suc n) mandates idx =
     (case foldl propagate_one (idx, False) mandates of
        (idx', changed) \<Rightarrow> if \<not> changed then idx' else propagate_revocations n mandates idx')"

definition revocation_index :: "ext \<Rightarrow> jmap \<Rightarrow> json list \<Rightarrow> key_id list \<Rightarrow> revocation_map" where
  "revocation_index x mandates revocations roots =
     propagate_revocations (length mandates) mandates
       (foldl (index_revocation x mandates roots) Map.empty revocations)"

definition verify_revocation :: "ext \<Rightarrow> jmap \<Rightarrow> json \<Rightarrow> key_id list \<Rightarrow> unit res" where
  "verify_revocation x mandates revocation roots =
     and_then (verify_signed_object x revocation) (\<lambda>signer.
     and_then (ok_or (get_str revocation ''revokes'') ''schema-missing-member'') (\<lambda>target.
     and_then (ok_or (get_str revocation ''revoked-at'') ''schema-missing-member'') (\<lambda>revoked_at.
       if \<not> revoker_is_authorized x mandates target signer roots then Inl (err ''revocation-not-authorized'')
       else if backdated mandates target revoked_at then Inl (err ''revocation-before-issue'')
       else Inr ())))"

section \<open>The walk\<close>

record chain_ok =
  human_root :: string
  root_key :: key_id
  depth :: u32

record verify_params =
  roots :: "key_id list"
  revocations :: "json list"
  at_instant :: string
  subject_key :: key_id
  max_delegation_depth :: u32

datatype scoped = Full mandate_request | ByResource string | NotScoped

text \<open>Authenticity, the validity window and revocation of one mandate; the value is its grantor.\<close>

definition check_held :: "ext \<Rightarrow> verify_params \<Rightarrow> revocation_map \<Rightarrow> string \<Rightarrow> json \<Rightarrow> key_id res" where
  "check_held x params revoked current_ref current =
     and_then (verify_signed_object x current) (\<lambda>signer.
     and_then (key_at x current ''grantor'') (\<lambda>grantor_key.
       if signer \<noteq> grantor_key then Inl (err ''mandate-signer-not-grantor'')
       else
         and_then (key_at x current ''grantee'') (\<lambda>grantee_key.
           if grantor_key = grantee_key then Inl (err ''mandate-self-grant'')
           else
             and_then (ok_or (get_str current ''not-after'') ''mandate-missing-expiry'') (\<lambda>not_after.
             and_then (ok_or (get_str current ''not-before'') ''schema-missing-member'') (\<lambda>not_before.
               if at_instant params < not_before then Inl (err ''mandate-not-yet-valid'')
               else if at_instant params > not_after then Inl (err ''mandate-expired'')
               else
                 (case revoked current_ref of
                    Some revoked_at \<Rightarrow>
                      if revoked_at \<le> at_instant params then Inl (err ''mandate-revoked'') else Inr grantor_key
                  | None \<Rightarrow> Inr grantor_key))))))"

definition check_scope :: "scoped \<Rightarrow> json \<Rightarrow> unit res" where
  "check_scope request scope =
     (case request of
        ByResource r \<Rightarrow>
          and_then (patterns scope ''resources'') (\<lambda>ps.
            check (list_ex (\<lambda>p. matches p r) ps) ''mandate-scope-not-permitted'')
      | NotScoped \<Rightarrow> Inr ()
      | Full q \<Rightarrow> and_then (scope_permits scope q) (\<lambda>ok. check ok ''mandate-scope-not-permitted''))"

definition check_root :: "verify_params \<Rightarrow> u32 \<Rightarrow> json \<Rightarrow> key_id \<Rightarrow> string \<Rightarrow> chain_ok res" where
  "check_root params d current grantor_key role =
     (if \<not> no_parent current then Inl (err ''mandate-root-has-parent'')
      else if role \<noteq> ''human'' then Inl (err ''mandate-root-grantor-not-human'')
      else if grantor_key \<notin> set (roots params) then Inl (err ''mandate-root-not-enrolled'')
      else
        and_then (ok_or (Option.bind (get current ''grantor'') (\<lambda>g. get_str g ''subject'')) ''schema-missing-member'')
          (\<lambda>subject. Inr \<lparr>human_root = subject, root_key = grantor_key, depth = d\<rparr>))"

text \<open>One link of delegation, shared with the check at grant time.\<close>

definition check_depth :: "u32 \<Rightarrow> json \<Rightarrow> unit res" where
  "check_depth parent_max current =
     (if parent_max < 1 then Inl (err ''mandate-delegation-depth-exceeded'')
      else
        and_then (max_depth_of current) (\<lambda>own.
          check (\<not> own > parent_max - 1) ''mandate-delegation-depth-exceeded''))"

definition check_delegated :: "ext \<Rightarrow> json \<Rightarrow> json \<Rightarrow> key_id \<Rightarrow> json \<Rightarrow> unit res" where
  "check_delegated x current parent grantor_key scope =
     and_then (key_at x parent ''grantee'') (\<lambda>held_by.
       if grantor_key \<noteq> held_by then Inl (err ''mandate-delegation-not-held'')
       else
         and_then (max_depth_of parent) (\<lambda>parent_max.
         and_then (check_depth parent_max current) (\<lambda>_.
         and_then (ok_or (get parent ''scope'') ''schema-missing-member'') (\<lambda>parent_scope.
         and_then (scope_subset scope parent_scope) (\<lambda>narrower.
           if \<not> narrower then Inl (err ''mandate-scope-widened'')
           else
             and_then (window_of current) (\<lambda>(child_from, child_to).
             and_then (window_of parent) (\<lambda>(parent_from, parent_to).
               if child_from < parent_from \<or> child_to > parent_to then Inl (err ''mandate-window-outside-parent'')
               else
                 and_then (budget_within (get current ''budget'') (get parent ''budget'')) (\<lambda>ok.
                   check ok ''mandate-budget-exceeds-parent''))))))))"

text \<open>\<open>depth += 1\<close>\<close>

definition next_depth :: "u32 \<Rightarrow> u32 res" where
  "next_depth d = (if unat d + 1 < 2 ^ 32 then Inr (d + 1) else Inl Panic)"

definition budget_left :: "json \<Rightarrow> nat" where
  "budget_left mandate = (case max_depth_of mandate of Inr n \<Rightarrow> 2 ^ 32 - unat n | Inl _ \<Rightarrow> 2 ^ 32)"

lemma max_depth_of_measure:
  assumes "max_depth_of parent = Inr pm" and "check_depth pm current = Inr u"
  shows "budget_left parent < budget_left current"
proof -
  from assms(2) obtain own where o: "max_depth_of current = Inr own" "own \<le> pm - 1" "pm \<noteq> 0"
    by (auto simp: check_depth_def not_less split: if_splits)
  from o(3) have "1 \<le> pm" by (simp add: word_le_nat_alt unat_gt_0 Suc_le_eq)
  then have "unat (pm - 1) = unat pm - 1" by (subst unat_sub) auto
  moreover have "unat own \<le> unat (pm - 1)" using o(2) by (simp only: word_le_nat_alt)
  moreover have "0 < unat pm" using o(3) by (simp add: unat_gt_0)
  ultimately have "unat own < unat pm" by linarith
  moreover have "unat pm < 2 ^ 32" using unsigned_less [of pm] by simp
  ultimately show ?thesis using assms(1) o(1) by (simp add: budget_left_def)
qed

lemma check_delegated_measure:
  assumes "check_delegated x current parent grantor_key scope = Inr u"
  shows "budget_left parent < budget_left current"
  using assms max_depth_of_measure by (auto simp: check_delegated_def split: if_splits)

function walk_from ::
  "ext \<Rightarrow> jmap \<Rightarrow> scoped \<Rightarrow> verify_params \<Rightarrow> revocation_map \<Rightarrow> u32 \<Rightarrow> string \<Rightarrow> json \<Rightarrow> chain_ok res" where
  "walk_from x mandates request params revoked d current_ref current =
     and_then (check_held x params revoked current_ref current) (\<lambda>grantor_key.
     and_then (ok_or (get current ''scope'') ''schema-missing-member'') (\<lambda>scope.
     and_then (check_scope request scope) (\<lambda>_.
     and_then (ok_or (get_str current ''mandate-kind'') ''schema-missing-member'') (\<lambda>kind.
     and_then (grantor_role current) (\<lambda>role.
       if kind = ''interactive'' \<or> kind = ''standing'' then check_root params d current grantor_key role
       else if kind = ''delegated'' then
         and_then (ok_or (get_str current ''parent'') ''mandate-delegated-without-parent'') (\<lambda>parent_ref.
           if role \<noteq> ''agent'' then Inl (err ''mandate-delegated-grantor-not-agent'')
           else
             and_then (resolve mandates parent_ref) (\<lambda>parent.
             and_then (check_delegated x current parent grantor_key scope) (\<lambda>_.
             and_then (next_depth d) (\<lambda>d'.
               if d' > max_delegation_depth params then Inl (err ''mandate-delegation-depth-exceeded'')
               else walk_from x mandates request params revoked d' parent_ref parent))))
       else Inl (err ''mandate-kind-unknown''))))))"
  by pat_completeness auto
termination
  by (relation "measure (\<lambda>(x, mandates, request, params, revoked, d, current_ref, current). budget_left current)")
    (auto intro: check_delegated_measure)

declare walk_from.simps [simp del]

definition walk :: "ext \<Rightarrow> jmap \<Rightarrow> string \<Rightarrow> scoped \<Rightarrow> verify_params \<Rightarrow> chain_ok res" where
  "walk x mandates leaf_ref request params =
     (let revoked = revocation_index x mandates (revocations params) (roots params)
      in
        and_then (resolve mandates leaf_ref) (\<lambda>current.
        and_then (key_at x current ''grantee'') (\<lambda>grantee_key.
          if grantee_key \<noteq> subject_key params then Inl (err ''mandate-grantee-key-mismatch'')
          else walk_from x mandates request params revoked 0 leaf_ref current)))"

definition verify_mandate_chain where
  "verify_mandate_chain x mandates leaf_ref request params = walk x mandates leaf_ref (Full request) params"

definition verify_mandate_chain_unscoped where
  "verify_mandate_chain_unscoped x mandates leaf_ref params = walk x mandates leaf_ref NotScoped params"

definition verify_mandate_chain_for_resource where
  "verify_mandate_chain_for_resource x mandates leaf_ref r params = walk x mandates leaf_ref (ByResource r) params"


section \<open>Grants\<close>

record grant_params =
  grant_roots :: "key_id list"
  max_standing_not_after :: "string option"

text \<open>The window and the nonce of a grant; the value is the window.\<close>

definition grant_window :: "json \<Rightarrow> (string \<times> string) res" where
  "grant_window mandate =
     and_then (ok_or (get_str mandate ''issued-at'') ''schema-missing-member'') (\<lambda>issued_at.
     and_then (ok_or (get_str mandate ''not-before'') ''schema-missing-member'') (\<lambda>not_before.
     and_then (ok_or (get_str mandate ''not-after'') ''mandate-missing-expiry'') (\<lambda>not_after.
       if not_after \<le> not_before then Inl (err ''mandate-window-inverted'')
       else if not_before < issued_at then Inl (err ''mandate-window-inverted'')
       else
         and_then (ok_or (get_str mandate ''nonce'') ''schema-missing-member'') (\<lambda>nonce.
           if length nonce \<noteq> 32 \<or> \<not> list_all is_hex_digit nonce then Inl (err ''encoding-not-lowercase-hex'')
           else if list_ex is_upper nonce then Inl (err ''encoding-not-lowercase-hex'')
           else Inr (not_before, not_after)))))"

definition grant_root :: "grant_params \<Rightarrow> json \<Rightarrow> string \<Rightarrow> string \<Rightarrow> string \<Rightarrow> key_id \<Rightarrow> key_id \<Rightarrow> unit res" where
  "grant_root params mandate kind role not_after grantor_key grantee_key =
     (if \<not> no_parent mandate then Inl (err ''mandate-root-has-parent'')
      else if role \<noteq> ''human'' then Inl (err ''mandate-root-grantor-not-human'')
      else if grantor_key \<notin> set (grant_roots params) then Inl (err ''mandate-root-not-enrolled'')
      else
        and_then (grantee_subject mandate) (\<lambda>subject.
          if grantee_key \<in> set (grant_roots params) \<and> starts_with subject ''agent:''
          then Inl (err ''root-key-used-as-agent'')
          else if kind = ''standing''
               \<and> (case max_standing_not_after params of Some limit \<Rightarrow> not_after > limit | None \<Rightarrow> False)
          then Inl (err ''mandate-standing-lifetime-exceeded'')
          else Inr ()))"

definition grant_delegated ::
  "ext \<Rightarrow> json \<Rightarrow> json option \<Rightarrow> string \<Rightarrow> string \<Rightarrow> string \<Rightarrow> key_id \<Rightarrow> json \<Rightarrow> u32 \<Rightarrow> unit res" where
  "grant_delegated x mandate parent role not_before not_after grantor_key scope own_max_depth =
     (if (case get_str mandate ''parent'' of None \<Rightarrow> True | Some p \<Rightarrow> p = [])
      then Inl (err ''mandate-delegated-without-parent'')
      else if role \<noteq> ''agent'' then Inl (err ''mandate-delegated-grantor-not-agent'')
      else
        and_then (ok_or parent ''mandate-unresolved'') (\<lambda>p.
        and_then (key_at x p ''grantee'') (\<lambda>held_by.
          if grantor_key \<noteq> held_by then Inl (err ''mandate-delegation-not-held'')
          else
            and_then (max_depth_of p) (\<lambda>parent_max.
              if parent_max < 1 then Inl (err ''mandate-delegation-depth-exceeded'')
              else if own_max_depth > parent_max - 1 then Inl (err ''mandate-delegation-depth-exceeded'')
              else
                and_then (ok_or (get p ''scope'') ''schema-missing-member'') (\<lambda>parent_scope.
                and_then (scope_subset scope parent_scope) (\<lambda>narrower.
                  if \<not> narrower then Inl (err ''mandate-scope-widened'')
                  else
                    and_then (window_of p) (\<lambda>(parent_from, parent_to).
                      if not_before < parent_from \<or> not_after > parent_to
                      then Inl (err ''mandate-window-outside-parent'')
                      else
                        and_then (budget_within (get mandate ''budget'') (get p ''budget'')) (\<lambda>ok.
                          check ok ''mandate-budget-exceeds-parent'')))))))) "

definition verify_grant :: "ext \<Rightarrow> json \<Rightarrow> json option \<Rightarrow> grant_params \<Rightarrow> unit res" where
  "verify_grant x mandate parent params =
     and_then (verify_signed_object x mandate) (\<lambda>signer.
     and_then (key_at x mandate ''grantor'') (\<lambda>grantor_key.
       if signer \<noteq> grantor_key then Inl (err ''mandate-signer-not-grantor'')
       else
         and_then (key_at x mandate ''grantee'') (\<lambda>grantee_key.
           if grantor_key = grantee_key then Inl (err ''mandate-self-grant'')
           else
             and_then (grant_window mandate) (\<lambda>(not_before, not_after).
             and_then (ok_or (get mandate ''scope'') ''schema-missing-member'') (\<lambda>scope.
             and_then (validate_scope scope) (\<lambda>_.
             and_then (max_depth_of mandate) (\<lambda>own_max_depth.
             and_then (ok_or (get_str mandate ''mandate-kind'') ''schema-missing-member'') (\<lambda>kind.
             and_then (grantor_role mandate) (\<lambda>role.
               if kind = ''interactive'' \<or> kind = ''standing''
               then grant_root params mandate kind role not_after grantor_key grantee_key
               else if kind = ''delegated''
               then grant_delegated x mandate parent role not_before not_after grantor_key scope own_max_depth
               else Inl (err ''mandate-kind-unknown''))))))))))"

section \<open>What an accepted chain is\<close>

text \<open>A mandate that is in force at the instant asked about, held by its grantor.\<close>

definition held :: "ext \<Rightarrow> verify_params \<Rightarrow> revocation_map \<Rightarrow> string \<Rightarrow> json \<Rightarrow> key_id \<Rightarrow> bool" where
  "held x params revoked r m g \<longleftrightarrow>
     verify_signed_object x m = Inr g \<and> key_at x m ''grantor'' = Inr g
     \<and> (\<exists>k. key_at x m ''grantee'' = Inr k \<and> k \<noteq> g)
     \<and> (\<exists>nb na. window_of m = Inr (nb, na) \<and> nb \<le> at_instant params \<and> at_instant params \<le> na)
     \<and> (\<forall>t. revoked r = Some t \<longrightarrow> at_instant params < t)"

definition permits :: "scoped \<Rightarrow> json \<Rightarrow> bool" where
  "permits request m \<longleftrightarrow> (\<exists>scope. get m ''scope'' = Some scope \<and> check_scope request scope = Inr ())"

text \<open>A link of delegation is held by the parent's grantee, shortens the hop budget, narrows the scope, stays inside
  the window and does not raise the budget.\<close>

definition narrows :: "ext \<Rightarrow> json \<Rightarrow> json \<Rightarrow> bool" where
  "narrows x m p \<longleftrightarrow>
     (\<exists>g scope pscope own pmax cf ct pf pt.
        key_at x m ''grantor'' = Inr g \<and> key_at x p ''grantee'' = Inr g
        \<and> get m ''scope'' = Some scope \<and> get p ''scope'' = Some pscope \<and> scope_subset scope pscope = Inr True
        \<and> max_depth_of m = Inr own \<and> max_depth_of p = Inr pmax \<and> own < pmax
        \<and> window_of m = Inr (cf, ct) \<and> window_of p = Inr (pf, pt) \<and> pf \<le> cf \<and> ct \<le> pt
        \<and> budget_within (get m ''budget'') (get p ''budget'') = Inr True)"

inductive authority ::
  "ext \<Rightarrow> jmap \<Rightarrow> scoped \<Rightarrow> verify_params \<Rightarrow> revocation_map \<Rightarrow> nat \<Rightarrow> string list \<Rightarrow> chain_ok \<Rightarrow> bool"
  for x mandates request params revoked where
  authority_root:
    "map_of mandates r = Some m \<Longrightarrow> held x params revoked r m (root_key ok) \<Longrightarrow> permits request m \<Longrightarrow>
     get_str m ''mandate-kind'' = Some kind \<Longrightarrow> kind \<in> {''interactive'', ''standing''} \<Longrightarrow>
     grantor_role m = Inr ''human'' \<Longrightarrow> no_parent m \<Longrightarrow> root_key ok \<in> set (roots params) \<Longrightarrow>
     Option.bind (get m ''grantor'') (\<lambda>g. get_str g ''subject'') = Some (human_root ok) \<Longrightarrow> unat (depth ok) = d \<Longrightarrow>
     authority x mandates request params revoked d [r] ok"
| authority_link:
    "map_of mandates r = Some m \<Longrightarrow> held x params revoked r m g \<Longrightarrow> permits request m \<Longrightarrow>
     get_str m ''mandate-kind'' = Some ''delegated'' \<Longrightarrow> grantor_role m = Inr ''agent'' \<Longrightarrow>
     get_str m ''parent'' = Some r' \<Longrightarrow> map_of mandates r' = Some p \<Longrightarrow> narrows x m p \<Longrightarrow>
     Suc d \<le> unat (max_delegation_depth params) \<Longrightarrow>
     authority x mandates request params revoked (Suc d) (r' # rs) ok \<Longrightarrow>
     authority x mandates request params revoked d (r # r' # rs) ok"

inductive_cases authority_empty: "authority x mandates request params revoked d [] ok"

lemma authority_nonempty: "authority x mandates request params revoked d rs ok \<Longrightarrow> rs \<noteq> []"
  by (auto elim: authority_empty)

lemma window_of_eq: "window_of m = Inr (nb, na) \<longleftrightarrow> get_str m ''not-before'' = Some nb \<and> get_str m ''not-after'' = Some na"
  by (auto simp: window_of_def)

lemma check_held_eq: "check_held x params revoked r m = Inr g \<longleftrightarrow> held x params revoked r m g"
  by (cases "revoked r") (auto simp: check_held_def held_def window_of_eq not_less not_le)

lemma check_depth_eq: "check_depth pmax m = Inr u \<longleftrightarrow> (\<exists>own. max_depth_of m = Inr own \<and> own < pmax)"
proof -
  have "\<not> own > pmax - 1 \<and> \<not> pmax < 1 \<longleftrightarrow> own < pmax" for own :: u32
  proof (cases "pmax = 0")
    case False
    then have "1 \<le> pmax" by (simp add: word_le_nat_alt unat_gt_0 Suc_le_eq)
    then have "unat (pmax - 1) = unat pmax - 1" by (subst unat_sub) auto
    moreover have "0 < unat pmax" using False by (simp add: unat_gt_0)
    ultimately show ?thesis using \<open>1 \<le> pmax\<close> by (simp add: word_less_nat_alt word_le_nat_alt not_less) linarith
  qed simp
  then show ?thesis by (auto simp: check_depth_def)
qed

lemma check_delegated_eq:
  assumes "key_at x m ''grantor'' = Inr g" and "get m ''scope'' = Some scope"
  shows "check_delegated x m p g scope = Inr u \<longleftrightarrow> narrows x m p"
  using assms by (auto simp: check_delegated_def narrows_def check_depth_eq not_less)

lemma check_root_eq:
  "check_root params d m g role = Inr ok \<longleftrightarrow>
     no_parent m \<and> role = ''human'' \<and> g \<in> set (roots params)
     \<and> Option.bind (get m ''grantor'') (\<lambda>g. get_str g ''subject'') = Some (human_root ok) \<and> root_key ok = g \<and> depth ok = d"
  by (cases ok) (auto simp: check_root_def)

lemma next_depth_eq: "next_depth d = Inr d' \<longleftrightarrow> unat d + 1 < 2 ^ 32 \<and> d' = d + 1"
  by (auto simp: next_depth_def)

lemma unat_u32: "unat (w :: u32) < 2 ^ 32"
  by (rule order.strict_trans2 [OF unsigned_less]) simp

lemma unat_next: "unat (d :: u32) + 1 < 2 ^ 32 \<Longrightarrow> unat (d + 1) = unat d + 1"
  by (simp add: unat_word_ariths)

section \<open>The walk decides it\<close>

lemma walk_from_sound:
  "walk_from x mandates request params revoked d r m = Inr ok \<Longrightarrow> map_of mandates r = Some m \<Longrightarrow>
     \<exists>rs. authority x mandates request params revoked (unat d) (r # rs) ok"
proof (induction x mandates request params revoked d r m rule: walk_from.induct)
  case (1 x mandates request params revoked d r m)
  from 1(2) obtain g scope kind role where w: "check_held x params revoked r m = Inr g" "get m ''scope'' = Some scope"
    "check_scope request scope = Inr ()" "get_str m ''mandate-kind'' = Some kind" "grantor_role m = Inr role"
    by (subst (asm) walk_from.simps) auto
  have held: "held x params revoked r m g" using w(1) by (simp only: check_held_eq)
  then have gk: "key_at x m ''grantor'' = Inr g" by (simp add: held_def)
  have per: "permits request m" using w by (auto simp: permits_def)
  consider (root) "kind \<in> {''interactive'', ''standing''}" | (link) "kind = ''delegated''"
    using 1(2) w by (subst (asm) walk_from.simps) (auto split: if_splits)
  then show ?case
  proof cases
    case root
    then have "check_root params d m g role = Inr ok"
      using 1(2) w by (subst (asm) walk_from.simps) auto
    with held per w root 1(3) show ?thesis by (auto simp: check_root_eq intro!: authority_root)
  next
    case link
    then obtain p_ref p d' where l: "get_str m ''parent'' = Some p_ref" "role = ''agent''" "resolve mandates p_ref = Inr p"
      "check_delegated x m p g scope = Inr ()" "next_depth d = Inr d'" "\<not> d' > max_delegation_depth params"
      "walk_from x mandates request params revoked d' p_ref p = Inr ok"
      using 1(2) w by (subst (asm) walk_from.simps) auto
    have p: "map_of mandates p_ref = Some p" using l(3) by (simp add: resolve_def)
    have "\<exists>rs. authority x mandates request params revoked (unat d') (p_ref # rs) ok"
      by (rule 1(1) [OF w(1) _ w(3) _ w(5) _ _ _ _ l(3) l(4) l(5) l(6) l(7) p]) (use w l link in simp_all)
    then obtain rs where rs: "authority x mandates request params revoked (unat d') (p_ref # rs) ok" ..
    have d': "unat d' = Suc (unat d)" using l(5) by (auto simp: next_depth_eq unat_next)
    have "narrows x m p" using l(4) check_delegated_eq [OF gk w(2)] by simp
    moreover have "Suc (unat d) \<le> unat (max_delegation_depth params)"
      using l(6) d' by (simp add: word_le_nat_alt not_less)
    ultimately show ?thesis
      using rs held per w l link p 1(3) by (auto simp: d' intro!: authority_link)
  qed
qed

lemma walk_from_complete:
  "authority x mandates request params revoked n rs ok \<Longrightarrow> rs = r # rest \<Longrightarrow> map_of mandates r = Some m \<Longrightarrow> unat d = n \<Longrightarrow>
     walk_from x mandates request params revoked d r m = Inr ok"
proof (induction arbitrary: r rest m d rule: authority.induct)
  case (authority_root r0 m0 ok kind n)
  then have m0: "r0 = r" "m0 = m" by auto
  have "check_held x params revoked r m = Inr (root_key ok)" using authority_root.hyps(2) m0 by (simp add: check_held_eq)
  moreover have "depth ok = d"
    using authority_root.hyps(10) authority_root.prems(3) by (simp add: word_eq_iff_unsigned [where ?'a = nat])
  then have "check_root params d m (root_key ok) ''human'' = Inr ok"
    using authority_root.hyps m0 by (auto simp: check_root_eq)
  ultimately show ?case
    using authority_root m0 by (subst walk_from.simps) (auto simp: permits_def)
next
  case (authority_link r0 m0 g r' p n rs' ok)
  then have m0: "r0 = r" "m0 = m" by auto
  have held: "check_held x params revoked r m = Inr g" using authority_link.hyps(2) m0 by (simp add: check_held_eq)
  have gk: "key_at x m ''grantor'' = Inr g" using authority_link.hyps(2) m0 by (simp add: held_def)
  obtain scope where s: "get m ''scope'' = Some scope" "check_scope request scope = Inr ()"
    using authority_link.hyps(3) m0 by (auto simp: permits_def)
  have del: "check_delegated x m p g scope = Inr ()"
    using authority_link.hyps(8) check_delegated_eq [OF gk s(1)] m0 by simp
  have lt: "unat d + 1 < 2 ^ 32"
    using authority_link.hyps(9) authority_link.prems(3) unat_u32 [of "max_delegation_depth params"] by linarith
  then have d1: "unat (d + 1) = Suc n" using authority_link.prems(3) by (simp add: unat_next)
  have "walk_from x mandates request params revoked (d + 1) r' p = Inr ok"
    using authority_link.IH [OF refl authority_link.hyps(7) d1] .
  moreover have "\<not> d + 1 > max_delegation_depth params"
    using authority_link.hyps(9) d1 by (simp add: not_less word_le_nat_alt)
  ultimately show ?case
    using authority_link.hyps held s del lt m0
    by (subst walk_from.simps) (auto simp: resolve_def next_depth_eq)
qed

lemma walk_eq:
  "walk x mandates leaf_ref request params = Inr ok \<longleftrightarrow>
     (\<exists>m rs. map_of mandates leaf_ref = Some m \<and> key_at x m ''grantee'' = Inr (subject_key params)
        \<and> authority x mandates request params (revocation_index x mandates (revocations params) (roots params)) 0
             (leaf_ref # rs) ok)"
proof -
  let ?rv = "revocation_index x mandates (revocations params) (roots params)"
  have "walk_from x mandates request params ?rv 0 leaf_ref m = Inr ok \<longleftrightarrow>
      (\<exists>rs. authority x mandates request params ?rv 0 (leaf_ref # rs) ok)" if "map_of mandates leaf_ref = Some m" for m
    using walk_from_sound [of x mandates request params ?rv 0 leaf_ref m ok] that
      walk_from_complete [of x mandates request params ?rv 0 _ ok leaf_ref _ m 0] by auto
  then show ?thesis by (auto simp: walk_def Let_def resolve_def)
qed

section \<open>What follows for the chain\<close>

lemma authority_length: "authority x mandates request params revoked d rs ok \<Longrightarrow> unat (depth ok) + 1 = d + length rs"
  by (induction rule: authority.induct) auto

lemma authority_depth:
  "authority x mandates request params revoked d rs ok \<Longrightarrow> d \<le> unat (max_delegation_depth params) \<Longrightarrow>
     unat (depth ok) \<le> unat (max_delegation_depth params)"
  by (induction rule: authority.induct) auto

text \<open>Hop budgets grow strictly towards the root, so no mandate occurs twice.\<close>

definition hop_budget :: "jmap \<Rightarrow> string \<Rightarrow> nat" where
  "hop_budget mandates r = (case map_of mandates r of Some m \<Rightarrow> (case max_depth_of m of Inr n \<Rightarrow> unat n | Inl _ \<Rightarrow> 0) | None \<Rightarrow> 0)"

lemma authority_budgets:
  "authority x mandates request params revoked d rs ok \<Longrightarrow> sorted_wrt (<) (List.map (hop_budget mandates) rs)"
proof (induction rule: authority.induct)
  case (authority_link r m g r' p d rs ok)
  from \<open>narrows x m p\<close> have "hop_budget mandates r < hop_budget mandates r'"
    using authority_link.hyps(1,7) by (auto simp: narrows_def hop_budget_def word_less_nat_alt)
  with authority_link.IH show ?case by (auto intro: less_trans)
qed auto

lemma authority_distinct: "authority x mandates request params revoked d rs ok \<Longrightarrow> distinct rs"
  using authority_budgets [of x mandates request params revoked d rs ok]
  by (metis distinct_map strict_sorted_iff)

text \<open>Every mandate of the chain is in force and permits the request.\<close>

lemma authority_all:
  "authority x mandates request params revoked d rs ok \<Longrightarrow>
     \<forall>r\<in>set rs. \<exists>m g. map_of mandates r = Some m \<and> held x params revoked r m g \<and> permits request m"
  by (induction rule: authority.induct) auto

lemma authority_last:
  "authority x mandates request params revoked d rs ok \<Longrightarrow>
     \<exists>m. map_of mandates (last rs) = Some m \<and> held x params revoked (last rs) m (root_key ok)
       \<and> grantor_role m = Inr ''human'' \<and> no_parent m \<and> root_key ok \<in> set (roots params)
       \<and> Option.bind (get m ''grantor'') (\<lambda>g. get_str g ''subject'') = Some (human_root ok)"
  by (induction rule: authority.induct) (auto dest: authority_nonempty)

text \<open>A scope that permits a request is only ever narrower than the scopes above it.\<close>

definition scope_at :: "jmap \<Rightarrow> string \<Rightarrow> json \<Rightarrow> bool" where
  "scope_at mandates r s \<longleftrightarrow> (\<exists>m. map_of mandates r = Some m \<and> get m ''scope'' = Some s)"

lemma authority_scopes:
  "authority x mandates request params revoked d rs ok \<Longrightarrow> scope_at mandates (hd rs) s \<Longrightarrow> scope_permits s q = Inr True \<Longrightarrow>
     \<forall>r\<in>set rs. \<exists>t. scope_at mandates r t \<and> scope_permits t q = Inr True"
proof (induction arbitrary: s rule: authority.induct)
  case (authority_link r m g r' p d rs ok)
  from \<open>narrows x m p\<close> obtain a b where ab: "get m ''scope'' = Some a" "get p ''scope'' = Some b" "scope_subset a b = Inr True"
    by (auto simp: narrows_def)
  have "s = a" using authority_link.prems(1) authority_link.hyps(1) ab(1) by (simp add: scope_at_def)
  with scope_subset_permits [OF ab(3)] authority_link.prems(2) have "scope_permits b q = Inr True" by simp
  moreover have "scope_at mandates r' b" using authority_link.hyps(7) ab(2) by (simp add: scope_at_def)
  ultimately have "\<forall>r\<in>set (r' # rs). \<exists>t. scope_at mandates r t \<and> scope_permits t q = Inr True"
    using authority_link.IH by simp
  with authority_link.prems show ?case by auto
qed auto

section \<open>The walk does not trap\<close>

lemma mandate_parts_no_trap [simp, trap_simps]:
  "\<not> traps (key_at x m p)" "\<not> traps (max_depth_of m)" "\<not> traps (window_of m)" "\<not> traps (grantor_role m)"
  "\<not> traps (grantee_subject m)" "\<not> traps (resolve ms i)" "\<not> traps (check_depth n m)"
  by (auto simp: key_at_def max_depth_of_def window_of_def grantor_role_def grantee_subject_def resolve_def check_depth_def
      trap_simps)

lemma at_most_no_trap [simp, trap_simps]: "\<not> traps (at_most a b)"
  by (auto simp: at_most_def compare_def parts_def Let_def trap_simps split: option.splits)


section \<open>The walk does not trap\<close>

lemma budget_dimensions_no_trap [simp, trap_simps]: "\<not> traps (budget_dimensions c p)"
proof (induction p)
  case (Cons dv p)
  obtain dimension v where dv: "dv = (dimension, v)" by (cases dv)
  show ?case
  proof (cases "map_of c dimension")
    case (Some w)
    then show ?thesis using Cons by (cases w; cases v) (auto simp: dv trap_simps split: option.splits)
  qed (use Cons in \<open>simp add: dv\<close>)
qed simp

lemma budget_within_no_trap [simp, trap_simps]: "\<not> traps (budget_within a b)"
  by (auto simp: budget_within_def split: option.splits)

lemma narrows_depth:
  assumes "narrows x m p" and "\<And>n. max_depth_of m = Inr n \<Longrightarrow> unat d \<le> unat n"
  shows "\<exists>d'. next_depth d = Inr d' \<and> (\<forall>n. max_depth_of p = Inr n \<longrightarrow> unat d' \<le> unat n)"
proof -
  from assms(1) obtain own pmax where o: "max_depth_of m = Inr own" "max_depth_of p = Inr pmax" "own < pmax"
    by (auto simp: narrows_def)
  from assms(2) [OF o(1)] o(3) have l: "unat d + 1 \<le> unat pmax" by (simp add: word_less_nat_alt)
  moreover have "unat d + 1 < 2 ^ 32" using l unat_u32 [of pmax] by linarith
  ultimately show ?thesis using o(2) unat_next [of d] by (auto simp: next_depth_def)
qed

lemma walk_parts_no_trap [simp, trap_simps]:
  "\<not> traps (check_held x params revoked r m)" "\<not> traps (check_scope request s)"
  "\<not> traps (check_root params d m g role)" "\<not> traps (check_delegated x m p g s)"
proof -
  show "\<not> traps (check_held x params revoked r m)"
    unfolding check_held_def by (cases "revoked r") (auto simp: trap_simps)
  show "\<not> traps (check_scope request s)" by (cases request) (auto simp: check_scope_def trap_simps)
  show "\<not> traps (check_root params d m g role)" by (auto simp: check_root_def trap_simps)
  show "\<not> traps (check_delegated x m p g s)" by (auto simp: check_delegated_def trap_simps)
qed

lemma walk_from_no_trap:
  "(\<And>n. max_depth_of m = Inr n \<Longrightarrow> unat d \<le> unat n) \<Longrightarrow> \<not> traps (walk_from x mandates request params revoked d r m)"
proof (induction x mandates request params revoked d r m rule: walk_from.induct)
  case (1 x mandates request params revoked d r m)
  note IH = "1.IH" and le = "1.prems"
  have link: "\<not> traps (next_depth d) \<and> (\<forall>d'. next_depth d = Inr d' \<longrightarrow> (\<forall>n. max_depth_of p = Inr n \<longrightarrow> unat d' \<le> unat n))"
    if "check_held x params revoked r m = Inr g" "get m ''scope'' = Some s" "check_delegated x m p g s = Inr u" for g s p u
    using narrows_depth [of x m p d] le check_delegated_eq [of x m g s p u] that
    by (auto simp: check_held_eq held_def)
  show ?case
  proof (subst walk_from.simps, intro not_traps_bind not_traps_if)
    fix g s u kind role pr p u' d'
    assume w: "check_held x params revoked r m = Inr g" "ok_or (get m ''scope'') ''schema-missing-member'' = Inr s"
      "check_scope request s = Inr u" "ok_or (get_str m ''mandate-kind'') ''schema-missing-member'' = Inr kind"
      "grantor_role m = Inr role" "\<not> (kind = ''interactive'' \<or> kind = ''standing'')" "kind = ''delegated''"
      "ok_or (get_str m ''parent'') ''mandate-delegated-without-parent'' = Inr pr" "\<not> role \<noteq> ''agent''"
      "resolve mandates pr = Inr p" "check_delegated x m p g s = Inr u'" "next_depth d = Inr d'"
      "\<not> d' > max_delegation_depth params"
    show "\<not> traps (walk_from x mandates request params revoked d' pr p)"
      by (rule IH [OF w]) (use link [OF w(1) _ w(11)] w in simp)
  next
    fix g s u kind role pr p u'
    assume w: "check_held x params revoked r m = Inr g" "ok_or (get m ''scope'') ''schema-missing-member'' = Inr s"
      "check_delegated x m p g s = Inr u'"
    show "\<not> traps (next_depth d)" using link [OF w(1) _ w(3)] w by simp
  qed simp_all
qed

lemma walk_no_trap [simp, trap_simps]: "\<not> traps (walk x mandates leaf_ref request params)"
  unfolding walk_def Let_def by (auto simp: trap_simps walk_from_no_trap)


section \<open>Revocation reaches everything delegated beneath\<close>

text \<open>One pass of the propagation, and the mandate \<open>k\<close> parents above.\<close>

definition pass :: "jmap \<Rightarrow> revocation_map \<Rightarrow> revocation_map" where
  "pass mandates idx = fst (foldl propagate_one (idx, False) mandates)"

fun climb :: "jmap \<Rightarrow> nat \<Rightarrow> string \<Rightarrow> string option" where
  "climb mandates 0 r = Some r"
| "climb mandates (Suc k) r =
     Option.bind (Option.bind (map_of mandates r) (\<lambda>m. get_str m ''parent'')) (climb mandates k)"

text \<open>The instants from which a mandate is revoked by a revocation of itself or of one above.\<close>

definition revoked_from :: "jmap \<Rightarrow> revocation_map \<Rightarrow> string \<Rightarrow> string set" where
  "revoked_from mandates idx r = {t. \<exists>k a. climb mandates k r = Some a \<and> idx a = Some t}"

definition earlier :: "revocation_map \<Rightarrow> revocation_map \<Rightarrow> bool" where
  "earlier idx idx' \<longleftrightarrow> (\<forall>r t. idx r = Some t \<longrightarrow> (\<exists>t'. idx' r = Some t' \<and> t' \<le> t))"

lemma earlier_refl [simp]: "earlier idx idx"
  by (simp add: earlier_def)

lemma earlier_trans: "earlier a b \<Longrightarrow> earlier b c \<Longrightarrow> earlier a c"
  unfolding earlier_def by (meson order.trans)

lemma propagate_one_earlier: "earlier idx (fst (propagate_one (idx, ch) im))"
  by (auto simp: propagate_one_def earlier_def Let_def split: option.splits)

lemma foldl_earlier: "earlier (fst st) (fst (foldl propagate_one st ms))"
proof (induction ms arbitrary: st)
  case (Cons im ms)
  have "earlier (fst st) (fst (propagate_one st im))" using propagate_one_earlier [of "fst st" "snd st" im] by simp
  then show ?case using Cons.IH [of "propagate_one st im"] by (auto intro: earlier_trans)
qed simp

lemma propagate_one_unchanged: "propagate_one (idx, ch) im = (idx', False) \<Longrightarrow> idx' = idx \<and> \<not> ch"
  by (auto simp: propagate_one_def Let_def split: option.splits if_splits)

lemma foldl_unchanged: "foldl propagate_one (idx, ch) ms = (idx', False) \<Longrightarrow> idx' = idx \<and> \<not> ch"
proof (induction ms arbitrary: idx ch)
  case (Cons im ms)
  obtain i c where s: "propagate_one (idx, ch) im = (i, c)" by fastforce
  with Cons.prems Cons.IH [of i c] show ?case using propagate_one_unchanged [of idx ch im i] by auto
qed simp

text \<open>The early exit changes nothing: the loop is the iterated pass.\<close>

lemma funpow_fixed: "f a = a \<Longrightarrow> (f ^^ n) a = a"
  by (induction n) auto

lemma propagate_is_funpow: "propagate_revocations n mandates idx = (pass mandates ^^ n) idx"
proof (induction n arbitrary: idx)
  case (Suc n)
  obtain idx' ch where p: "foldl propagate_one (idx, False) mandates = (idx', ch)" by fastforce
  then have "pass mandates idx = idx'" by (simp add: pass_def)
  moreover have "idx' = idx" if "\<not> ch" using foldl_unchanged [of idx False mandates idx'] p that by simp
  ultimately show ?case using p Suc.IH
    by (cases ch) (simp_all add: funpow_Suc_right funpow_fixed del: funpow.simps)
qed simp

text \<open>After a pass a mandate is revoked no later than its parent was before the pass.\<close>

lemma foldl_child:
  assumes "(r, m) \<in> set ms" and "get_str m ''parent'' = Some p" and "idx p = Some t"
  shows "\<exists>t'. fst (foldl propagate_one (idx, ch) ms) r = Some t' \<and> t' \<le> t"
proof -
  from assms(1) obtain xs ys where ms: "ms = xs @ (r, m) # ys" by (meson split_list)
  let ?st = "foldl propagate_one (idx, ch) xs"
  obtain t0 where t0: "fst ?st p = Some t0" "t0 \<le> t"
    using foldl_earlier [of "(idx, ch)" xs] assms(3) by (auto simp: earlier_def)
  have "\<exists>t'. fst (propagate_one ?st (r, m)) r = Some t' \<and> t' \<le> t0"
    using t0(1) assms(2) by (cases ?st) (auto simp: propagate_one_def Let_def split: option.splits)
  then show ?thesis using foldl_earlier [of "propagate_one ?st (r, m)" ys] t0(2)
    by (auto simp: ms earlier_def) (meson order.trans)
qed

lemma pass_child:
  assumes "map_of mandates r = Some m" and "get_str m ''parent'' = Some p" and "idx p = Some t"
  shows "\<exists>t'. pass mandates idx r = Some t' \<and> t' \<le> t"
  using foldl_child [where idx = idx and p = p, OF map_of_SomeD [OF assms(1)] assms(2,3)] by (simp add: pass_def)

lemma pass_earlier: "earlier idx (pass mandates idx)"
  using foldl_earlier [of "(idx, False)" mandates] by (simp add: pass_def)

lemma climb_passes:
  "climb mandates k r = Some a \<Longrightarrow> idx a = Some t \<Longrightarrow> \<exists>t'. (pass mandates ^^ k) idx r = Some t' \<and> t' \<le> t"
proof (induction k arbitrary: r)
  case (Suc k)
  from Suc.prems(1) obtain m p where mp: "map_of mandates r = Some m" "get_str m ''parent'' = Some p" "climb mandates k p = Some a"
    by (auto simp: bind_eq_Some_conv)
  from Suc.IH [OF mp(3) Suc.prems(2)] obtain t1 where t1: "(pass mandates ^^ k) idx p = Some t1" "t1 \<le> t" by blast
  from pass_child [where idx = "(pass mandates ^^ k) idx" and p = p, OF mp(1,2) t1(1)] t1(2)
  show ?case by (auto intro: order.trans)
qed simp

lemma passes_earlier: "k \<le> n \<Longrightarrow> earlier ((pass mandates ^^ k) idx) ((pass mandates ^^ n) idx)"
proof (induction n)
  case (Suc n)
  show ?case
  proof (cases "k = Suc n")
    case False
    with Suc show ?thesis using pass_earlier [of "(pass mandates ^^ n) idx" mandates] by (auto intro: earlier_trans)
  qed simp
qed simp

text \<open>A shortest path upwards passes through no mandate twice, so there are at most as many steps as mandates.\<close>

lemma climb_add: "climb mandates (j + k) r = Option.bind (climb mandates j r) (climb mandates k)"
proof (induction j arbitrary: r)
  case (Suc j)
  then show ?case by (cases "Option.bind (map_of mandates r) (\<lambda>m. get_str m ''parent'')") auto
qed simp

lemma climb_short:
  assumes "climb mandates k r = Some a"
  shows "\<exists>j \<le> length mandates. climb mandates j r = Some a"
proof -
  define j where "j = (LEAST j. climb mandates j r = Some a)"
  have j: "climb mandates j r = Some a" unfolding j_def by (rule LeastI) (rule assms)
  have least: "j \<le> i" if "climb mandates i r = Some a" for i unfolding j_def by (rule Least_le) (rule that)
  have stop: "\<exists>b. climb mandates i r = Some b \<and> b \<in> fst ` set mandates" if "i < j" for i
  proof -
    have "climb mandates (i + Suc (j - Suc i)) r = Some a" using that j by simp
    then obtain b where b: "climb mandates i r = Some b" "climb mandates (Suc (j - Suc i)) b = Some a"
      unfolding climb_add by (auto simp: bind_eq_Some_conv simp del: climb.simps)
    then obtain m where "map_of mandates b = Some m" by (auto simp: bind_eq_Some_conv)
    with b(1) show ?thesis by (meson domI dom_map_of_conv_image_fst [THEN equalityD1, THEN subsetD])
  qed
  have "inj_on (\<lambda>i. climb mandates i r) {..<j}"
  proof (rule linorder_inj_onI)
    fix i i' assume i: "i < i'" "i \<in> {..<j}" "i' \<in> {..<j}"
    show "climb mandates i r \<noteq> climb mandates i' r"
    proof
      assume e: "climb mandates i r = climb mandates i' r"
      have "climb mandates (i' + (j - i')) r = Some a" using i j by simp
      then have "climb mandates (i + (j - i')) r = Some a" using e by (simp add: climb_add)
      with least [of "i + (j - i')"] i show False by auto
    qed
  qed auto
  then have "j = card ((\<lambda>i. climb mandates i r) ` {..<j})" by (simp add: card_image)
  also have "\<dots> \<le> card (Some ` fst ` set mandates)"
  proof (rule card_mono)
    show "(\<lambda>i. climb mandates i r) ` {..<j} \<subseteq> Some ` fst ` set mandates"
    proof (rule image_subsetI)
      fix i assume "i \<in> {..<j}"
      then obtain b where "climb mandates i r = Some b" "b \<in> fst ` set mandates" using stop [of i] by auto
      then show "climb mandates i r \<in> Some ` fst ` set mandates" by simp
    qed
  qed simp
  also have "\<dots> = card (set (List.map fst mandates))" by (simp add: card_image)
  also have "\<dots> \<le> length mandates" using card_length [of "List.map fst mandates"] by simp
  finally show ?thesis using j by blast
qed


lemma propagate_reaches:
  assumes "climb mandates k r = Some a" and "idx a = Some t"
  shows "\<exists>t'. propagate_revocations (length mandates) mandates idx r = Some t' \<and> t' \<le> t"
proof -
  obtain j where j: "j \<le> length mandates" "climb mandates j r = Some a" using climb_short [OF assms(1)] by blast
  obtain t1 where "(pass mandates ^^ j) idx r = Some t1" "t1 \<le> t"
    using climb_passes [where idx = idx, OF j(2) assms(2)] by blast
  then show ?thesis using passes_earlier [OF j(1), of mandates idx]
    by (auto simp: earlier_def propagate_is_funpow) (meson order.trans)
qed

text \<open>Conversely no instant appears that does not come from above.\<close>

definition from_above :: "jmap \<Rightarrow> revocation_map \<Rightarrow> revocation_map \<Rightarrow> bool" where
  "from_above mandates idx0 idx \<longleftrightarrow> (\<forall>r t. idx r = Some t \<longrightarrow> t \<in> revoked_from mandates idx0 r)"

lemma revoked_from_self: "idx r = Some t \<Longrightarrow> t \<in> revoked_from mandates idx r"
  by (auto simp: revoked_from_def intro: exI [of _ 0])

lemma revoked_from_parent:
  assumes "map_of mandates r = Some m" and "get_str m ''parent'' = Some p" and "t \<in> revoked_from mandates idx p"
  shows "t \<in> revoked_from mandates idx r"
proof -
  from assms(3) obtain k a where "climb mandates k p = Some a" "idx a = Some t" by (auto simp: revoked_from_def)
  with assms(1,2) show ?thesis by (auto simp: revoked_from_def intro!: exI [of _ "Suc k"])
qed

lemma propagate_one_from_above:
  assumes "from_above mandates idx0 idx" and "map_of mandates (fst im) = Some (snd im)"
  shows "from_above mandates idx0 (fst (propagate_one (idx, ch) im))"
  using assms revoked_from_parent [OF assms(2)]
  by (auto simp: from_above_def propagate_one_def Let_def split: option.splits)

lemma foldl_from_above:
  "from_above mandates idx0 (fst st) \<Longrightarrow> (\<And>im. im \<in> set ms \<Longrightarrow> map_of mandates (fst im) = Some (snd im)) \<Longrightarrow>
     from_above mandates idx0 (fst (foldl propagate_one st ms))"
proof (induction ms arbitrary: st)
  case (Cons im ms)
  have "from_above mandates idx0 (fst (propagate_one st im))"
    using propagate_one_from_above [of mandates idx0 "fst st" im "snd st"] Cons.prems by simp
  then show ?case using Cons by simp
qed simp

lemma pass_from_above:
  assumes "from_above mandates idx0 idx" and "map_ok mandates"
  shows "from_above mandates idx0 (pass mandates idx)"
  unfolding pass_def
  by (rule foldl_from_above) (use assms map_ok_distinct in \<open>auto intro: map_of_is_SomeI\<close>)

lemma propagate_from_above:
  assumes "map_ok mandates"
  shows "from_above mandates idx (propagate_revocations n mandates idx)"
proof -
  have "from_above mandates idx ((pass mandates ^^ n) idx)"
  proof (induction n)
    case (Suc n)
    then show ?case using pass_from_above [OF _ assms] by simp
  qed (auto simp: from_above_def revoked_from_self)
  then show ?thesis by (simp add: propagate_is_funpow)
qed

lemma propagate_least:
  assumes "map_ok mandates"
  shows "propagate_revocations (length mandates) mandates idx r = Some t \<longleftrightarrow>
    t \<in> revoked_from mandates idx r \<and> revoked_from mandates idx r \<subseteq> {t..}" (is "?L \<longleftrightarrow> ?R")
proof
  assume L: ?L
  have "t \<in> revoked_from mandates idx r"
    using propagate_from_above [OF assms] L unfolding from_above_def by blast
  moreover have "t \<le> t'" if "t' \<in> revoked_from mandates idx r" for t'
    using that propagate_reaches [of mandates _ r _ idx t'] L unfolding revoked_from_def by force
  ultimately show ?R by auto
next
  assume R: ?R
  then obtain k a where "climb mandates k r = Some a" "idx a = Some t" by (auto simp: revoked_from_def)
  then obtain t' where t': "propagate_revocations (length mandates) mandates idx r = Some t'" "t' \<le> t"
    using propagate_reaches [of mandates k r a idx t] by blast
  have "t' \<in> revoked_from mandates idx r"
    using propagate_from_above [OF assms] t'(1) unfolding from_above_def by blast
  with R t' show ?L by auto
qed

end
