(* ===== verification/Authority.thy ===== *)
theory Authority
  imports Mandate
begin

text \<open>
  What the checks of \<open>stozher-core/src/mandate.rs\<close> amount to, over the definitions of \<open>Mandate\<close>: an
  accepted chain is a finite path of distinct mandates to an enrolled human; checking a request at every
  hop is the same as checking it at the leaf, because scopes only narrow; a valid revocation stops every
  mandate beneath its target; and a delegated grant is accepted exactly when it is a link of the walk.
\<close>

section \<open>Requests and links\<close>

lemma permits_Full [simp]: "permits (Full q) m \<longleftrightarrow> (\<exists>s. get m ''scope'' = Some s \<and> scope_permits s q = Inr True)"
  by (auto simp: permits_def check_scope_def)

lemma permits_NotScoped [simp]: "permits NotScoped m \<longleftrightarrow> (\<exists>s. get m ''scope'' = Some s)"
  by (auto simp: permits_def check_scope_def)

lemma authority_unscoped:
  "authority x mandates (Full q) params revoked d rs ok \<Longrightarrow> authority x mandates NotScoped params revoked d rs ok"
proof (induction rule: authority.induct)
  case (authority_root r m ok kind d)
  then show ?case by (intro authority.authority_root) auto
next
  case (authority_link r m g r' p d rs ok)
  then show ?case by (intro authority.authority_link) auto
qed

lemma authority_scoped:
  "authority x mandates NotScoped params revoked d rs ok \<Longrightarrow>
     \<forall>r\<in>set rs. \<exists>t. scope_at mandates r t \<and> scope_permits t q = Inr True \<Longrightarrow>
     authority x mandates (Full q) params revoked d rs ok"
proof (induction rule: authority.induct)
  case (authority_root r m ok kind d)
  then show ?case by (intro authority.authority_root) (auto simp: scope_at_def)
next
  case (authority_link r m g r' p d rs ok)
  then show ?case by (intro authority.authority_link) (auto simp: scope_at_def)
qed

lemma authority_leaf:
  assumes "authority x mandates request params revoked d (r # rs) ok"
  shows "\<exists>m g. map_of mandates r = Some m \<and> held x params revoked r m g \<and> permits request m"
  using authority_all [OF assms] by simp

lemma walk_scoped_iff:
  "walk x mandates leaf_ref (Full q) params = Inr ok \<longleftrightarrow>
     walk x mandates leaf_ref NotScoped params = Inr ok
     \<and> (\<exists>s. scope_at mandates leaf_ref s \<and> scope_permits s q = Inr True)"
proof -
  let ?rv = "revocation_index x mandates (revocations params) (roots params)"
  have "authority x mandates (Full q) params ?rv 0 (leaf_ref # rs) ok \<longleftrightarrow>
      authority x mandates NotScoped params ?rv 0 (leaf_ref # rs) ok
      \<and> (\<exists>s. scope_at mandates leaf_ref s \<and> scope_permits s q = Inr True)" (is "?A \<longleftrightarrow> ?B \<and> ?S") for rs
  proof
    assume a: ?A
    from authority_leaf [OF a] have ?S by (auto simp: scope_at_def)
    with authority_unscoped [OF a] show "?B \<and> ?S" by blast
  next
    assume b: "?B \<and> ?S"
    then obtain s where s: "scope_at mandates leaf_ref s" "scope_permits s q = Inr True" by blast
    have "scope_at mandates (hd (leaf_ref # rs)) s" using s(1) by simp
    from authority_scopes [OF conjunct1 [OF b] this s(2)] show ?A using authority_scoped b by blast
  qed
  then show ?thesis unfolding walk_eq by blast
qed

lemma walk_accountable:
  assumes "walk x mandates leaf_ref request params = Inr ok"
  shows "\<exists>rs. hd rs = leaf_ref \<and> distinct rs \<and> length rs = unat (depth ok) + 1
     \<and> unat (depth ok) \<le> unat (max_delegation_depth params)
     \<and> (\<forall>r\<in>set rs. \<exists>m g. map_of mandates r = Some m \<and> permits request m
          \<and> held x params (revocation_index x mandates (revocations params) (roots params)) r m g)
     \<and> (\<exists>m. map_of mandates (last rs) = Some m \<and> grantor_role m = Inr ''human'' \<and> no_parent m
          \<and> verify_signed_object x m = Inr (root_key ok) \<and> root_key ok \<in> set (roots params))"
proof -
  let ?rv = "revocation_index x mandates (revocations params) (roots params)"
  from assms obtain rs where a: "authority x mandates request params ?rv 0 (leaf_ref # rs) ok"
    unfolding walk_eq by blast
  note facts = authority_distinct [OF a] authority_length [OF a] authority_depth [OF a] authority_all [OF a]
    authority_last [OF a]
  show ?thesis
    by (rule exI [of _ "leaf_ref # rs"]) (use facts in \<open>auto simp: held_def\<close>)
qed

section \<open>Revocations take effect\<close>

lemma index_revocation_earlier: "earlier idx (index_revocation x mandates hs idx rv)"
  by (auto simp: index_revocation_def earlier_def split: sum.splits option.splits)

lemma foldl_index_earlier: "earlier idx (foldl (index_revocation x mandates hs) idx rvs)"
proof (induction rvs arbitrary: idx)
  case (Cons rv rvs)
  then show ?case using index_revocation_earlier earlier_trans by (metis foldl_Cons)
qed simp

lemma verify_revocation_eq_Inr:
  "verify_revocation x mandates rv hs = Inr u \<longleftrightarrow>
     (\<exists>signer target t. verify_signed_object x rv = Inr signer \<and> get_str rv ''revokes'' = Some target
        \<and> get_str rv ''revoked-at'' = Some t \<and> revoker_is_authorized x mandates target signer hs
        \<and> \<not> backdated mandates target t)"
  by (auto simp: verify_revocation_def)

lemma index_revocation_valid:
  assumes "verify_revocation x mandates rv hs = Inr u" and "get_str rv ''revokes'' = Some target"
    and "get_str rv ''revoked-at'' = Some t"
  shows "\<exists>t'. index_revocation x mandates hs idx rv target = Some t' \<and> t' \<le> t"
  using assms by (auto simp: verify_revocation_eq_Inr index_revocation_def split: option.splits)

lemma direct_revocation:
  assumes "rv \<in> set rvs" and "verify_revocation x mandates rv hs = Inr u"
    and "get_str rv ''revokes'' = Some target" and "get_str rv ''revoked-at'' = Some t"
  shows "\<exists>t'. foldl (index_revocation x mandates hs) idx rvs target = Some t' \<and> t' \<le> t"
proof -
  from assms(1) obtain xs ys where s: "rvs = xs @ rv # ys" by (meson split_list)
  let ?i = "foldl (index_revocation x mandates hs) idx xs"
  obtain t1 where "index_revocation x mandates hs ?i rv target = Some t1" "t1 \<le> t"
    using index_revocation_valid [OF assms(2-4)] by blast
  then show ?thesis using foldl_index_earlier [of "index_revocation x mandates hs ?i rv" x mandates hs ys]
    by (auto simp: s earlier_def) (meson order.trans)
qed

lemma revoked_above:
  assumes "rv \<in> set rvs" and "verify_revocation x mandates rv hs = Inr u"
    and "get_str rv ''revokes'' = Some target" and "get_str rv ''revoked-at'' = Some t"
    and "climb mandates k r = Some target"
  shows "\<exists>t'. revocation_index x mandates rvs hs r = Some t' \<and> t' \<le> t"
proof -
  obtain t1 where "foldl (index_revocation x mandates hs) Map.empty rvs target = Some t1" "t1 \<le> t"
    using direct_revocation [OF assms(1-4)] by blast
  from propagate_reaches [where idx = "foldl (index_revocation x mandates hs) Map.empty rvs", OF assms(5) this(1)] this(2)
  show ?thesis unfolding revocation_index_def by (meson order.trans)
qed

section \<open>Grants\<close>

lemma grant_window_eq:
  "grant_window m = Inr (nb, na) \<longleftrightarrow>
     (\<exists>i n. get_str m ''issued-at'' = Some i \<and> window_of m = Inr (nb, na) \<and> i \<le> nb \<and> nb < na
        \<and> get_str m ''nonce'' = Some n \<and> length n = 32 \<and> list_all is_hex_digit n \<and> \<not> list_ex is_upper n)"
  by (auto simp: grant_window_def window_of_eq not_le not_less split: if_splits)

lemma grant_delegated_eq:
  assumes "key_at x m ''grantor'' = Inr g" and "get m ''scope'' = Some scope" and "window_of m = Inr (nb, na)"
    and "max_depth_of m = Inr own"
  shows "grant_delegated x m (Some p) role nb na g scope own = Inr u \<longleftrightarrow>
     (\<exists>r. get_str m ''parent'' = Some r \<and> r \<noteq> []) \<and> role = ''agent'' \<and> narrows x m p"
proof -
  have d: "\<not> pm < 1 \<and> \<not> own > pm - 1 \<longleftrightarrow> own < pm" for pm
    using check_depth_eq [of pm m "()"] assms(4) by (auto simp: check_depth_def split: if_splits)
  show ?thesis
    using assms by (auto simp: grant_delegated_def narrows_def not_less [symmetric] d [symmetric] split: option.splits)
qed

lemma verify_grant_eq_Inr:
  "verify_grant x m p params = Inr u \<longleftrightarrow>
     (\<exists>g h nb na scope own kind role. verify_signed_object x m = Inr g \<and> key_at x m ''grantor'' = Inr g
        \<and> key_at x m ''grantee'' = Inr h \<and> g \<noteq> h \<and> grant_window m = Inr (nb, na)
        \<and> get m ''scope'' = Some scope \<and> validate_scope scope = Inr () \<and> max_depth_of m = Inr own
        \<and> get_str m ''mandate-kind'' = Some kind \<and> grantor_role m = Inr role
        \<and> (if kind = ''interactive'' \<or> kind = ''standing'' then grant_root params m kind role na g h = Inr ()
           else kind = ''delegated'' \<and> grant_delegated x m p role nb na g scope own = Inr ()))"
proof -
  have s: "(if kind = ''interactive'' \<or> kind = ''standing'' then a else if kind = ''delegated'' then b else Inl (err c)) = Inr u
      \<longleftrightarrow> (if kind = ''interactive'' \<or> kind = ''standing'' then a = Inr () else kind = ''delegated'' \<and> b = Inr ())"
    for kind c and a b :: "unit res" by simp
  have one: "(\<exists>v :: unit. P v) \<longleftrightarrow> P ()" for P by auto
  show ?thesis
    unfolding verify_grant_def and_then_eq_Inr if_Inl_eq_Inr split_paired_Ex case_prod_conv ok_or_eq_Inr s one not_not
    by (rule iffI, elim exE conjE, hypsubst, intro exI conjI, (assumption | rule refl)+,
        elim exE conjE, intro exI conjI, (assumption | rule refl)+)
qed


section \<open>Concrete mandates\<close>

text \<open>A human root, an agent it empowers, and a second agent; their mandates, signed.\<close>

definition agent_secret :: string where "agent_secret = ''eeeeeeeeeeeeeeeeeeeeeeeeeeeeeeee''"
definition agent_key :: string where "agent_key = ''ed25519:6565656565656565656565656565656565656565656565656565656565656565''"
definition second_key :: string where "second_key = ''ed25519:6464646464646464646464646464646464646464646464646464646464646464''"

definition demo_scope :: json where
  "demo_scope = JObject [(''actions'', JArray [JString ''a.*'']), (''classes'', JArray [JString ''read'']),
     (''components'', JArray [JString ''*'']), (''resources'', JArray [JString ''*''])]"

definition demo_mandate :: "string \<Rightarrow> string \<Rightarrow> string \<Rightarrow> string \<Rightarrow> json \<Rightarrow> u64 \<Rightarrow> string \<Rightarrow> json" where
  "demo_mandate grantor role grantee kind parent hops not_after = JObject
     [(''grantee'', JObject [(''key'', JString grantee), (''subject'', JString ''agent:a'')]),
      (''grantor'', JObject [(''key'', JString grantor), (''role'', JString role), (''subject'', JString ''human:h'')]),
      (''issued-at'', JString ''2026-01-01T00:00:00.000Z''), (''mandate-kind'', JString kind),
      (''max-depth'', demo_num hops), (''nonce'', JString ''00000000000000000000000000000000''),
      (''not-after'', JString not_after), (''not-before'', JString ''2026-01-01T00:00:00.000Z''),
      (''parent'', parent), (''scope'', demo_scope)]"

definition signed_by :: "string \<Rightarrow> json \<Rightarrow> json" where
  "signed_by secret v = (case sign_object demo_ext v secret of Inr w \<Rightarrow> w | Inl _ \<Rightarrow> JNull)"

definition demo_root :: json where
  "demo_root = signed_by demo_secret
     (demo_mandate demo_key ''human'' agent_key ''interactive'' JNull 2 ''2027-01-01T00:00:00.000Z'')"

definition demo_delegated :: "string \<Rightarrow> json" where
  "demo_delegated not_after = signed_by agent_secret
     (demo_mandate agent_key ''agent'' second_key ''delegated'' (JString ''A'') 1 not_after)"

definition demo_mandates :: jmap where
  "demo_mandates = [(''A'', demo_root), (''B'', demo_delegated ''2026-12-31T00:00:00.000Z'')]"

definition demo_params :: "json list \<Rightarrow> verify_params" where
  "demo_params rvs = \<lparr>roots = [KeyId demo_key], revocations = rvs, at_instant = ''2026-07-26T09:15:01.300Z'',
     subject_key = KeyId second_key, max_delegation_depth = 3\<rparr>"

definition demo_request :: mandate_request where
  "demo_request = \<lparr>component = ''c'', action = ''a.get'', classification = ''read'', resource = ''r''\<rparr>"

definition demo_revocation :: json where
  "demo_revocation = demo_signed (JObject [(''revoked-at'', JString ''2026-07-01T00:00:00.000Z''), (''revokes'', JString ''A'')])"

lemma demo_walk:
  "verify_mandate_chain demo_ext demo_mandates ''B'' demo_request (demo_params [])
     = Inr \<lparr>human_root = ''human:h'', root_key = KeyId demo_key, depth = 1\<rparr>"
  by code_simp


section \<open>Properties\<close>

text \<open>C7: The chain walk decides authority: it succeeds exactly when the leaf resolves, is held by the acting key, and
  heads a path in which every mandate is authentic, in force, unrevoked and permits the request, every link is
  held by the parent's grantee and narrows hops, scope, window and budget, and the last mandate is a parentless
  grant of an enrolled human; and it reports that human, that key and the number of links.\<close>

theorem mandate_walk_decides:
  "walk x mandates leaf_ref request params = Inr ok \<longleftrightarrow>
     (\<exists>m rs. map_of mandates leaf_ref = Some m \<and> key_at x m ''grantee'' = Inr (subject_key params)
        \<and> authority x mandates request params (revocation_index x mandates (revocations params) (roots params)) 0
             (leaf_ref # rs) ok)"
  by (rule walk_eq)



text \<open>Scopes only narrow, so checking a request at every hop is the same as checking it once: a chain is accepted
  for a request exactly when it is accepted without one and the scope of the leaf permits the request.\<close>

lemma request_checked_at_leaf:
  "verify_mandate_chain x mandates leaf_ref request params = Inr ok \<longleftrightarrow>
     verify_mandate_chain_unscoped x mandates leaf_ref params = Inr ok
     \<and> (\<exists>s. scope_at mandates leaf_ref s \<and> scope_permits s request = Inr True)"
  unfolding verify_mandate_chain_def verify_mandate_chain_unscoped_def by (rule walk_scoped_iff)

text \<open>Propagation computes exactly what revocation means: a mandate is revoked from the earliest instant at which
  it, or a mandate any number of parents above it, was revoked by an accepted revocation, and from no other. The
  bound on the passes and the early exit lose nothing, cyclic parents included.\<close>

lemma revocation_is_least:
  assumes "map_ok mandates"
  shows "revocation_index x mandates rvs hs r = Some t \<longleftrightarrow>
     t \<in> revoked_from mandates (foldl (index_revocation x mandates hs) Map.empty rvs) r
     \<and> revoked_from mandates (foldl (index_revocation x mandates hs) Map.empty rvs) r \<subseteq> {t..}"
  unfolding revocation_index_def by (rule propagate_least [OF assms])

theorem revocation_is_least_witness:
  "''2026-07-01T00:00:00.000Z'' \<in> revoked_from demo_mandates
     (foldl (index_revocation demo_ext demo_mandates [KeyId demo_key]) Map.empty [demo_revocation]) ''B''"
proof -
  have ok: "map_ok demo_mandates" by code_simp
  have "revocation_index demo_ext demo_mandates [demo_revocation] [KeyId demo_key] ''B'' = Some ''2026-07-01T00:00:00.000Z''"
    by code_simp
  then show ?thesis using revocation_is_least [OF ok] by blast
qed

text \<open>C6: A valid revocation stops everything beneath its target: once a published revocation that verifies is in
  effect, no mandate from which its target can be reached by following parents is accepted as a leaf, for any
  request, whatever other revocations say.\<close>

theorem revocation_stops_chain:
  assumes "rv \<in> set (revocations params)" and "verify_revocation x mandates rv (roots params) = Inr u"
    and "get_str rv ''revokes'' = Some target" and "get_str rv ''revoked-at'' = Some t" and "t \<le> at_instant params"
    and "climb mandates k leaf_ref = Some target"
  shows "\<exists>e. walk x mandates leaf_ref request params = Inl e"
proof (rule ccontr)
  assume "\<not> ?thesis"
  then obtain ok where "walk x mandates leaf_ref request params = Inr ok" by (cases "walk x mandates leaf_ref request params") auto
  then obtain rs where "authority x mandates request params
      (revocation_index x mandates (revocations params) (roots params)) 0 (leaf_ref # rs) ok"
    unfolding walk_eq by blast
  from authority_leaf [OF this] revoked_above [OF assms(1-4,6)] assms(5) show False
    by (fastforce simp: held_def)
qed

theorem revocation_stops_chain_witness:
  "\<exists>e. walk demo_ext demo_mandates ''B'' NotScoped (demo_params [demo_revocation]) = Inl e"
proof (rule revocation_stops_chain)
  show "demo_revocation \<in> set (revocations (demo_params [demo_revocation]))" by (simp add: demo_params_def)
  show "verify_revocation demo_ext demo_mandates demo_revocation (roots (demo_params [demo_revocation])) = Inr ()" by code_simp
  show "get_str demo_revocation ''revokes'' = Some ''A''" by code_simp
  show "get_str demo_revocation ''revoked-at'' = Some ''2026-07-01T00:00:00.000Z''" by code_simp
  show "''2026-07-01T00:00:00.000Z'' \<le> at_instant (demo_params [demo_revocation])"
    by (simp add: demo_params_def)
  show "climb demo_mandates 1 ''B'' = Some ''A''" by code_simp
qed

text \<open>The walk never traps: the depth it counts is a machine integer it increments without a check, and the hop
  budgets it has verified on the way bound it.\<close>

lemma walk_never_traps: "\<not> traps (walk x mandates leaf_ref request params)"
  by (rule walk_no_trap)

text \<open>The check at grant time and the check at use time agree on what a delegation is: a delegated mandate is
  accepted beside its parent exactly when it is authentic, well formed and a link the chain walk accepts.\<close>

lemma delegated_grant_is_link:
  "verify_grant x m (Some p) params = Inr () \<and> get_str m ''mandate-kind'' = Some ''delegated'' \<longleftrightarrow>
     (\<exists>g h w s d r. verify_signed_object x m = Inr g \<and> key_at x m ''grantor'' = Inr g \<and> key_at x m ''grantee'' = Inr h
        \<and> g \<noteq> h \<and> grant_window m = Inr w \<and> get m ''scope'' = Some s \<and> validate_scope s = Inr ()
        \<and> max_depth_of m = Inr d \<and> get_str m ''parent'' = Some r \<and> r \<noteq> [] \<and> grantor_role m = Inr ''agent''
        \<and> narrows x m p)
     \<and> get_str m ''mandate-kind'' = Some ''delegated''"
  (is "?L \<longleftrightarrow> ?R")
proof
  assume L: ?L
  then obtain g h nb na s d kind role where f: "verify_signed_object x m = Inr g" "key_at x m ''grantor'' = Inr g"
    "key_at x m ''grantee'' = Inr h" "g \<noteq> h" "grant_window m = Inr (nb, na)" "get m ''scope'' = Some s"
    "validate_scope s = Inr ()" "max_depth_of m = Inr d" "grantor_role m = Inr role"
    and k: "get_str m ''mandate-kind'' = Some kind"
      "if kind = ''interactive'' \<or> kind = ''standing'' then grant_root params m kind role na g h = Inr ()
       else kind = ''delegated'' \<and> grant_delegated x m (Some p) role nb na g s d = Inr ()"
    unfolding verify_grant_eq_Inr by blast
  from k(1) L have kd: "kind = ''delegated''" by simp
  from k(2) have dg: "grant_delegated x m (Some p) role nb na g s d = Inr ()" unfolding kd by simp
  have "window_of m = Inr (nb, na)" using f(5) by (auto simp: grant_window_eq)
  from dg [unfolded grant_delegated_eq [OF f(2,6) this f(8)]] f L show ?R by blast
next
  assume R: ?R
  then obtain g h nb na s d r where f: "verify_signed_object x m = Inr g" "key_at x m ''grantor'' = Inr g"
    "key_at x m ''grantee'' = Inr h" "g \<noteq> h" "grant_window m = Inr (nb, na)" "get m ''scope'' = Some s"
    "validate_scope s = Inr ()" "max_depth_of m = Inr d" "get_str m ''parent'' = Some r" "r \<noteq> []"
    "grantor_role m = Inr ''agent''" "narrows x m p" by (metis surj_pair)
  have "window_of m = Inr (nb, na)" using f(5) by (auto simp: grant_window_eq)
  from grant_delegated_eq [OF f(2,6) this f(8), of p "''agent''" "()"] f(9,10,12)
  have "grant_delegated x m (Some p) ''agent'' nb na g s d = Inr ()" by blast
  with f R have "verify_grant x m (Some p) params = Inr ()"
    unfolding verify_grant_eq_Inr
    by (intro exI [of _ g] exI [of _ h] exI [of _ nb] exI [of _ na] exI [of _ s] exI [of _ d] exI [of _ "''delegated''"]
        exI [of _ "''agent''"]) simp
  with R show ?L by blast
qed



end
