(* ===== verification/Gate.thy ===== *)
theory Gate
  imports Envelope
begin

text \<open>
  Gate authorization, \<open>stozher-core/src/gate.rs\<close>: the eleven steps of \<open>verify_authorization\<close>, in the order
  of the code. The abstract counterpart is \<open>approval\<close>: what it is for a request and a decision to approve
  the effect an envelope reports. Verification decides it, an approval covers one effect only, and a
  single-use approval is accepted once.
\<close>

section \<open>The model\<close>

record approver =
  approver_key :: key_id
  approver_subject :: "string option"

definition named :: "key_id \<Rightarrow> string \<Rightarrow> approver" where
  "named k s = \<lparr>approver_key = k, approver_subject = Some s\<rparr>"

record authorization_ok =
  request_hash :: string
  decided_by :: key_id
  single_use :: bool

text \<open>The nine members an approval binds, and where each stands in the envelope.\<close>

definition bound :: "(string \<times> string list) list" where
  "bound =
     [(''subject'', [''identity'', ''subject'']), (''key'', [''identity'', ''key'']),
      (''component'', [''identity'', ''component'']), (''mandate-ref'', [''mandate-ref'']),
      (''policy-version'', [''policy-version'']), (''classification'', [''classification'']),
      (''action'', [''execution'', ''action'']), (''target'', [''execution'', ''target'']),
      (''args-hash'', [''execution'', ''args-hash''])]"

definition at_path :: "json \<Rightarrow> string list \<Rightarrow> json option" where
  "at_path envelope path = foldl (\<lambda>cursor key. Option.bind cursor (\<lambda>v. get v key)) (Some envelope) path"

definition performed :: "json \<Rightarrow> string list \<Rightarrow> string option" where
  "performed envelope path = Option.bind (at_path envelope path) as_str"

text \<open>Steps 4 and 5: nobody approves their own action, by key or by subject, and the approver is permitted.\<close>

definition check_approver :: "approver list \<Rightarrow> json \<Rightarrow> key_id \<Rightarrow> unit res" where
  "check_approver approvers request decider =
     and_then (ok_or (get_str request ''key'') ''schema-missing-member'') (\<lambda>requester.
       if as_string decider = requester then Inl (err ''gate-self-approval'')
       else
         (let found = List.find (\<lambda>candidate. approver_key candidate = decider) approvers
          in
            if (case (Option.bind found approver_subject, get_str request ''subject'') of
                  (Some acting_as, Some requested_by) \<Rightarrow> acting_as = requested_by
                | _ \<Rightarrow> False)
            then Inl (err ''gate-self-approval'')
            else check (found \<noteq> None) ''gate-approver-not-permitted''))"

text \<open>Steps 6 and 7: the verdict.\<close>

definition check_verdict :: "json \<Rightarrow> unit res" where
  "check_verdict decision =
     and_then (ok_or (get_str decision ''decision'') ''schema-missing-member'') (\<lambda>verdict.
       if verdict = ''approve'' then Inr ()
       else if verdict = ''deny'' then
         (let reason = (case get_str decision ''reason'' of Some s \<Rightarrow> s | None \<Rightarrow> [])
          in if reason = [] then Inl (err ''gate-denial-without-reason'') else Inl (err ''gate-denied''))
       else Inl (err ''gate-decision-unknown''))"

text \<open>Steps 8 and 9: the four instants are timestamps, and lie in each other's windows.\<close>

definition check_window :: "json \<Rightarrow> json \<Rightarrow> json \<Rightarrow> unit res" where
  "check_window envelope request decision =
     and_then (ok_or (get_str decision ''decided-at'') ''schema-missing-member'') (\<lambda>decided_at.
     and_then (ok_or (get_str decision ''not-after'') ''schema-missing-member'') (\<lambda>decision_not_after.
     and_then (ok_or (get_str request ''not-after'') ''schema-missing-member'') (\<lambda>request_not_after.
     and_then (ok_or (get_str envelope ''emitted-at'') ''schema-missing-member'') (\<lambda>at_instant.
     and_then (for_each (\<lambda>v. check (is_timestamp v) ''encoding-bad-timestamp'')
                 [decided_at, decision_not_after, request_not_after, at_instant]) (\<lambda>_.
       if decided_at > request_not_after then Inl (err ''gate-request-expired'')
       else if at_instant < decided_at \<or> at_instant > decision_not_after then Inl (err ''gate-approval-expired'')
       else Inr ())))))"

text \<open>Step 10: the effect is the approved effect, member by member.\<close>

definition check_bound :: "json \<Rightarrow> json \<Rightarrow> unit res" where
  "check_bound envelope request =
     for_each (\<lambda>(member, path).
       check (\<not> get_str request member \<noteq> performed envelope path) ''gate-authorization-action-mismatch'') bound"

definition verify_authorization ::
  "ext \<Rightarrow> json \<Rightarrow> bool \<Rightarrow> approver list \<Rightarrow> string set \<Rightarrow> authorization_ok option res" where
  "verify_authorization x envelope requires_gate approvers seen_request_hashes =
     (case get envelope ''authorization'' of
        None \<Rightarrow> if requires_gate then Inl (err ''gate-authorization-missing'') else Inr None
      | Some authorization \<Rightarrow>
          and_then (ok_or (get authorization ''request'') ''schema-missing-member'') (\<lambda>request.
          and_then (ok_or (get authorization ''decision'') ''schema-missing-member'') (\<lambda>decision.
          and_then (object_hash x request) (\<lambda>hash.
          and_then (ok_or (get_str decision ''request-hash'') ''schema-missing-member'') (\<lambda>claimed_hash.
            if hash \<noteq> claimed_hash then Inl (err ''gate-authorization-request-hash-mismatch'')
            else
              and_then (map_err (\<lambda>_. err ''gate-decision-sig-invalid'') (verify_signed_object x decision)) (\<lambda>decider.
              and_then (check_approver approvers request decider) (\<lambda>_.
              and_then (check_verdict decision) (\<lambda>_.
              and_then (check_window envelope request decision) (\<lambda>_.
              and_then (check_bound envelope request) (\<lambda>_.
                (let single = (case Option.bind (get decision ''single-use'') as_bool of Some b \<Rightarrow> b | None \<Rightarrow> True)
                 in
                   if single \<and> hash \<in> seen_request_hashes then Inl (err ''gate-authorization-replayed'')
                   else Inr (Some \<lparr>request_hash = hash, decided_by = decider, single_use = single\<rparr>))))))))))))"

definition request_hash_of :: "ext \<Rightarrow> json \<Rightarrow> string res" where
  "request_hash_of x request = object_hash x request"

section \<open>What an approval is\<close>

text \<open>The approver found first under a key speaks for it.\<close>

definition speaks_as :: "approver list \<Rightarrow> key_id \<Rightarrow> approver \<Rightarrow> bool" where
  "speaks_as approvers k a \<longleftrightarrow> List.find (\<lambda>candidate. approver_key candidate = k) approvers = Some a"

definition impartial :: "approver list \<Rightarrow> json \<Rightarrow> key_id \<Rightarrow> bool" where
  "impartial approvers request k \<longleftrightarrow>
     (\<exists>r a. get_str request ''key'' = Some r \<and> r \<noteq> as_string k \<and> speaks_as approvers k a
        \<and> (approver_subject a = None \<or> approver_subject a \<noteq> get_str request ''subject''))"

definition in_window :: "json \<Rightarrow> json \<Rightarrow> json \<Rightarrow> bool" where
  "in_window envelope request decision \<longleftrightarrow>
     (\<exists>decided da ra em. get_str decision ''decided-at'' = Some decided \<and> get_str decision ''not-after'' = Some da
        \<and> get_str request ''not-after'' = Some ra \<and> get_str envelope ''emitted-at'' = Some em
        \<and> list_all is_timestamp [decided, da, ra, em] \<and> decided \<le> ra \<and> decided \<le> em \<and> em \<le> da)"

definition same_effect :: "json \<Rightarrow> json \<Rightarrow> bool" where
  "same_effect envelope request \<longleftrightarrow> (\<forall>(member, path) \<in> set bound. get_str request member = performed envelope path)"

definition approval :: "ext \<Rightarrow> approver list \<Rightarrow> json \<Rightarrow> json \<Rightarrow> json \<Rightarrow> string \<Rightarrow> key_id \<Rightarrow> bool" where
  "approval x approvers envelope request decision h k \<longleftrightarrow>
     object_hash x request = Inr h \<and> get_str decision ''request-hash'' = Some h
     \<and> verify_signed_object x decision = Inr k \<and> impartial approvers request k
     \<and> get_str decision ''decision'' = Some ''approve'' \<and> in_window envelope request decision \<and> same_effect envelope request"

definition reusable :: "json \<Rightarrow> bool" where
  "reusable decision \<longleftrightarrow> Option.bind (get decision ''single-use'') as_bool = Some False"

definition usable :: "string set \<Rightarrow> json \<Rightarrow> string \<Rightarrow> bool" where
  "usable seen decision h \<longleftrightarrow> reusable decision \<or> h \<notin> seen"

section \<open>Verification decides it\<close>

lemma check_approver_eq: "check_approver approvers request k = Inr u \<longleftrightarrow> impartial approvers request k"
proof (cases "List.find (\<lambda>candidate. approver_key candidate = k) approvers")
  case None
  then show ?thesis by (auto simp: check_approver_def impartial_def speaks_as_def Let_def)
next
  case (Some a)
  then show ?thesis
    by (cases "approver_subject a"; cases "get_str request ''subject''")
      (auto simp: check_approver_def impartial_def speaks_as_def Let_def)
qed

lemma check_verdict_eq: "check_verdict decision = Inr u \<longleftrightarrow> get_str decision ''decision'' = Some ''approve''"
  by (auto simp: check_verdict_def Let_def)

lemma check_window_eq: "check_window envelope request decision = Inr u \<longleftrightarrow> in_window envelope request decision"
  by (auto simp: check_window_def in_window_def not_less)

lemma check_bound_eq: "check_bound envelope request = Inr u \<longleftrightarrow> same_effect envelope request"
  by (auto simp: check_bound_def same_effect_def for_each_eq_Inr)

lemma verify_authorization_eq:
  "verify_authorization x envelope rg approvers seen = Inr r \<longleftrightarrow>
     (case get envelope ''authorization'' of
        None \<Rightarrow> \<not> rg \<and> r = None
      | Some a \<Rightarrow>
          \<exists>request decision h k. get a ''request'' = Some request \<and> get a ''decision'' = Some decision
            \<and> approval x approvers envelope request decision h k \<and> (reusable decision \<or> h \<notin> seen)
            \<and> r = Some \<lparr>request_hash = h, decided_by = k, single_use = (\<not> reusable decision)\<rparr>)"
proof (cases "get envelope ''authorization''")
  case None
  then show ?thesis by (auto simp: verify_authorization_def)
next
  case (Some a)
  have single: "(case Option.bind (get decision ''single-use'') as_bool of Some b \<Rightarrow> b | None \<Rightarrow> True) = (\<not> reusable decision)"
    for decision by (auto simp: reusable_def split: option.splits)
  show ?thesis
    by (simp add: Some verify_authorization_def approval_def single Let_def check_approver_eq check_verdict_eq
        check_window_eq check_bound_eq) blast
qed

lemma verify_authorization_no_trap [simp, trap_simps]: "\<not> traps (verify_authorization x envelope rg approvers seen)"
proof -
  have "\<not> traps (check_approver approvers request k)" for request k
    by (auto simp: check_approver_def Let_def trap_simps)
  moreover have "\<not> traps (check_verdict d)" for d by (auto simp: check_verdict_def Let_def trap_simps)
  moreover have "\<not> traps (check_window e r d)" for e r d by (auto simp: check_window_def trap_simps)
  moreover have "\<not> traps (check_bound e r)" for e r
    unfolding check_bound_def by (rule not_traps_for_each) auto
  moreover have "\<not> traps (object_hash x r)" for r by (simp add: object_hash_def trap_simps)
  ultimately show ?thesis
    by (cases "get envelope ''authorization''") (auto simp: verify_authorization_def Let_def trap_simps)
qed


section \<open>A concrete approval\<close>

definition approver_secret :: string where "approver_secret = ''eeeeeeeeeeeeeeeeeeeeeeeeeeeeeeee''"
definition gate_key :: string where "gate_key = ''ed25519:6565656565656565656565656565656565656565656565656565656565656565''"

definition demo_action_request :: json where
  "demo_action_request = JObject
     [(''action'', JString ''a.put''), (''args-hash'', JString demo_digest), (''classification'', JString ''benign''),
      (''component'', JString ''c''), (''key'', JString demo_key), (''mandate-ref'', JString demo_digest),
      (''not-after'', JString ''2026-07-26T10:00:00.000Z''), (''policy-version'', JString ''p''), (''subject'', JString ''s''),
      (''target'', JString ''t'')]"

definition demo_decision :: "bool \<Rightarrow> json" where
  "demo_decision single =
     (case sign_object demo_ext (JObject
        [(''decided-at'', JString ''2026-07-26T09:10:00.000Z''), (''decision'', JString ''approve''),
         (''not-after'', JString ''2026-07-26T09:30:00.000Z''), (''request-hash'', JString (demo_id demo_action_request)),
         (''single-use'', JBool single)]) approver_secret of Inr w \<Rightarrow> w | Inl _ \<Rightarrow> JNull)"

definition demo_gated :: "bool \<Rightarrow> string \<Rightarrow> json" where
  "demo_gated single emitted = JObject
     [(''authorization'', JObject [(''decision'', demo_decision single), (''request'', demo_action_request)]),
      (''classification'', JString ''benign''), (''emitted-at'', JString emitted),
      (''execution'', JObject [(''action'', JString ''a.put''), (''args-hash'', JString demo_digest), (''target'', JString ''t'')]),
      (''identity'', demo_identity), (''mandate-ref'', JString demo_digest), (''policy-version'', JString ''p'')]"

definition demo_approvers :: "approver list" where
  "demo_approvers = [named (KeyId gate_key) ''human:approver'']"

lemma demo_gated_accepted:
  "verify_authorization demo_ext (demo_gated single ''2026-07-26T09:15:01.300Z'') True demo_approvers {}
     = Inr (Some \<lparr>request_hash = demo_id demo_action_request, decided_by = KeyId gate_key, single_use = single\<rparr>)"
  by (cases single; simp only:; code_simp)

section \<open>Properties\<close>

text \<open>C4: Gate verification decides what an approval is. A record without an authorization passes exactly when no gate
  was required; any other passes exactly when the decision is an authentic approval, by a permitted approver who
  is neither the requesting key nor the requesting subject, of the very request carried along, made and used in
  time, of the very effect performed in all nine bound members, and not used before unless declared reusable.\<close>

theorem authorization_decides:
  "verify_authorization x envelope requires_gate approvers seen = Inr r \<longleftrightarrow>
     (case get envelope ''authorization'' of
        None \<Rightarrow> r = None \<and> \<not> requires_gate
      | Some a \<Rightarrow>
          \<exists>request decision h k. get a ''request'' = Some request \<and> get a ''decision'' = Some decision
            \<and> approval x approvers envelope request decision h k \<and> usable seen decision h
            \<and> r = Some \<lparr>request_hash = h, decided_by = k, single_use = (\<not> reusable decision)\<rparr>)"
  unfolding verify_authorization_eq usable_def by (auto split: option.splits)

text \<open>An approval covers one effect: two effects accepted under approvals with one request hash agree in all nine
  bound members (subject, key, component, mandate, policy version, class, action, target and arguments), or the two
  requests are a collision of SHA-256.\<close>

lemma approval_covers_one_effect:
  assumes "documented x" and "json_ok request" and "json_ok request'"
    and "Option.bind (get e ''authorization'') (\<lambda>a. get a ''request'') = Some request"
    and "Option.bind (get e' ''authorization'') (\<lambda>a. get a ''request'') = Some request'"
    and "verify_authorization x e rg approvers seen = Inr (Some ok)"
    and "verify_authorization x e' rg' approvers' seen' = Inr (Some ok')"
    and "request_hash ok = request_hash ok'"
  shows "(\<forall>(member, path) \<in> set bound. performed e path = performed e' path) \<or> collide x request request'"
proof -
  have a: "object_hash x request = Inr (request_hash ok)" "same_effect e request"
    "object_hash x request' = Inr (request_hash ok')" "same_effect e' request'"
    using assms(4-7) by (auto simp: verify_authorization_eq approval_def bind_eq_Some_conv)
  from object_id_same [OF assms(1-3), of "request_hash ok"] a(1,3) assms(8)
  have "same x request request' \<or> collide x request request'" by (simp add: object_id_def)
  with a(2,4) same_get_str [of x request request'] show ?thesis
    unfolding same_effect_def by fastforce
qed

theorem approval_covers_one_effect_witness:
  "(\<forall>(member, path) \<in> set bound. performed (demo_gated False ''2026-07-26T09:15:01.300Z'') path
      = performed (demo_gated False ''2026-07-26T09:15:01.300Z'') path) \<or> collide demo_ext demo_action_request demo_action_request"
proof -
  have j: "json_ok demo_action_request" by code_simp
  have g: "Option.bind (get (demo_gated False ''2026-07-26T09:15:01.300Z'') ''authorization'') (\<lambda>a. get a ''request'')
      = Some demo_action_request" by (simp add: demo_gated_def)
  from approval_covers_one_effect [OF demo_documented j j g g demo_gated_accepted demo_gated_accepted refl]
  show ?thesis .
qed

text \<open>A single-use approval is used once: an effect accepted under one is refused as a replay, by whatever kernel
  remembers the request hash.\<close>

lemma single_use_once:
  assumes "verify_authorization x e rg approvers seen = Inr (Some ok)" and "single_use ok" and "request_hash ok \<in> seen'"
  shows "verify_authorization x e rg' approvers seen' = Inl (err ''gate-authorization-replayed'')"
proof -
  from assms(1) obtain a where a: "get e ''authorization'' = Some a" by (auto simp: verify_authorization_eq split: option.splits)
  with assms(1) obtain request decision h k where p: "get a ''request'' = Some request" "get a ''decision'' = Some decision"
    "approval x approvers e request decision h k" "ok = \<lparr>request_hash = h, decided_by = k, single_use = (\<not> reusable decision)\<rparr>"
    by (auto simp: verify_authorization_eq)
  have s: "check_approver approvers request k = Inr ()" "check_verdict decision = Inr ()" "check_window e request decision = Inr ()"
    "check_bound e request = Inr ()"
    using p(3) by (simp_all add: approval_def check_approver_eq check_verdict_eq check_window_eq check_bound_eq)
  have single: "(case Option.bind (get decision ''single-use'') as_bool of Some b \<Rightarrow> b | None \<Rightarrow> True)"
    using assms(2) p(4) by (auto simp: reusable_def split: option.splits)
  from p a s single assms(3) show ?thesis
    by (simp add: verify_authorization_def approval_def Let_def)
qed

theorem single_use_once_witness:
  "verify_authorization demo_ext (demo_gated True ''2026-07-26T09:15:01.300Z'') True demo_approvers {demo_id demo_action_request}
     = Inl (err ''gate-authorization-replayed'')"
  by (rule single_use_once [OF demo_gated_accepted]) simp_all

end
