(* ===== verification/Trigger.thy ===== *)
theory Trigger
  imports Envelope
begin

text \<open>
  Triggered effects, \<open>stozher-core/src/trigger.rs\<close>: what a record that names a signal as its cause must
  cite. The two lookups are the caller's; their results are arguments.
\<close>

section \<open>The model\<close>

definition check_trigger :: "json \<Rightarrow> json option \<Rightarrow> json option \<Rightarrow> unit res" where
  "check_trigger envelope mandate signal =
     (case get envelope ''trigger'' of
        None \<Rightarrow> Inr ()
      | Some trigger \<Rightarrow>
          and_then (ok_or (as_str (index trigger ''standing-mandate-ref'')) ''schema-missing-member'') (\<lambda>standing_ref.
            if as_str (index envelope ''mandate-ref'') \<noteq> Some standing_ref then Inl (err ''trigger-mandate-mismatch'')
            else
              and_then (ok_or (as_str (index trigger ''signal-ref'')) ''schema-missing-member'') (\<lambda>signal_ref.
                (case signal of
                   None \<Rightarrow> Inl (err ''trigger-signal-unresolved'')
                 | Some s \<Rightarrow>
                     if as_str (index s ''kind'') \<noteq> Some ''signal'' then Inl (err ''trigger-signal-unresolved'')
                     else
                       and_then (ok_or mandate ''mandate-unresolved'') (\<lambda>m.
                         if as_str (index m ''mandate-kind'') \<noteq> Some ''standing'' then Inl (err ''trigger-mandate-not-standing'')
                         else Inr ())))))"

section \<open>Properties\<close>

text \<open>A triggered effect is answerable: a record that carries a trigger passes exactly when it cites the mandate it
  is judged against, that mandate resolves and is a standing one, and the signal it names resolves to a record
  that is a signal; a record without a trigger always passes.\<close>

lemma trigger_decides:
  "check_trigger envelope mandate signal = Inr () \<longleftrightarrow>
     (case get envelope ''trigger'' of
        None \<Rightarrow> True
      | Some trigger \<Rightarrow>
          \<exists>r n s m. get_str trigger ''standing-mandate-ref'' = Some r \<and> get_str envelope ''mandate-ref'' = Some r
            \<and> get_str trigger ''signal-ref'' = Some n \<and> signal = Some s \<and> get_str s ''kind'' = Some ''signal''
            \<and> mandate = Some m \<and> get_str m ''mandate-kind'' = Some ''standing'')"
  by (auto simp: check_trigger_def index_str split: option.splits)

end
