(* ===== verification/Payload.thy ===== *)
theory Payload
  imports Envelope
begin

text \<open>
  Evidence payloads, \<open>stozher-core/src/payload.rs\<close>: which payload hashes an envelope commits to, and the
  check of an ingest record. A payload is bound to its envelope by hash only, so leaving one out, or erasing
  it later, changes nothing about the envelope.
\<close>

section \<open>The model\<close>

definition json_media_type :: string where "json_media_type = ''application/json''"

definition allowed_media_types :: "string list" where
  "allowed_media_types =
     [json_media_type, ''application/octet-stream'', ''application/pdf'', ''application/zip'', ''application/gzip'',
      ''text/plain'', ''text/csv'', ''text/markdown'', ''image/png'', ''image/jpeg'', ''image/gif'', ''image/webp'']"

record ingest_ok =
  envelope_hash :: string
  stored :: nat
  decayed :: bool

text \<open>\<open>filter_map\<close> is \<open>List.map_filter\<close>.\<close>

definition referenced_hashes :: "json \<Rightarrow> string list" where
  "referenced_hashes envelope =
     List.map_filter as_str (List.map_filter (\<lambda>section. get section ''payload-hash'')
       (List.map_filter (get envelope) [''evidence'', ''signal'']))"

text \<open>The digest of the body, by its media type.\<close>

definition body_digest :: "ext \<Rightarrow> string \<Rightarrow> json \<Rightarrow> string res" where
  "body_digest x media_type body =
     (if media_type = json_media_type then object_hash x body
      else
        and_then (ok_or (as_str body) ''schema-type-mismatch'') (\<lambda>hex_body.
        and_then (ok_or (hex_decode x hex_body) ''encoding-not-lowercase-hex'') (\<lambda>octets.
          if list_ex is_upper hex_body then Inl (err ''encoding-not-lowercase-hex'')
          else Inr (sha256_hex x octets))))"

definition check_payload :: "ext \<Rightarrow> string list \<Rightarrow> json \<Rightarrow> unit res" where
  "check_payload x referenced payload =
     and_then (ok_or (get_str payload ''payload-hash'') ''schema-missing-member'') (\<lambda>declared.
     and_then (ok_or (get_str payload ''media-type'') ''schema-missing-member'') (\<lambda>media_type.
       if media_type \<notin> set allowed_media_types then Inl (err ''payload-media-type-not-allowed'')
       else
         and_then (ok_or (get payload ''payload'') ''schema-missing-member'') (\<lambda>body.
         and_then (body_digest x media_type body) (\<lambda>computed.
           if computed \<noteq> declared then Inl (err ''payload-hash-mismatch'')
           else if declared \<notin> set referenced then Inl (err ''payload-not-referenced'')
           else Inr ()))))"

definition supplied_hashes :: "json list \<Rightarrow> string list" where
  "supplied_hashes payloads = List.map_filter as_str (List.map_filter (\<lambda>p. get p ''payload-hash'') payloads)"

definition verify_ingest :: "ext \<Rightarrow> json \<Rightarrow> json list \<Rightarrow> ingest_ok res" where
  "verify_ingest x envelope payloads =
     and_then (validate x envelope) (\<lambda>_.
       let referenced = referenced_hashes envelope in
       and_then (for_each (check_payload x referenced) payloads) (\<lambda>_.
         let missing = list_ex (\<lambda>hash. hash \<notin> set (supplied_hashes payloads)) referenced in
         and_then (object_id x envelope) (\<lambda>i.
           Inr \<lparr>envelope_hash = i, stored = length payloads, decayed = missing\<rparr>)))"

section \<open>What an ingest record is\<close>

text \<open>A payload that belongs to an envelope: of a permitted type, and the digest of its body is one the envelope
  commits to.\<close>

definition committed :: "ext \<Rightarrow> json \<Rightarrow> json \<Rightarrow> string \<Rightarrow> bool" where
  "committed x envelope payload h \<longleftrightarrow>
     (\<exists>media body. get_str payload ''media-type'' = Some media \<and> media \<in> set allowed_media_types
        \<and> get payload ''payload'' = Some body \<and> body_digest x media body = Inr h
        \<and> get_str payload ''payload-hash'' = Some h \<and> h \<in> set (referenced_hashes envelope))"

definition commits_to :: "json \<Rightarrow> string \<Rightarrow> bool" where
  "commits_to envelope h \<longleftrightarrow>
     (\<exists>parent \<in> {''evidence'', ''signal''}. \<exists>section. get envelope parent = Some section \<and> get_str section ''payload-hash'' = Some h)"

lemma set_map_filter: "set (List.map_filter f xs) = {y. \<exists>x \<in> set xs. f x = Some y}"
  by (induction xs) (auto simp: List.map_filter_simps split: option.splits)

lemma referenced_iff: "h \<in> set (referenced_hashes envelope) \<longleftrightarrow> commits_to envelope h"
  unfolding referenced_hashes_def set_map_filter commits_to_def get_str_eq_Some by auto

lemma supplied_iff: "h \<in> set (supplied_hashes ps) \<longleftrightarrow> (\<exists>p \<in> set ps. get_str p ''payload-hash'' = Some h)"
  unfolding supplied_hashes_def set_map_filter get_str_eq_Some by auto

lemma check_payload_eq: "check_payload x (referenced_hashes e) p = Inr u \<longleftrightarrow> (\<exists>h. committed x e p h)"
  by (auto simp: check_payload_def committed_def)

lemma verify_ingest_eq:
  "verify_ingest x e ps = Inr ok \<longleftrightarrow>
     validate x e = Inr () \<and> object_id x e = Inr (envelope_hash ok) \<and> stored ok = length ps
     \<and> (\<forall>p \<in> set ps. \<exists>h. committed x e p h)
     \<and> (decayed ok \<longleftrightarrow> (\<exists>h. commits_to e h \<and> (\<nexists>p. p \<in> set ps \<and> get_str p ''payload-hash'' = Some h)))"
proof -
  have m: "list_ex (\<lambda>hash. hash \<notin> set (supplied_hashes ps)) (referenced_hashes e) \<longleftrightarrow>
      (\<exists>h. commits_to e h \<and> (\<nexists>p. p \<in> set ps \<and> get_str p ''payload-hash'' = Some h))"
    by (auto simp: list_ex_iff supplied_iff referenced_iff [symmetric])
  show ?thesis
    unfolding verify_ingest_def Let_def m
    by (cases ok) (auto simp: for_each_eq_Inr check_payload_eq)
qed

section \<open>Properties\<close>

text \<open>An ingest record passes exactly when its envelope is structurally valid and every payload is of a permitted
  media type, hashes to the digest it declares, and is one the envelope commits to; the answer is the identifier of
  the envelope, the number of payloads, and whether the envelope commits to one that was not supplied.\<close>

lemma ingest_record_decides:
  "verify_ingest x e ps = Inr ok \<longleftrightarrow>
     validate x e = Inr () \<and> object_id x e = Inr (envelope_hash ok) \<and> stored ok = length ps
     \<and> list_all (\<lambda>p. \<exists>h. committed x e p h) ps
     \<and> (decayed ok \<longleftrightarrow> (\<exists>h. commits_to e h \<and> (\<nexists>p. p \<in> set ps \<and> get_str p ''payload-hash'' = Some h)))"
  unfolding verify_ingest_eq by (simp add: list_all_iff)

text \<open>Integrity does not depend on payload presence: whatever payloads of an accepted record are left out, the rest
  is accepted, with the same envelope identifier, so erasing evidence cannot change or reject a record.\<close>

lemma erasure_keeps_identity:
  assumes "verify_ingest x e ps = Inr ok" and "set qs \<subseteq> set ps"
  shows "\<exists>ok'. verify_ingest x e qs = Inr ok' \<and> envelope_hash ok' = envelope_hash ok \<and> stored ok' = length qs
    \<and> decayed ok \<le> decayed ok'"
proof -
  let ?ok = "\<lparr>envelope_hash = envelope_hash ok, stored = length qs,
    decayed = (\<exists>h. commits_to e h \<and> (\<nexists>p. p \<in> set qs \<and> get_str p ''payload-hash'' = Some h))\<rparr>"
  have "verify_ingest x e qs = Inr ?ok" using assms unfolding verify_ingest_eq by auto
  moreover have "decayed ok \<le> decayed ?ok" using assms unfolding verify_ingest_eq by auto
  ultimately show ?thesis by (intro exI [of _ ?ok]) simp
qed

definition demo_evidence :: "json \<Rightarrow> json" where
  "demo_evidence body = JObject
     [(''classification'', JString ''benign''), (''emitted-at'', JString ''2026-07-26T09:15:01.300Z''),
      (''evidence'', JObject [(''media-type'', JString json_media_type), (''payload-hash'', JString (demo_id body)),
         (''retain-until'', JString ''2027-07-26T09:15:01.300Z''), (''schema'', JString ''s'')]),
      (''execution'', JObject [(''action'', JString ''a.put''), (''args-hash'', JString demo_digest),
         (''finished-at'', JString ''2026-07-26T09:15:01.200Z''), (''outcome'', JString ''applied''),
         (''started-at'', JString ''2026-07-26T09:15:01.100Z''), (''target'', JString ''t'')]),
      (''identity'', demo_identity), (''kind'', JString ''effect''), (''mandate-ref'', JString demo_digest),
      (''policy-version'', JString ''p''), (''prev-hash'', JNull), (''seq'', demo_num 0), (''sig'', demo_sig),
      (''stream'', JString ''gw''), (''v'', JString version)]"

definition demo_payload :: "json \<Rightarrow> json" where
  "demo_payload body = JObject [(''media-type'', JString json_media_type), (''payload'', body), (''payload-hash'', JString (demo_id body))]"

theorem erasure_keeps_identity_witness:
  "\<exists>ok'. verify_ingest demo_ext (demo_evidence (JArray [JNull])) [] = Inr ok' \<and> stored ok' = 0"
proof -
  have "\<exists>ok. verify_ingest demo_ext (demo_evidence (JArray [JNull])) [demo_payload (JArray [JNull])] = Inr ok"
  proof -
    have "(case verify_ingest demo_ext (demo_evidence (JArray [JNull])) [demo_payload (JArray [JNull])] of
        Inr ok \<Rightarrow> True | Inl e \<Rightarrow> False)" by code_simp
    then show ?thesis by (auto split: sum.splits)
  qed
  then obtain ok where "verify_ingest demo_ext (demo_evidence (JArray [JNull])) [demo_payload (JArray [JNull])] = Inr ok" ..
  from erasure_keeps_identity [OF this, of "[]"] show ?thesis by auto
qed

end
