(* ===== verification/Sync.thy ===== *)
theory Sync
  imports Timestamps
begin

text \<open>
  What a component may do after the kernel has answered, \<open>stozher-core/src/sync.rs\<close>: the decision on one
  call as a function of the outcome, the reason, the class and the elapsed time, and the status a stream is
  reported under.
\<close>

section \<open>The model\<close>

definition accepted :: string where "accepted = ''accepted''"
definition unreachable :: string where "unreachable = ''unreachable''"
definition refused :: string where "refused = ''refused''"
definition wedge_grace_default_seconds :: int where "wedge_grace_default_seconds = 300"

record decision =
  serve :: bool
  reason :: "string option"
  finding :: bool

record sync_state =
  outcome :: string
  reason_code :: "string option"
  class_of :: string
  elapsed_seconds :: int
  offline :: string
  wedge_grace_seconds :: int

definition denies_every_class :: "string \<Rightarrow> bool" where
  "denies_every_class r \<longleftrightarrow> starts_with r ''mandate-'' \<or> r = ''policy-not-published''"

definition decide :: "sync_state \<Rightarrow> decision" where
  "decide st =
     (if outcome st = accepted then \<lparr>serve = True, reason = None, finding = False\<rparr>
      else if outcome st = unreachable then
        (if offline st = ''allow'' then \<lparr>serve = True, reason = None, finding = False\<rparr>
         else \<lparr>serve = False, reason = Some ''policy-stale-offline'', finding = False\<rparr>)
      else
        (let r = (case reason_code st of Some s \<Rightarrow> s | None \<Rightarrow> ''x-kernel-refused'');
             refuse = \<lparr>serve = False, reason = Some r, finding = False\<rparr>
         in
           if denies_every_class r then refuse
           else if class_of st = ''consequential'' \<or> class_of st = ''prohibited'' then refuse
           else if elapsed_seconds st < wedge_grace_seconds st then \<lparr>serve = True, reason = None, finding = True\<rparr>
           else refuse))"

datatype stream_status = Healthy | Quiet | Refused

definition status_as_str :: "stream_status \<Rightarrow> string" where
  "status_as_str s = (case s of Healthy \<Rightarrow> ''healthy'' | Quiet \<Rightarrow> ''quiet'' | Refused \<Rightarrow> ''refused'')"

definition stream_status_of :: "string option \<Rightarrow> string option \<Rightarrow> int option \<Rightarrow> int \<Rightarrow> stream_status" where
  "stream_status_of last_accepted_at last_refused_at seconds_since_accepted quiet_after_seconds =
     (if (case last_refused_at of
            Some r \<Rightarrow> (case last_accepted_at of None \<Rightarrow> True | Some a \<Rightarrow> r \<ge> a)
          | None \<Rightarrow> False)
      then Refused
      else
        (case seconds_since_accepted of
           None \<Rightarrow> Quiet
         | Some silent \<Rightarrow> if silent > quiet_after_seconds then Quiet else Healthy))"

section \<open>Properties\<close>

text \<open>Grace after a refusal is bounded and audible. Under any outcome that is neither acceptance nor
  unreachability a call is served exactly when the reason does not touch authority, the class is not one that
  stops at once, and the window since the first refusal is still open; serving is then a finding; and a call that
  is not served carries the kernel's reason verbatim.\<close>

lemma refusal_grace_exact:
  assumes "outcome st \<noteq> accepted" and "outcome st \<noteq> unreachable" and "reason_code st = Some r"
  shows "(serve (decide st) \<longleftrightarrow> \<not> denies_every_class r \<and> class_of st \<notin> {''consequential'', ''prohibited''}
            \<and> elapsed_seconds st < wedge_grace_seconds st)
    \<and> finding (decide st) = serve (decide st) \<and> reason (decide st) = (if serve (decide st) then None else Some r)"
  using assms by (simp add: decide_def Let_def)

theorem refusal_grace_exact_witness:
  "serve (decide \<lparr>outcome = refused, reason_code = Some ''schema-unknown-member'', class_of = ''read'', elapsed_seconds = 299,
      offline = ''deny'', wedge_grace_seconds = wedge_grace_default_seconds\<rparr>)
   \<and> \<not> serve (decide \<lparr>outcome = refused, reason_code = Some ''mandate-revoked'', class_of = ''read'', elapsed_seconds = 0,
      offline = ''allow'', wedge_grace_seconds = wedge_grace_default_seconds\<rparr>)"
proof -
  have n: "refused \<noteq> accepted" "refused \<noteq> unreachable" by (simp_all add: refused_def accepted_def unreachable_def)
  let ?a = "\<lparr>outcome = refused, reason_code = Some ''schema-unknown-member'', class_of = ''read'', elapsed_seconds = 299,
      offline = ''deny'', wedge_grace_seconds = wedge_grace_default_seconds\<rparr>"
  let ?b = "\<lparr>outcome = refused, reason_code = Some ''mandate-revoked'', class_of = ''read'', elapsed_seconds = 0,
      offline = ''allow'', wedge_grace_seconds = wedge_grace_default_seconds\<rparr>"
  have d: "\<not> denies_every_class ''schema-unknown-member''" "denies_every_class ''mandate-revoked''" by code_simp+
  show ?thesis
    using refusal_grace_exact [of ?a "''schema-unknown-member''"] refusal_grace_exact [of ?b "''mandate-revoked''"] n d
    by (simp add: wedge_grace_default_seconds_def)
qed

end
