(* ===== verification/Policy.thy ===== *)
theory Policy
  imports Scope Sync
begin

text \<open>
  Policy documents, \<open>stozher-kernel/src/policy.rs\<close>: \<open>parse\<close> with its validators, the classification of an
  action (step 1 of the evaluation order), the decision of the gate rules (step 4), retention, and the
  baseline profile. A document is a JSON value; \<open>index\<close> is the code's bracket, which is null for a member
  that is not there.
\<close>

section \<open>The document\<close>

definition members :: "string list" where
  "members =
     [''v'', ''kind'', ''policy-version'', ''issued-at'', ''profile'', ''revoke-cached'', ''max-staleness-seconds'',
      ''checkpoint-interval'', ''aggregate-max-window'', ''classification'', ''gate-rules'', ''evidence-ttl'', ''budgets'',
      ''delegation'', ''offline'', ''wedge-grace'', ''sig'']"

definition optional_members :: "string list" where
  "optional_members = [''wedge-grace'']"

datatype gate_decision = Allow | Gate (approvers: "string list") | Deny

record policy =
  document :: json
  policy_version :: string
  document_hash :: string
  policy_key :: key_id

record classify_input =
  subject :: string
  action_name :: string
  resource_name :: string
  manifest_class :: "string option"

definition string_member :: "jmap \<Rightarrow> string \<Rightarrow> string res" where
  "string_member m name = ok_or (Option.bind (map_of m name) as_str) ''schema-missing-member''"

definition require_class :: "string \<Rightarrow> unit res" where
  "require_class class = check (class \<in> set classes) ''envelope-classification-unknown''"

definition class_weight :: "string \<Rightarrow> nat" where
  "class_weight class =
     (if class = ''read'' then 0 else if class = ''benign'' then 1 else if class = ''consequential'' then 2
      else if class = ''prohibited'' then 3 else 255)"

section \<open>Classification\<close>

definition dimension_weight :: nat where "dimension_weight = 2"

text \<open>What one dimension adds to the score, or \<open>None\<close> when it does not match.\<close>

definition dimension_score :: "string option \<Rightarrow> string \<Rightarrow> nat option" where
  "dimension_score pattern value =
     (case pattern of
        None \<Rightarrow> Some 0
      | Some p \<Rightarrow>
          if p = star then Some 0
          else if p = value then Some dimension_weight
          else
            (case strip_suffix p dot_star of
               None \<Rightarrow> None
             | Some prefix \<Rightarrow>
                 if length value > length prefix \<and> starts_with value prefix \<and> value ! length prefix = CHR ''.''
                 then Some (dimension_weight div 2) else None))"

text \<open>The running score over the three dimensions, stopping at the first that does not match.\<close>

fun specificity_of :: "nat \<Rightarrow> (string option \<times> string) list \<Rightarrow> nat option" where
  "specificity_of score [] = Some score"
| "specificity_of score ((pattern, value) # rest) =
     (case dimension_score pattern value of None \<Rightarrow> None | Some w \<Rightarrow> specificity_of (score + w) rest)"

definition reclassify_match :: "json \<Rightarrow> classify_input \<Rightarrow> (nat \<times> string) option" where
  "reclassify_match entry input =
     Option.bind
       (specificity_of 0
          [(as_str (index entry ''subject''), subject input), (as_str (index entry ''action''), action_name input),
           (get_str entry ''resource'', resource_name input)])
       (\<lambda>score. Option.bind (as_str (index entry ''class'')) (\<lambda>class. Some (score, class)))"

text \<open>The best entry so far; a later one replaces it only when it is strictly more specific.\<close>

definition better :: "classify_input \<Rightarrow> (nat \<times> string) option \<Rightarrow> json \<Rightarrow> (nat \<times> string) option" where
  "better input best entry =
     (case reclassify_match entry input of
        None \<Rightarrow> best
      | Some (score, class) \<Rightarrow>
          if (case best of None \<Rightarrow> True | Some (current, _) \<Rightarrow> score > current) then Some (score, class) else best)"

definition classify :: "json \<Rightarrow> classify_input \<Rightarrow> string" where
  "classify doc input =
     (let classification = index doc ''classification'';
          best = (case as_array (index classification ''reclassify'') of
                    Some entries \<Rightarrow> foldl (better input) None entries
                  | None \<Rightarrow> None)
      in
        case best of
          Some (_, class) \<Rightarrow> class
        | None \<Rightarrow>
            (case get_str (index classification ''by-action'') (action_name input) of
               Some class \<Rightarrow> class
             | None \<Rightarrow>
                 (case manifest_class input of
                    Some class \<Rightarrow> class
                  | None \<Rightarrow>
                      (case as_str (index classification ''default-unknown'') of
                         Some class \<Rightarrow> class
                       | None \<Rightarrow> ''consequential''))))"

section \<open>Gate rules\<close>

text \<open>Whether a rule applies to a class and an action; the action \<open>*\<close> asks about the class alone.\<close>

definition rule_applies :: "string \<Rightarrow> string \<Rightarrow> json \<Rightarrow> bool" where
  "rule_applies class act rule \<longleftrightarrow>
     (case as_array (index rule ''classes'') of
        Some cs \<Rightarrow> list_ex (\<lambda>c. as_str c = Some class) cs
      | None \<Rightarrow> False)
     \<and> (act = star \<or>
        (case Option.bind (get rule ''actions'') as_array of
           Some actions \<Rightarrow> list_ex (\<lambda>pattern. matches pattern act) (List.map_filter as_str actions)
         | None \<Rightarrow> True))"

definition rule_decision :: "json \<Rightarrow> gate_decision" where
  "rule_decision rule =
     (if as_str (index rule ''decision'') = Some ''allow'' then Allow
      else if as_str (index rule ''decision'') = Some ''gate'' then
        Gate (case as_array (index rule ''approvers'') of Some l \<Rightarrow> List.map_filter as_str l | None \<Rightarrow> [])
      else Deny)"

fun decide_rules :: "string \<Rightarrow> string \<Rightarrow> json list \<Rightarrow> gate_decision" where
  "decide_rules class act [] = Deny"
| "decide_rules class act (rule # rules) =
     (if \<not> rule_applies class act rule then decide_rules class act rules else rule_decision rule)"

definition decision_for :: "json \<Rightarrow> string \<Rightarrow> string \<Rightarrow> gate_decision" where
  "decision_for doc class act =
     (case as_array (index doc ''gate-rules'') of
        None \<Rightarrow> Deny
      | Some rules \<Rightarrow> decide_rules class act rules)"

section \<open>Accessors\<close>

definition revoke_cached :: "json \<Rightarrow> bool" where
  "revoke_cached doc = (case as_bool (index doc ''revoke-cached'') of Some b \<Rightarrow> b | None \<Rightarrow> False)"

definition max_staleness_seconds :: "json \<Rightarrow> u64" where
  "max_staleness_seconds doc = (case as_u64 (index doc ''max-staleness-seconds'') of Some n \<Rightarrow> n | None \<Rightarrow> 0)"

text \<open>A duration member in seconds, with its default.\<close>

definition duration_or :: "json \<Rightarrow> int \<Rightarrow> int" where
  "duration_or v otherwise =
     (case as_str v of
        Some d \<Rightarrow> (case parse_duration_seconds d of Inr n \<Rightarrow> n | Inl _ \<Rightarrow> otherwise)
      | None \<Rightarrow> otherwise)"

definition checkpoint_interval_seconds :: "json \<Rightarrow> int" where
  "checkpoint_interval_seconds doc = duration_or (index doc ''checkpoint-interval'') 3600"

definition wedge_grace_seconds_of :: "json \<Rightarrow> int" where
  "wedge_grace_seconds_of doc = duration_or (index doc ''wedge-grace'') wedge_grace_default_seconds"

definition aggregate_max_window_seconds :: "json \<Rightarrow> int" where
  "aggregate_max_window_seconds doc = duration_or (index doc ''aggregate-max-window'') 300"

definition policy_max_depth :: "json \<Rightarrow> u32" where
  "policy_max_depth doc =
     (let n = (case as_u64 (index (index doc ''delegation'') ''max-depth'') of Some n \<Rightarrow> n | None \<Rightarrow> 3)
      in if unat n < 2 ^ 32 then ucast n else 3)"

definition standing_lifetime_ceiling :: "json \<Rightarrow> string \<Rightarrow> string res" where
  "standing_lifetime_ceiling doc issued_at =
     add_duration issued_at
       (case as_str (index (index doc ''delegation'') ''max-standing-lifetime'') of Some d \<Rightarrow> d | None \<Rightarrow> ''P90D'')"

definition retention_ceiling :: "json \<Rightarrow> string \<Rightarrow> string \<Rightarrow> string res" where
  "retention_ceiling doc class emitted_at =
     and_then (ok_or (get_str (index doc ''evidence-ttl'') class) ''schema-missing-member'') (\<lambda>ttl.
       add_duration emitted_at ttl)"

definition stores_payloads :: "json \<Rightarrow> string \<Rightarrow> bool" where
  "stores_payloads doc class \<longleftrightarrow>
     (case get_str (index doc ''evidence-ttl'') class of
        Some ttl \<Rightarrow> (case parse_duration_seconds ttl of Inr n \<Rightarrow> n | Inl _ \<Rightarrow> 0)
      | None \<Rightarrow> 0) > 0"

section \<open>Validation\<close>

text \<open>The two loops every closed object of the document goes through.\<close>

definition closed :: "string list \<Rightarrow> jmap \<Rightarrow> unit res" where
  "closed names m = for_each (\<lambda>key. check (key \<in> set names) ''schema-unknown-member'') (List.map fst m)"

definition complete :: "string list \<Rightarrow> jmap \<Rightarrow> unit res" where
  "complete names m = for_each (\<lambda>r. check (contains_key m r) ''schema-missing-member'') names"

definition validate_reclassify :: "json \<Rightarrow> unit res" where
  "validate_reclassify entry =
     and_then (ok_or (as_object entry) ''schema-type-mismatch'') (\<lambda>m.
     and_then (closed [''subject'', ''action'', ''resource'', ''class'', ''reason''] m) (\<lambda>_.
     and_then (complete [''subject'', ''action'', ''class''] m) (\<lambda>_.
       require_class (str_or_empty (index entry ''class'')))))"

definition validate_policy_classification :: "json \<Rightarrow> unit res" where
  "validate_policy_classification doc =
     and_then (ok_or (as_object (index doc ''classification'')) ''schema-type-mismatch'') (\<lambda>c.
     and_then (closed [''default-unknown'', ''by-action'', ''reclassify''] c) (\<lambda>_.
     and_then (ok_or (Option.bind (map_of c ''default-unknown'') as_str) ''schema-missing-member'') (\<lambda>fallback.
     and_then (require_class fallback) (\<lambda>_.
     and_then (ok_or (Option.bind (map_of c ''by-action'') as_object) ''schema-type-mismatch'') (\<lambda>by_action.
     and_then (for_each (\<lambda>kv. require_class (str_or_empty (snd kv))) by_action) (\<lambda>_.
     and_then (ok_or (Option.bind (map_of c ''reclassify'') as_array) ''schema-type-mismatch'') (\<lambda>entries.
       for_each validate_reclassify entries)))))))"

definition human_prefix :: string where "human_prefix = ''human:''"

definition validate_approver :: "json \<Rightarrow> unit res" where
  "validate_approver approver =
     and_then (ok_or (as_str approver) ''schema-type-mismatch'') (\<lambda>s.
       if \<not> starts_with s human_prefix \<or> length s \<le> length human_prefix then Inl (err ''gate-approver-not-human'')
       else Inr ())"

definition validate_rule :: "json \<Rightarrow> unit res" where
  "validate_rule rule =
     and_then (ok_or (as_object rule) ''schema-type-mismatch'') (\<lambda>m.
     and_then (closed [''classes'', ''decision'', ''approvers'', ''actions''] m) (\<lambda>_.
     and_then
       (case map_of m ''actions'' of
          None \<Rightarrow> Inr ()
        | Some actions \<Rightarrow>
            and_then (ok_or (as_array actions) ''schema-type-mismatch'') (\<lambda>patterns.
              for_each (\<lambda>p. check (as_str p \<noteq> None) ''schema-type-mismatch'') patterns)) (\<lambda>_.
     and_then (ok_or (Option.bind (map_of m ''classes'') as_array) ''schema-missing-member'') (\<lambda>cs.
     and_then (for_each (\<lambda>c. require_class (str_or_empty c)) cs) (\<lambda>_.
       (let verdict = Option.bind (map_of m ''decision'') as_str in
        if verdict = Some ''allow'' \<or> verdict = Some ''deny'' then
          check (\<not> contains_key m ''approvers'') ''schema-unknown-member''
        else if verdict = Some ''gate'' then
          and_then (ok_or (Option.bind (map_of m ''approvers'') as_array) ''schema-missing-member'') (\<lambda>l.
            if l = [] then Inl (err ''gate-approver-not-permitted'') else for_each validate_approver l)
        else Inl (err ''schema-type-mismatch'')))))))"

definition validate_gate_rules :: "json \<Rightarrow> unit res" where
  "validate_gate_rules doc =
     and_then (ok_or (as_array (index doc ''gate-rules'')) ''schema-type-mismatch'') (\<lambda>rules. for_each validate_rule rules)"

definition validate_duration :: "string \<Rightarrow> unit res" where
  "validate_duration d = and_then (parse_duration_seconds d) (\<lambda>_. Inr ())"

definition validate_retention :: "json \<Rightarrow> unit res" where
  "validate_retention doc =
     and_then (ok_or (as_object (index doc ''evidence-ttl'')) ''schema-type-mismatch'') (\<lambda>ttl.
     and_then (for_each require_class (List.map fst ttl)) (\<lambda>_.
       for_each (\<lambda>class.
         and_then (ok_or (Option.bind (map_of ttl class) as_str) ''schema-missing-member'') validate_duration) classes))"

definition validate_delegation :: "json \<Rightarrow> unit res" where
  "validate_delegation doc =
     and_then (ok_or (as_object (index doc ''delegation'')) ''schema-type-mismatch'') (\<lambda>m.
     and_then (closed [''max-depth'', ''max-standing-lifetime''] m) (\<lambda>_.
     and_then (ok_or (Option.bind (map_of m ''max-depth'') as_u64) ''schema-missing-member'') (\<lambda>_.
     and_then (ok_or (Option.bind (map_of m ''max-standing-lifetime'') as_str) ''schema-missing-member'') validate_duration)))"

definition is_gate :: "gate_decision \<Rightarrow> bool" where
  "is_gate g \<longleftrightarrow> (case g of Gate _ \<Rightarrow> True | _ \<Rightarrow> False)"

definition validate_offline :: "json \<Rightarrow> unit res" where
  "validate_offline doc =
     and_then (ok_or (as_object (index doc ''offline'')) ''schema-type-mismatch'') (\<lambda>m.
     and_then (for_each (\<lambda>(class, behaviour).
         and_then (require_class class) (\<lambda>_.
           check (as_str behaviour \<in> {Some ''allow'', Some ''block'', Some ''degrade''}) ''schema-type-mismatch'')) m) (\<lambda>_.
       if Option.bind (map_of m ''consequential'') as_str = Some ''allow'' \<and> is_gate (decision_for doc ''consequential'' star)
       then Inl (err ''policy-offline-allows-gated'')
       else Inr ()))"

definition validate_scalars :: "jmap \<Rightarrow> unit res" where
  "validate_scalars m =
     and_then (string_member m ''profile'') (\<lambda>_.
     and_then (string_member m ''issued-at'') (\<lambda>issued.
     and_then (parse_timestamp issued) (\<lambda>_.
     and_then (check (Option.bind (map_of m ''revoke-cached'') as_bool \<noteq> None) ''schema-type-mismatch'') (\<lambda>_.
     and_then (check (Option.bind (map_of m ''max-staleness-seconds'') as_u64 \<noteq> None) ''schema-type-mismatch'') (\<lambda>_.
     and_then (for_each (\<lambda>d. and_then (string_member m d) validate_duration)
         [''checkpoint-interval'', ''aggregate-max-window'']) (\<lambda>_.
       if contains_key m ''wedge-grace'' then and_then (string_member m ''wedge-grace'') validate_duration
       else Inr ()))))))"

definition validate_document :: "json \<Rightarrow> unit res" where
  "validate_document doc =
     and_then (validate_policy_classification doc) (\<lambda>_.
     and_then (validate_gate_rules doc) (\<lambda>_.
     and_then (validate_retention doc) (\<lambda>_.
     and_then (validate_delegation doc) (\<lambda>_.
       validate_offline doc))))"

definition parse_policy :: "ext \<Rightarrow> json \<Rightarrow> key_id \<Rightarrow> policy res" where
  "parse_policy x doc key =
     and_then (ok_or (as_object doc) ''schema-type-mismatch'') (\<lambda>m.
     and_then (closed members m) (\<lambda>_.
     and_then (complete (filter (\<lambda>r. r \<notin> set optional_members) members) m) (\<lambda>_.
       if as_str (index doc ''v'') \<noteq> Some version then Inl (err ''envelope-version-unsupported'')
       else if as_str (index doc ''kind'') \<noteq> Some ''policy'' then Inl (err ''envelope-unknown-kind'')
       else
         and_then (map_err (\<lambda>_. err ''policy-sig-invalid'') (verify_signed_object x doc)) (\<lambda>signer.
           if signer \<noteq> key then Inl (err ''policy-sig-invalid'')
           else
             and_then (string_member m ''policy-version'') (\<lambda>v.
               if v = [] then Inl (err ''schema-type-mismatch'')
               else
                 and_then (validate_scalars m) (\<lambda>_.
                 and_then (object_hash x doc) (\<lambda>h.
                 and_then (validate_document doc) (\<lambda>_.
                   Inr \<lparr>document = doc, policy_version = v, document_hash = h, policy_key = key\<rparr>))))))))"


section \<open>Accepted documents\<close>

lemma require_class_eq [simp]: "require_class c = Inr u \<longleftrightarrow> c \<in> set classes"
  by (simp add: require_class_def)

lemma parse_policy_facts:
  assumes "parse_policy x doc key = Inr p"
  shows "document p = doc \<and> policy_key p = key \<and> verify_signed_object x doc = Inr key
    \<and> object_hash x doc = Inr (document_hash p) \<and> validate_document doc = Inr ()"
  using assms unfolding parse_policy_def by (auto split: if_splits)

lemma validate_document_parts:
  assumes "validate_document doc = Inr ()"
  shows "validate_policy_classification doc = Inr () \<and> validate_gate_rules doc = Inr () \<and> validate_retention doc = Inr ()
    \<and> validate_delegation doc = Inr () \<and> validate_offline doc = Inr ()"
  using assms unfolding validate_document_def by auto

section \<open>Classification\<close>

lemma index_of: "as_object v = Some m \<Longrightarrow> index v k = (case map_of m k of Some w \<Rightarrow> w | None \<Rightarrow> JNull)"
  by (simp add: index_def)

lemma validated_reclassify:
  assumes "validate_reclassify entry = Inr u" and "reclassify_match entry input = Some (s, c)"
  shows "c \<in> set classes"
  using assms by (auto simp: validate_reclassify_def reclassify_match_def str_or_empty_def bind_eq_Some_conv)

text \<open>The best entry is the first of the most specific ones.\<close>

definition score_below :: "classify_input \<Rightarrow> nat \<Rightarrow> json \<Rightarrow> bool" where
  "score_below input n entry \<longleftrightarrow> (\<forall>s c. reclassify_match entry input = Some (s, c) \<longrightarrow> s < n)"

definition first_best :: "classify_input \<Rightarrow> json list \<Rightarrow> nat \<Rightarrow> string \<Rightarrow> bool" where
  "first_best input entries s c \<longleftrightarrow>
     (\<exists>xs e ys. entries = xs @ e # ys \<and> reclassify_match e input = Some (s, c)
        \<and> list_all (score_below input s) xs \<and> list_all (score_below input (Suc s)) ys)"

lemma score_below_mono: "score_below input n e \<Longrightarrow> n \<le> m \<Longrightarrow> score_below input m e"
  by (force simp: score_below_def)

lemma better_simps:
  "reclassify_match e input = None \<Longrightarrow> better input b e = b"
  "reclassify_match e input = Some (s, c) \<Longrightarrow>
     better input b e = (if case b of None \<Rightarrow> True | Some (t, _) \<Rightarrow> s > t then Some (s, c) else b)"
  by (simp_all add: better_def)

lemma better_best:
  "case foldl (better input) None entries of
     None \<Rightarrow> list_all (\<lambda>e. reclassify_match e input = None) entries
   | Some (s, c) \<Rightarrow> first_best input entries s c"
proof (induction entries rule: rev_induct)
  case (snoc e es)
  let ?b = "foldl (better input) None es"
  show ?case
  proof (cases "reclassify_match e input")
    case None
    then have "score_below input n e" for n by (simp add: score_below_def)
    then have "first_best input (es @ [e]) s c" if "first_best input es s c" for s c
    proof -
      from that obtain xs f ys where "es = xs @ f # ys" "reclassify_match f input = Some (s, c)"
        "list_all (score_below input s) xs" "list_all (score_below input (Suc s)) ys" unfolding first_best_def by blast
      with \<open>\<And>n. score_below input n e\<close> show ?thesis
        unfolding first_best_def by (intro exI [of _ xs] exI [of _ f] exI [of _ "ys @ [e]"]) simp
    qed
    with snoc None show ?thesis by (auto simp: better_simps(1) split: option.splits)
  next
    case (Some sc)
    obtain s c where sc: "sc = (s, c)" by (cases sc)
    show ?thesis
    proof (cases ?b)
      case None
      with snoc have "list_all (score_below input s) es" by (auto simp: list_all_iff score_below_def)
      with None Some sc show ?thesis by (auto simp: better_simps(2) first_best_def intro!: exI [of _ es])
    next
      case b: (Some tc)
      obtain t d where tc: "tc = (t, d)" by (cases tc)
      from snoc b tc obtain xs e0 ys where f: "es = xs @ e0 # ys" "reclassify_match e0 input = Some (t, d)"
        "list_all (score_below input t) xs" "list_all (score_below input (Suc t)) ys" by (auto simp: first_best_def)
      show ?thesis
      proof (cases "s > t")
        case True
        have "list_all (score_below input s) es"
          using f True by (auto simp: list_all_iff score_below_def)
        with b tc Some sc True show ?thesis by (auto simp: better_simps(2) first_best_def intro!: exI [of _ es])
      next
        case False
        then have "score_below input (Suc t) e" by (simp add: score_below_def Some sc)
        with f b tc Some sc False show ?thesis
          by (auto simp: better_simps(2) first_best_def intro!: exI [of _ xs])
      qed
    qed
  qed
qed simp

lemma classify_known:
  assumes "validate_policy_classification doc = Inr ()"
    and "case manifest_class input of None \<Rightarrow> True | Some c \<Rightarrow> c \<in> set classes"
  shows "classify doc input \<in> set classes"
proof -
  obtain c default by_action entries where v: "index doc ''classification'' = JObject c"
    "map_of c ''default-unknown'' = Some (JString default)" "default \<in> set classes"
    "map_of c ''by-action'' = Some (JObject by_action)" "\<forall>kv \<in> set by_action. str_or_empty (snd kv) \<in> set classes"
    "map_of c ''reclassify'' = Some (JArray entries)" "\<forall>e \<in> set entries. validate_reclassify e = Inr ()"
    using assms(1) by (auto simp: validate_policy_classification_def for_each_eq_Inr bind_eq_Some_conv)
  have ba: "k \<in> set classes" if "get_str (JObject by_action) a = Some k" for a k
  proof -
    from that have "(a, JString k) \<in> set by_action" by (auto simp: get_str_eq_Some dest: map_of_SomeD)
    with v(5) show ?thesis by (force simp: str_or_empty_def)
  qed
  have best: "k \<in> set classes" if "foldl (better input) None entries = Some (s, k)" for s k
    using better_best [of input entries] that v(7) validated_reclassify by (fastforce simp: first_best_def)
  have i: "index (JObject c) ''reclassify'' = JArray entries" "index (JObject c) ''by-action'' = JObject by_action"
    "index (JObject c) ''default-unknown'' = JString default" using v(2,4,6) by (simp_all add: index_def)
  show ?thesis
  proof (cases "foldl (better input) None entries")
    case (Some sk)
    then show ?thesis using best by (cases sk) (simp add: classify_def v(1) i Let_def)
  next
    case None
    then show ?thesis using ba v(3) assms(2)
      by (auto simp: classify_def v(1) i Let_def split: option.splits)
  qed
qed

section \<open>Gate rules\<close>

definition named_human :: "string \<Rightarrow> bool" where
  "named_human s \<longleftrightarrow> starts_with s human_prefix \<and> length s > length human_prefix"

lemma decide_rules_find:
  "decide_rules class act rules = (case List.find (rule_applies class act) rules of None \<Rightarrow> Deny | Some r \<Rightarrow> rule_decision r)"
  by (induction rules) auto

lemma validated_rule:
  assumes "validate_rule rule = Inr u" and "rule_decision rule = Gate l"
  shows "l \<noteq> [] \<and> list_all named_human l"
proof -
  from assms(2) have g: "as_str (index rule ''decision'') = Some ''gate''"
    and l: "l = (case as_array (index rule ''approvers'') of Some l \<Rightarrow> List.map_filter as_str l | None \<Rightarrow> [])"
    by (auto simp: rule_decision_def split: if_splits)
  from assms(1) obtain m where m: "rule = JObject m" by (auto simp: validate_rule_def)
  from g m have d: "map_of m ''decision'' = Some (JString ''gate'')" by (auto simp: index_def split: option.splits)
  from assms(1) obtain a where a: "map_of m ''approvers'' = Some (JArray a)" "a \<noteq> []" "\<forall>v \<in> set a. validate_approver v = Inr ()"
    by (auto simp: validate_rule_def m d Let_def for_each_eq_Inr bind_eq_Some_conv)
  have h: "\<exists>s. v = JString s \<and> named_human s" if "v \<in> set a" for v
    using a(3) that by (auto simp: validate_approver_def named_human_def)
  have "\<exists>ss. l = ss \<and> a = List.map JString ss \<and> list_all named_human ss"
  proof -
    have "\<exists>ss. a = List.map JString ss \<and> list_all named_human ss" using h
    proof (induction a)
      case (Cons v a)
      then obtain ss where "a = List.map JString ss" "list_all named_human ss" by auto
      moreover from Cons.prems [of v] obtain s where "v = JString s" "named_human s" by auto
      ultimately show ?case by (intro exI [of _ "s # ss"]) simp
    qed simp
    then obtain ss where ss: "a = List.map JString ss" "list_all named_human ss" by blast
    have "List.map_filter as_str (List.map JString ss) = ss" by (induction ss) (auto simp: List.map_filter_simps)
    with ss l show ?thesis by (simp add: m index_def a(1))
  qed
  with a(2) show ?thesis by auto
qed

lemma validated_gate:
  assumes "validate_gate_rules doc = Inr ()" and "decision_for doc class act = Gate l"
  shows "l \<noteq> [] \<and> list_all named_human l"
proof -
  from assms(1) obtain rules where r: "index doc ''gate-rules'' = JArray rules" "\<forall>r \<in> set rules. validate_rule r = Inr ()"
    by (auto simp: validate_gate_rules_def for_each_eq_Inr)
  from assms(2) obtain rule where "List.find (rule_applies class act) rules = Some rule" "rule_decision rule = Gate l"
    by (auto simp: decision_for_def r(1) decide_rules_find split: option.splits)
  then show ?thesis using validated_rule [of rule "()" l] r(2) by (auto simp: find_Some_iff)
qed


section \<open>The baseline profile\<close>

text \<open>\<open>baseline_conservative\<close>, with the members of each object in map order.\<close>

definition baseline_by_action :: "(string \<times> string) list" where
  "baseline_by_action =
     [(''fs.read_file'', ''read''), (''gateway.downstream_unavailable'', ''benign''), (''gateway.session_open'', ''benign''),
      (''github.create_issue'', ''consequential''), (''github.delete_repo'', ''prohibited''), (''github.get_file'', ''read''),
      (''github.list_issues'', ''read''), (''kernel.conformance_run'', ''benign''), (''kernel.enroll_root'', ''consequential''),
      (''kernel.erase_payload'', ''consequential''), (''kernel.publish_policy'', ''consequential''),
      (''kernel.register_component'', ''consequential''), (''kernel.retire_root'', ''consequential''),
      (''kernel.seed_catalog_entry'', ''consequential''), (''slack.post_message'', ''consequential'')]"

definition baseline_conservative :: "string \<Rightarrow> string \<Rightarrow> string list \<Rightarrow> json" where
  "baseline_conservative version_text issued_at names = JObject
     [(''aggregate-max-window'', JString ''PT5M''),
      (''budgets'', JObject [(''defaults'', JObject [(''money-eur'', JString ''50.00''), (''requests'', JNumber (PosInt 10000))])]),
      (''checkpoint-interval'', JString ''PT1H''),
      (''classification'', JObject
         [(''by-action'', JObject (List.map (\<lambda>(k, c). (k, JString c)) baseline_by_action)),
          (''default-unknown'', JString ''consequential''), (''reclassify'', JArray [])]),
      (''delegation'', JObject [(''max-depth'', JNumber (PosInt 3)), (''max-standing-lifetime'', JString ''P90D'')]),
      (''evidence-ttl'', JObject
         [(''benign'', JString ''P30D''), (''consequential'', JString ''P365D''), (''prohibited'', JString ''P3650D''),
          (''read'', JString ''P0D'')]),
      (''gate-rules'', JArray
         [JObject [(''classes'', JArray [JString ''prohibited'']), (''decision'', JString ''deny'')],
          JObject [(''approvers'', JArray (List.map JString names)), (''classes'', JArray [JString ''consequential'']),
            (''decision'', JString ''gate'')],
          JObject [(''classes'', JArray [JString ''read'', JString ''benign'']), (''decision'', JString ''allow'')]]),
      (''issued-at'', JString issued_at), (''kind'', JString ''policy''), (''max-staleness-seconds'', JNumber (PosInt 300)),
      (''offline'', JObject
         [(''benign'', JString ''allow''), (''consequential'', JString ''block''), (''prohibited'', JString ''block''),
          (''read'', JString ''allow'')]),
      (''policy-version'', JString version_text), (''profile'', JString ''baseline-conservative''),
      (''revoke-cached'', JBool False), (''v'', JString version)]"

definition small_policy :: json where
  "small_policy = JObject
     [(''aggregate-max-window'', JString ''PT5M''), (''budgets'', JNull), (''checkpoint-interval'', JString ''PT1H''),
      (''classification'', JObject
         [(''by-action'', JObject []), (''default-unknown'', JString ''consequential''), (''reclassify'', JArray [])]),
      (''delegation'', JObject [(''max-depth'', demo_num 3), (''max-standing-lifetime'', JString ''P90D'')]),
      (''evidence-ttl'', JObject
         [(''benign'', JString ''P30D''), (''consequential'', JString ''P9D''), (''prohibited'', JString ''P9D''), (''read'', JString ''P0D'')]),
      (''gate-rules'', JArray
         [JObject [(''approvers'', JArray [JString ''human:h'']), (''classes'', JArray [JString ''consequential'']),
            (''decision'', JString ''gate'')]]),
      (''issued-at'', JString ''2026-01-01T00:00:00.000Z''), (''kind'', JString ''policy''),
      (''max-staleness-seconds'', demo_num 3), (''offline'', JObject []), (''policy-version'', JString ''1''),
      (''profile'', JString ''p''), (''revoke-cached'', JBool False), (''v'', JString version)]"

definition demo_policy :: json where
  "demo_policy = demo_signed small_policy"

lemma demo_policy_accepted: "\<exists>p. parse_policy demo_ext demo_policy (KeyId demo_key) = Inr p"
proof -
  have "(case parse_policy demo_ext demo_policy (KeyId demo_key) of Inr p \<Rightarrow> True | Inl e \<Rightarrow> False)" by code_simp
  then show ?thesis by (auto split: sum.splits)
qed

text \<open>A policy whose first rule for \<open>consequential\<close> allows one action and whose second gates every other.\<close>

definition shadowed_rules :: json where
  "shadowed_rules = JObject
     [(''gate-rules'', JArray
         [JObject [(''actions'', JArray [JString ''a'']), (''classes'', JArray [JString ''consequential'']), (''decision'', JString ''allow'')],
          JObject [(''approvers'', JArray [JString ''human:h'']), (''classes'', JArray [JString ''consequential'']),
            (''decision'', JString ''gate'')]]),
      (''offline'', JObject [(''consequential'', JString ''allow'')])]"

section \<open>Properties\<close>

text \<open>Every action has a class: under an accepted policy, whatever the subject, action and resource, and whatever
  known class a component's manifest proposes, the classification is one of the four classes.\<close>

lemma classification_is_closed:
  assumes "parse_policy x doc key = Inr p"
    and "case manifest_class input of None \<Rightarrow> True | Some c \<Rightarrow> c \<in> set classes"
  shows "classify (document p) input \<in> set classes"
  using parse_policy_facts [OF assms(1)] validate_document_parts classify_known assms(2) by blast

theorem classification_is_closed_witness:
  "\<exists>p. parse_policy demo_ext demo_policy (KeyId demo_key) = Inr p
     \<and> classify (document p) \<lparr>subject = ''agent:a'', action_name = ''x'', resource_name = ''r'', manifest_class = None\<rparr> \<in> set classes"
  using demo_policy_accepted classification_is_closed
    [of demo_ext demo_policy "KeyId demo_key" _ "\<lparr>subject = ''agent:a'', action_name = ''x'', resource_name = ''r'', manifest_class = None\<rparr>"]
  by fastforce

text \<open>Among reclassifications the most specific wins, and the first of equals: when the entries decide the class,
  it is the class of an entry that matches, that no entry before it equals in specificity and none after exceeds.\<close>

lemma most_specific_reclassification:
  assumes "as_array (index (index doc ''classification'') ''reclassify'') = Some entries"
    and "\<not> list_all (\<lambda>e. reclassify_match e input = None) entries"
  shows "\<exists>s. first_best input entries s (classify doc input)"
proof -
  from assms(2) better_best [of input entries] obtain s c where "foldl (better input) None entries = Some (s, c)"
    "first_best input entries s c" by (auto split: option.splits)
  with assms(1) show ?thesis by (auto simp: classify_def Let_def)
qed

theorem most_specific_reclassification_witness:
  "\<exists>s. first_best \<lparr>subject = ''agent:a'', action_name = ''fs.read'', resource_name = ''r'', manifest_class = None\<rparr>
     [JObject [(''action'', JString ''fs.*''), (''class'', JString ''benign''), (''subject'', JString ''*'')],
      JObject [(''action'', JString ''fs.read''), (''class'', JString ''read''), (''subject'', JString ''*'')]] s ''read''"
proof -
  let ?es = "[JObject [(''action'', JString ''fs.*''), (''class'', JString ''benign''), (''subject'', JString ''*'')],
      JObject [(''action'', JString ''fs.read''), (''class'', JString ''read''), (''subject'', JString ''*'')]]"
  let ?i = "\<lparr>subject = ''agent:a'', action_name = ''fs.read'', resource_name = ''r'', manifest_class = None\<rparr>"
  let ?doc = "JObject [(''classification'', JObject [(''reclassify'', JArray ?es)])]"
  have a: "as_array (index (index ?doc ''classification'') ''reclassify'') = Some ?es" by code_simp
  have m: "reclassify_match (?es ! 1) ?i = Some (2, ''read'')" by code_simp
  then have n: "\<not> list_all (\<lambda>e. reclassify_match e ?i = None) ?es" by simp
  have c: "classify ?doc ?i = ''read''" by code_simp
  from most_specific_reclassification [OF a n] show ?thesis unfolding c .
qed

text \<open>The first rule that applies decides, and what no rule names is denied: the decision for a class and an action
  is the decision of the first rule of the document that lists the class and has no action list or one that matches
  the action, and denial when there is none or no rules at all.\<close>

lemma first_rule_decides:
  "decision_for doc class act =
     (case List.find (rule_applies class act) (case as_array (index doc ''gate-rules'') of Some rules \<Rightarrow> rules | None \<Rightarrow> []) of
        None \<Rightarrow> Deny
      | Some rule \<Rightarrow> rule_decision rule)"
  by (auto simp: decision_for_def decide_rules_find split: option.splits)

text \<open>C9: A gate can be opened by named humans only: under an accepted policy every gate decision names at least one
  approver, and each is a non-empty name in the human namespace.\<close>

theorem gates_name_humans:
  assumes "parse_policy x doc key = Inr p" and "decision_for (document p) class act = Gate l"
  shows "l \<noteq> [] \<and> list_all named_human l"
  using parse_policy_facts [OF assms(1)] validate_document_parts validated_gate assms(2) by metis

theorem gates_name_humans_witness:
  "\<exists>p. parse_policy demo_ext demo_policy (KeyId demo_key) = Inr p
     \<and> decision_for (document p) ''consequential'' ''slack.post_message'' = Gate [''human:h''] \<and> list_all named_human [''human:h'']"
proof -
  obtain p where p: "parse_policy demo_ext demo_policy (KeyId demo_key) = Inr p" using demo_policy_accepted ..
  have "decision_for demo_policy ''consequential'' ''slack.post_message'' = Gate [''human:h'']" by code_simp
  then have d: "decision_for (document p) ''consequential'' ''slack.post_message'' = Gate [''human:h'']"
    using parse_policy_facts [OF p] by simp
  from gates_name_humans [OF p d] p d show ?thesis by blast
qed



end
