(* ===== verification/Budget.thy ===== *)
theory Budget
  imports Envelope Decimal
begin

text \<open>
  Budget accounting, \<open>stozher-kernel/src/budget.rs\<close>: what one envelope adds to the running totals, and the
  dimensions on which a charge would exceed a cap. A \<open>BTreeMap<String, String>\<close> that is only looked up and
  extended is a partial map. The arithmetic is the locale \<open>exact_amounts\<close> at its decimal interpretation.
\<close>

section \<open>The model\<close>

type_synonym amounts = "string \<rightharpoonup> string"

text \<open>\<open>Number::is_i64\<close> and \<open>to_string\<close>: the text of an integer, or nothing for a binary64 or a larger one.\<close>

definition number_text :: "jnum \<Rightarrow> string option" where
  "number_text n =
     (case as_i64 (JNumber n) of
        Some i \<Rightarrow> Some (if i < 0 then CHR ''-'' # show_nat (nat (- i)) else show_nat (nat i))
      | None \<Rightarrow> None)"

definition amount_text :: "json \<Rightarrow> string option" where
  "amount_text v = (case v of JString s \<Rightarrow> Some s | JNumber n \<Rightarrow> number_text n | _ \<Rightarrow> None)"

definition budget_cost_dimensions :: "string list" where
  "budget_cost_dimensions = [''tokens-in'', ''tokens-out'', ''wall-clock-seconds'']"

definition add_cost :: "amounts \<Rightarrow> string \<times> json \<Rightarrow> amounts" where
  "add_cost held dv =
     (if \<not> (fst dv \<in> set budget_cost_dimensions \<or> starts_with (fst dv) ''money-'') then held
      else (case amount_text (snd dv) of Some s \<Rightarrow> held(fst dv \<mapsto> s) | None \<Rightarrow> held))"

definition accrual_of :: "json \<Rightarrow> amounts" where
  "accrual_of envelope =
     (let base =
            (if str_or_empty (index envelope ''kind'') = ''effect''
                \<and> as_str (index (index envelope ''execution'') ''outcome'') = Some ''applied''
             then Map.empty(''requests'' \<mapsto> ''1'') else Map.empty)
      in case Option.bind (get envelope ''cost'') as_object of
           Some cost \<Rightarrow> foldl add_cost base cost
         | None \<Rightarrow> base)"

definition exceeds :: "amounts \<Rightarrow> amounts \<Rightarrow> string \<times> json \<Rightarrow> bool" where
  "exceeds accrued adding dl =
     (case adding (fst dl) of
        None \<Rightarrow> False
      | Some charge \<Rightarrow>
          (case amount_text (snd dl) of
             None \<Rightarrow> True
           | Some limit \<Rightarrow>
               (case add (case accrued (fst dl) of Some held \<Rightarrow> held | None \<Rightarrow> ''0'') charge of
                  Inl _ \<Rightarrow> True
                | Inr tot \<Rightarrow> (case at_most tot limit of Inr b \<Rightarrow> \<not> b | Inl _ \<Rightarrow> True))))"

definition would_exceed :: "json \<Rightarrow> amounts \<Rightarrow> amounts \<Rightarrow> string list" where
  "would_exceed cap accrued adding =
     (case as_object cap of
        None \<Rightarrow> []
      | Some m \<Rightarrow> List.map fst (filter (exceeds accrued adding) m))"

section \<open>What the check means\<close>

definition held_amount :: "amounts \<Rightarrow> string \<Rightarrow> rat" where
  "held_amount held d = (case held d of Some s \<Rightarrow> amount s | None \<Rightarrow> 0)"

lemma amount_zero [simp]: "amount ''0'' = 0"
  by (simp add: amount_def parts_def digits_def max_len_def) (simp add: nat_of_def)

text \<open>A dimension with room: its cap is readable and exactly not exceeded.\<close>

lemma not_exceeds:
  "\<not> exceeds accrued adding (d, limit) \<longleftrightarrow>
     (case adding d of
        None \<Rightarrow> True
      | Some charge \<Rightarrow>
          \<exists>l s. amount_text limit = Some l \<and> add (case accrued d of Some h \<Rightarrow> h | None \<Rightarrow> ''0'') charge = Inr s
            \<and> is_decimal l \<and> held_amount accrued d + amount charge \<le> amount l)"
proof (cases "adding d")
  case (Some charge)
  let ?h = "case accrued d of Some h \<Rightarrow> h | None \<Rightarrow> ''0''"
  have h: "amount ?h = held_amount accrued d" by (auto simp: held_amount_def split: option.splits)
  show ?thesis
  proof (cases "add ?h charge")
    case (Inr s)
    then have s: "is_decimal s" "amount s = held_amount accrued d + amount charge"
      using decimal.plus_exact [OF Inr] by (simp_all add: h)
    with Some Inr show ?thesis
      by (auto simp: exceeds_def at_most_spec split: option.splits)
  qed (simp add: exceeds_def Some split: option.splits)
qed (simp add: exceeds_def)

lemma accrual_dimensions:
  assumes "accrual_of envelope d = Some s"
  shows "d = ''requests'' \<or> d \<in> set budget_cost_dimensions \<or> starts_with d ''money-''"
proof -
  have "foldl add_cost base cost d = Some s \<Longrightarrow> base d = Some s \<or> d \<in> set budget_cost_dimensions \<or> starts_with d ''money-''"
    for base cost
    by (induction cost arbitrary: base) (force simp: add_cost_def split: if_splits option.splits)+
  with assms show ?thesis by (force simp: accrual_of_def Let_def split: option.splits if_splits)
qed

section \<open>Properties\<close>

text \<open>The budget check is exact and fails closed: no dimension is reported exactly when, for every capped dimension
  the charge touches, the cap is a decimal amount, the sum of what is held and what is charged is representable,
  and the exact sum is at most the cap.\<close>

lemma budget_check_exact:
  assumes "as_object cap = Some m"
  shows "would_exceed cap accrued adding = [] \<longleftrightarrow>
    (\<forall>(d, limit) \<in> set m. case adding d of
        None \<Rightarrow> True
      | Some charge \<Rightarrow>
          \<exists>l s. amount_text limit = Some l \<and> add (case accrued d of Some h \<Rightarrow> h | None \<Rightarrow> ''0'') charge = Inr s
            \<and> is_decimal l \<and> held_amount accrued d + amount charge \<le> amount l)"
proof -
  have "would_exceed cap accrued adding = [] \<longleftrightarrow> (\<forall>(d, limit) \<in> set m. \<not> exceeds accrued adding (d, limit))"
    by (auto simp: would_exceed_def assms filter_empty_conv)
  then show ?thesis unfolding not_exceeds .
qed

theorem budget_check_exact_witness:
  "would_exceed (JObject [(''money-eur'', JString ''9007199254740992'')]) [''money-eur'' \<mapsto> ''9007199254740992''] [''money-eur'' \<mapsto> ''1'']
      = [''money-eur'']
   \<and> amount ''9007199254740992'' + amount ''1'' > amount ''9007199254740992''"
proof -
  let ?cap = "JObject [(''money-eur'', JString ''9007199254740992'')]"
  let ?held = "[''money-eur'' \<mapsto> ''9007199254740992'']" and ?adding = "[''money-eur'' \<mapsto> ''1'']"
  have w: "would_exceed ?cap ?held ?adding = [''money-eur'']" by code_simp
  have o: "as_object ?cap = Some [(''money-eur'', JString ''9007199254740992'')]" by simp
  have "\<exists>s. add ''9007199254740992'' ''1'' = Inr s" "is_decimal ''9007199254740992''"
  proof -
    have "(case add ''9007199254740992'' ''1'' of Inr s \<Rightarrow> True | Inl e \<Rightarrow> False)" by code_simp
    then show "\<exists>s. add ''9007199254740992'' ''1'' = Inr s" by (auto split: sum.splits)
    then show "is_decimal ''9007199254740992''" using add_exact by blast
  qed
  with budget_check_exact [OF o, of ?held ?adding] w
  have "\<not> amount ''9007199254740992'' + amount ''1'' \<le> amount ''9007199254740992''"
    by (auto simp: held_amount_def amount_text_def)
  with w show ?thesis by simp
qed

end
