(* ===== verification/Gatequeue.thy ===== *)
theory Gatequeue
  imports Gate Timestamps
begin

text \<open>
  The pending queue, \<open>stozher-kernel/src/gatequeue.rs\<close>: the two spellings of a submission, the arguments an
  approver is shown, the shape of an action request, the shape of an authorization embedded in an envelope,
  and the check of a signed decision against the request it answers.
\<close>

section \<open>Submissions\<close>

definition request_members :: "string list" where
  "request_members =
     [''v'', ''kind'', ''requested-at'', ''subject'', ''key'', ''component'', ''mandate-ref'', ''policy-version'',
      ''classification'', ''action'', ''target'', ''args-hash'', ''nonce'', ''not-after'']"

definition nonce_hex_digits :: nat where "nonce_hex_digits = 32"

definition submission_members :: "string list" where
  "submission_members = [''request'', ''arguments'']"

definition arguments_max_bytes :: nat where "arguments_max_bytes = 16384"

definition only_members :: "string list \<Rightarrow> jmap \<Rightarrow> unit res" where
  "only_members names m = for_each (\<lambda>key. check (key \<in> set names) ''schema-unknown-member'') (List.map fst m)"

definition submission :: "json \<Rightarrow> (json \<times> json option) res" where
  "submission body =
     and_then (ok_or (as_object body) ''schema-type-mismatch'') (\<lambda>m.
       if \<not> contains_key m ''request'' then Inr (body, None)
       else
         and_then (only_members submission_members m) (\<lambda>_.
         and_then (ok_or (map_of m ''request'') ''schema-missing-member'') (\<lambda>request.
           if \<not> is_object request then Inl (err ''schema-type-mismatch'')
           else Inr (request, map_of m ''arguments''))))"

definition check_arguments :: "ext \<Rightarrow> json \<Rightarrow> string \<Rightarrow> string res" where
  "check_arguments x arguments args_hash =
     and_then (canonicalize x arguments) (\<lambda>canonical.
       if length canonical > arguments_max_bytes then Inl (err ''gate-arguments-too-large'')
       else if sha256_hex x canonical \<noteq> args_hash then Inl (err ''gate-arguments-hash-mismatch'')
       else Inr canonical)"

section \<open>Action requests\<close>

record gate_request =
  gr_hash :: string
  gr_request :: json
  gr_subject :: string
  gr_key :: string
  gr_component :: string
  gr_mandate_ref :: string
  gr_policy_version :: string
  gr_classification :: string
  gr_action :: string
  gr_target :: string
  gr_args_hash :: string
  gr_requested_at :: string
  gr_not_after :: string

definition text_of :: "jmap \<Rightarrow> string \<Rightarrow> string res" where
  "text_of m name =
     (case map_of m name of
        None \<Rightarrow> Inl (err ''schema-missing-member'')
      | Some (JString s) \<Rightarrow> Inr s
      | Some _ \<Rightarrow> Inl (err ''schema-type-mismatch''))"

definition check_nonce :: "string \<Rightarrow> unit res" where
  "check_nonce nonce =
     (if length nonce \<noteq> nonce_hex_digits \<or> \<not> list_all is_hex_digit nonce then Inl (err ''encoding-not-lowercase-hex'')
      else if list_ex is_upper nonce then Inl (err ''encoding-not-lowercase-hex'')
      else Inr ())"

definition check_request_window :: "string \<Rightarrow> string \<Rightarrow> string \<Rightarrow> unit res" where
  "check_request_window requested_at not_after now =
     and_then (parse_timestamp requested_at) (\<lambda>_.
     and_then (parse_timestamp not_after) (\<lambda>_.
       if not_after \<le> requested_at then Inl (err ''gate-request-expired'')
       else if not_after \<le> now then Inl (err ''gate-request-expired'')
       else Inr ()))"

definition validate_request :: "ext \<Rightarrow> json \<Rightarrow> string \<Rightarrow> gate_request res" where
  "validate_request x request now =
     and_then (ok_or (as_object request) ''schema-type-mismatch'') (\<lambda>m.
     and_then (only_members request_members m) (\<lambda>_.
     and_then (text_of m ''v'') (\<lambda>v.
       if v \<noteq> version then Inl (err ''envelope-version-unsupported'')
       else
     and_then (text_of m ''kind'') (\<lambda>kind.
       if kind \<noteq> ''action-request'' then Inl (err ''envelope-unknown-kind'')
       else
     and_then (text_of m ''subject'') (\<lambda>subject.
       if CHR '':'' \<notin> set subject then Inl (err ''schema-type-mismatch'')
       else
     and_then (text_of m ''key'') (\<lambda>key_text.
     and_then (key_id_parse x key_text) (\<lambda>subject_key.
     and_then (text_of m ''classification'') (\<lambda>class.
       if class \<notin> set classes then Inl (err ''envelope-classification-unknown'')
       else
     and_then (text_of m ''mandate-ref'') (\<lambda>mandate_ref.
     and_then (text_of m ''args-hash'') (\<lambda>args_hash.
     and_then (for_each (\<lambda>value. check (is_digest_hex value) ''encoding-not-lowercase-hex'') [mandate_ref, args_hash]) (\<lambda>_.
     and_then (text_of m ''nonce'') (\<lambda>nonce.
     and_then (check_nonce nonce) (\<lambda>_.
     and_then (text_of m ''component'') (\<lambda>owner.
     and_then (text_of m ''policy-version'') (\<lambda>pv.
     and_then (text_of m ''action'') (\<lambda>act.
     and_then (text_of m ''target'') (\<lambda>target.
     and_then (for_each (\<lambda>value. check (value \<noteq> []) ''schema-missing-member'') [owner, pv, act, target]) (\<lambda>_.
     and_then (text_of m ''requested-at'') (\<lambda>requested_at.
     and_then (text_of m ''not-after'') (\<lambda>not_after.
     and_then (check_request_window requested_at not_after now) (\<lambda>_.
     and_then (object_hash x request) (\<lambda>h.
       Inr \<lparr>gr_hash = h, gr_request = request, gr_subject = subject, gr_key = as_string subject_key, gr_component = owner,
            gr_mandate_ref = mandate_ref, gr_policy_version = pv, gr_classification = class, gr_action = act,
            gr_target = target, gr_args_hash = args_hash, gr_requested_at = requested_at,
            gr_not_after = not_after\<rparr>))))))))))))))))))))))"

section \<open>Decisions\<close>

definition decision_members :: "string list" where
  "decision_members =
     [''v'', ''kind'', ''request-hash'', ''decision'', ''decided-at'', ''not-after'', ''single-use'', ''reason'', ''sig'']"

definition check_instant :: "string \<Rightarrow> unit res" where
  "check_instant t = and_then (parse_timestamp t) (\<lambda>_. Inr ())"

definition validate_embedded_decision :: "json \<Rightarrow> unit res" where
  "validate_embedded_decision decision =
     and_then (ok_or (as_object decision) ''schema-type-mismatch'') (\<lambda>m.
     and_then (only_members decision_members m) (\<lambda>_.
       if Option.bind (map_of m ''v'') as_str \<noteq> Some version then Inl (err ''envelope-version-unsupported'')
       else if Option.bind (map_of m ''kind'') as_str \<noteq> Some ''gate-decision'' then Inl (err ''envelope-unknown-kind'')
       else
         and_then (for_each (\<lambda>name.
             and_then (ok_or (map_of m name) ''schema-missing-member'') (\<lambda>value.
               check (is_string value) ''schema-type-mismatch''))
           [''request-hash'', ''decision'', ''decided-at'', ''not-after'']) (\<lambda>_.
           if \<not> is_digest_hex (str_or_empty (index decision ''request-hash'')) then Inl (err ''encoding-not-lowercase-hex'')
           else
             and_then (check_instant (str_or_empty (index decision ''decided-at''))) (\<lambda>_.
               check_instant (str_or_empty (index decision ''not-after''))))))"

definition validate_embedded :: "ext \<Rightarrow> json \<Rightarrow> unit res" where
  "validate_embedded x authorization =
     and_then (ok_or (get authorization ''request'') ''schema-missing-member'') (\<lambda>request.
     and_then (ok_or (get authorization ''decision'') ''schema-missing-member'') (\<lambda>decision.
     and_then
       (case as_object authorization of
          Some m \<Rightarrow> only_members [''request'', ''decision''] m
        | None \<Rightarrow> Inr ()) (\<lambda>_.
     and_then (ok_or (get_str request ''requested-at'') ''schema-missing-member'') (\<lambda>requested_at.
     and_then (validate_request x request requested_at) (\<lambda>_.
       validate_embedded_decision decision)))))"

record gate_decision_ok =
  gd_request_hash :: string
  gd_verdict :: string
  gd_reason :: "string option"
  gd_decided_by :: key_id
  gd_decided_at :: string
  gd_decision :: json

definition check_decision_verdict :: "string \<Rightarrow> string option \<Rightarrow> unit res" where
  "check_decision_verdict verdict reason =
     (if verdict = ''approve'' then Inr ()
      else if verdict = ''deny'' then
        (if (case reason of Some s \<Rightarrow> s | None \<Rightarrow> []) = [] then Inl (err ''gate-denial-without-reason'') else Inr ())
      else Inl (err ''gate-decision-unknown''))"

definition check_decision :: "ext \<Rightarrow> json \<Rightarrow> gate_request \<Rightarrow> gate_decision_ok res" where
  "check_decision x decision request =
     (if get_str decision ''kind'' \<noteq> Some ''gate-decision'' then Inl (err ''envelope-unknown-kind'')
      else if get_str decision ''request-hash'' \<noteq> Some (gr_hash request)
      then Inl (err ''gate-authorization-request-hash-mismatch'')
      else
        and_then (map_err (\<lambda>_. err ''gate-decision-sig-invalid'') (verify_signed_object x decision)) (\<lambda>decider.
          if as_string decider = gr_key request then Inl (err ''gate-self-approval'')
          else
            and_then (ok_or (get_str decision ''decided-at'') ''schema-missing-member'') (\<lambda>decided_at.
            and_then (ok_or (get_str decision ''not-after'') ''schema-missing-member'') (\<lambda>not_after.
            and_then (check_instant decided_at) (\<lambda>_.
            and_then (check_instant not_after) (\<lambda>_.
            and_then (ok_or (get_str decision ''decision'') ''schema-missing-member'') (\<lambda>verdict.
            and_then (check_decision_verdict verdict (get_str decision ''reason'')) (\<lambda>_.
              if decided_at > gr_not_after request then Inl (err ''gate-request-expired'')
              else if not_after \<le> decided_at then Inl (err ''gate-approval-expired'')
              else
                Inr \<lparr>gd_request_hash = gr_hash request, gd_verdict = verdict, gd_reason = get_str decision ''reason'',
                     gd_decided_by = decider, gd_decided_at = decided_at, gd_decision = decision\<rparr>))))))))"


section \<open>What the checks establish\<close>

lemma text_of_eq [simp, res_simps]: "text_of m k = Inr s \<longleftrightarrow> map_of m k = Some (JString s)"
  by (auto simp: text_of_def split: option.splits json.splits)

lemma validate_request_facts:
  assumes "validate_request x request now = Inr rq"
  shows "gr_request rq = request \<and> object_hash x request = Inr (gr_hash rq)
    \<and> get_str request ''key'' = Some (gr_key rq) \<and> get_str request ''subject'' = Some (gr_subject rq)
    \<and> get_str request ''not-after'' = Some (gr_not_after rq) \<and> is_timestamp (gr_not_after rq)
    \<and> gr_requested_at rq < gr_not_after rq \<and> now < gr_not_after rq
    \<and> (\<forall>k v. get request k = Some v \<longrightarrow> k \<in> set request_members)"
proof -
  from assms obtain m where m: "request = JObject m" by (auto simp: validate_request_def)
  from assms have f: "only_members request_members m = Inr ()"
    "map_of m ''key'' = Some (JString (gr_key rq))" "map_of m ''subject'' = Some (JString (gr_subject rq))"
    "map_of m ''not-after'' = Some (JString (gr_not_after rq))"
    "check_request_window (gr_requested_at rq) (gr_not_after rq) now = Inr ()" "object_hash x request = Inr (gr_hash rq)"
    "gr_request rq = request"
    unfolding validate_request_def m by (auto simp: key_id_parse_def split: if_splits)
  from f(5) have w: "is_timestamp (gr_not_after rq)" "gr_requested_at rq < gr_not_after rq" "now < gr_not_after rq"
    by (auto simp: check_request_window_def validators_agree not_le split: if_splits)
  have "k \<in> set request_members" if "get request k = Some v" for k v
    using f(1) that by (auto simp: only_members_def for_each_eq_Inr m dest!: map_of_SomeD)
  with f w show ?thesis by (auto simp: m get_str_eq_Some)
qed

lemma check_decision_facts:
  assumes "check_decision x decision rq = Inr gd"
  shows "\<exists>da na. get_str decision ''request-hash'' = Some (gr_hash rq) \<and> verify_signed_object x decision = Inr (gd_decided_by gd)
    \<and> as_string (gd_decided_by gd) \<noteq> gr_key rq \<and> get_str decision ''decision'' = Some (gd_verdict gd)
    \<and> get_str decision ''decided-at'' = Some da \<and> get_str decision ''not-after'' = Some na
    \<and> is_timestamp da \<and> is_timestamp na \<and> da \<le> gr_not_after rq \<and> da < na"
  using assms by (auto simp: check_decision_def check_instant_def validators_agree not_le not_less split: if_splits)


section \<open>A parked request and its answers\<close>

definition demo_parked :: json where
  "demo_parked = JObject
     [(''action'', JString ''a.put''), (''args-hash'', JString demo_digest), (''classification'', JString ''benign''),
      (''component'', JString ''c''), (''key'', JString demo_key), (''kind'', JString ''action-request''),
      (''mandate-ref'', JString demo_digest), (''nonce'', JString ''0123456789abcdef0123456789abcdef''),
      (''not-after'', JString ''2026-07-26T10:00:00.000Z''), (''policy-version'', JString ''p''),
      (''requested-at'', JString ''2026-07-26T09:00:00.000Z''), (''subject'', JString ''agent:s''),
      (''target'', JString ''t''), (''v'', JString ''stozher/0.1'')]"

definition demo_answer :: "(string \<times> json) list \<Rightarrow> json" where
  "demo_answer extra =
     (case sign_object demo_ext (JObject
        ([(''decided-at'', JString ''2026-07-26T09:10:00.000Z''), (''decision'', JString ''approve''),
          (''kind'', JString ''gate-decision''), (''not-after'', JString ''2026-07-26T09:30:00.000Z''),
          (''request-hash'', JString (demo_id demo_parked))] @ extra)) approver_secret of Inr w \<Rightarrow> w | Inl _ \<Rightarrow> JNull)"

definition demo_performed :: json where
  "demo_performed = JObject
     [(''authorization'', JObject [(''decision'', demo_answer [(''v'', JString ''stozher/0.1'')]), (''request'', demo_parked)]),
      (''classification'', JString ''benign''), (''emitted-at'', JString ''2026-07-26T09:15:01.300Z''),
      (''execution'', JObject [(''action'', JString ''a.put''), (''args-hash'', JString demo_digest), (''target'', JString ''t'')]),
      (''identity'', JObject [(''component'', JString ''c''), (''key'', JString demo_key), (''subject'', JString ''agent:s'')]),
      (''mandate-ref'', JString demo_digest), (''policy-version'', JString ''p'')]"

definition demo_queued :: gate_request where
  "demo_queued =
     \<lparr>gr_hash = demo_id demo_parked, gr_request = demo_parked, gr_subject = ''agent:s'', gr_key = demo_key,
      gr_component = ''c'', gr_mandate_ref = demo_digest, gr_policy_version = ''p'', gr_classification = ''benign'',
      gr_action = ''a.put'', gr_target = ''t'', gr_args_hash = demo_digest,
      gr_requested_at = ''2026-07-26T09:00:00.000Z'', gr_not_after = ''2026-07-26T10:00:00.000Z''\<rparr>"

definition demo_checked :: "json \<Rightarrow> gate_decision_ok" where
  "demo_checked decision =
     \<lparr>gd_request_hash = demo_id demo_parked, gd_verdict = ''approve'', gd_reason = None, gd_decided_by = KeyId gate_key,
      gd_decided_at = ''2026-07-26T09:10:00.000Z'', gd_decision = decision\<rparr>"

lemma demo_parked_valid: "validate_request demo_ext demo_parked ''2026-07-26T09:00:01.000Z'' = Inr demo_queued"
  by code_simp

lemma demo_answer_valid:
  "check_decision demo_ext (demo_answer [(''v'', JString ''stozher/0.1'')]) demo_queued
     = Inr (demo_checked (demo_answer [(''v'', JString ''stozher/0.1'')]))"
  by code_simp

lemma demo_loose_answer_valid:
  "check_decision demo_ext (demo_answer [(''x'', JNull)]) demo_queued = Inr (demo_checked (demo_answer [(''x'', JNull)]))"
  by code_simp

section \<open>Properties\<close>

text \<open>C39: What the queue accepts, the gate honours: an approval the pending queue accepted for a request it accepted
  authorizes the effect that was requested, if it is performed within the approval's window, the approver is one
  of the permitted ones and not the requesting subject, and the approval is not spent.\<close>

theorem queued_approval_authorizes:
  assumes "validate_request x request now = Inr rq" and "check_decision x decision rq = Inr gd"
    and "gd_verdict gd = ''approve''"
    and "get envelope ''authorization'' = Some a" and "get a ''request'' = Some request" and "get a ''decision'' = Some decision"
    and "speaks_as approvers (gd_decided_by gd) ap" and "approver_subject ap \<noteq> Some (gr_subject rq)"
    and "same_effect envelope request"
    and "get_str envelope ''emitted-at'' = Some em" and "is_timestamp em"
    and "get_str decision ''decided-at'' = Some da" and "get_str decision ''not-after'' = Some na" and "da \<le> em" and "em \<le> na"
    and "usable seen decision (gr_hash rq)"
  shows "verify_authorization x envelope rg approvers seen
    = Inr (Some \<lparr>request_hash = gr_hash rq, decided_by = gd_decided_by gd, single_use = (\<not> reusable decision)\<rparr>)"
proof -
  note rq = validate_request_facts [OF assms(1)] and gd = check_decision_facts [OF assms(2)]
  have "impartial approvers request (gd_decided_by gd)"
    using rq gd assms(7,8) unfolding impartial_def by (metis option.inject)
  moreover have "in_window envelope request decision"
    using rq gd assms(10-15) unfolding in_window_def by auto
  ultimately have "approval x approvers envelope request decision (gr_hash rq) (gd_decided_by gd)"
    using rq gd assms(3,9) by (auto simp: approval_def)
  with assms(4-6,16) show ?thesis by (auto simp: verify_authorization_eq usable_def)
qed

theorem queued_approval_authorizes_witness:
  "verify_authorization demo_ext demo_performed True demo_approvers {}
     = Inr (Some \<lparr>request_hash = demo_id demo_parked, decided_by = KeyId gate_key, single_use = True\<rparr>)"
proof -
  let ?d = "demo_answer [(''v'', JString ''stozher/0.1'')]"
  have e: "get demo_performed ''authorization'' = Some (JObject [(''decision'', ?d), (''request'', demo_parked)])"
    by (simp add: demo_performed_def)
  have s: "speaks_as demo_approvers (KeyId gate_key) (named (KeyId gate_key) ''human:approver'')" by code_simp
  have f: "same_effect demo_performed demo_parked" by code_simp
  have d: "get_str ?d ''decided-at'' = Some ''2026-07-26T09:10:00.000Z''"
    "get_str ?d ''not-after'' = Some ''2026-07-26T09:30:00.000Z''" "\<not> reusable ?d" by code_simp+
  have t: "get_str demo_performed ''emitted-at'' = Some ''2026-07-26T09:15:01.300Z''" "is_timestamp ''2026-07-26T09:15:01.300Z''"
    by code_simp+
  have o: "''2026-07-26T09:10:00.000Z'' \<le> ''2026-07-26T09:15:01.300Z''" "''2026-07-26T09:15:01.300Z'' \<le> ''2026-07-26T09:30:00.000Z''"
    by code_simp+
  from queued_approval_authorizes [OF demo_parked_valid demo_answer_valid _ e _ _ _ _ f t d(1,2) o, of demo_approvers _ "{}" True] s d(3)
  show ?thesis by (simp add: demo_checked_def demo_queued_def named_def usable_def)
qed


text \<open>What an approver reads is what the request names: argument values are shown only when their canonical form is
  at most 16,384 octets long and hashes to the request's own \<open>args-hash\<close>, and any two values shown for one
  hash are the same JSON value, or a collision of SHA-256.\<close>

lemma arguments_are_the_requested:
  assumes "documented x" and "json_ok arguments" and "json_ok arguments'"
    and "check_arguments x arguments h = Inr c" and "check_arguments x arguments' h = Inr c'"
  shows "object_hash x arguments = Inr h \<and> length c \<le> 16384 \<and> (same x arguments arguments' \<or> collide x arguments arguments')"
proof -
  have "object_id x arguments = Inr h" "object_id x arguments' = Inr h"
    using assms(4,5) by (auto simp: check_arguments_def object_id_def object_hash_def split: if_splits)
  from object_id_same [OF assms(1-3) this] this(1) assms(4) show ?thesis
    by (auto simp: check_arguments_def arguments_max_bytes_def object_id_def split: if_splits)
qed

theorem arguments_are_the_requested_witness:
  "object_hash demo_ext (JString ''a'') = Inr (demo_id (JString ''a''))"
proof -
  have "check_arguments demo_ext (JString ''a'') (demo_id (JString ''a'')) = Inr (CHR 0x22 # ''a'' @ [CHR 0x22])" by code_simp
  from arguments_are_the_requested [OF demo_documented _ _ this this] show ?thesis by simp
qed

end
