(* ===== verification/Manifest.thy ===== *)
theory Manifest
  imports Policy
begin

text \<open>
  Extension manifests, \<open>stozher-kernel/src/manifest.rs\<close>: the full validation of a manifest at registration,
  the class it proposes for an action, and its table of durable-object transitions.
\<close>

section \<open>Names\<close>

definition manifest_members :: "string list" where
  "manifest_members =
     [''v'', ''kind'', ''name'', ''version'', ''subject-class'', ''description'', ''actions'', ''evidence-schemas'',
      ''budget-dimensions'', ''durable-objects'', ''conformance'']"

definition subject_classes :: "string list" where
  "subject_classes = [''tool-proxy'', ''browser-agent'', ''executor'', ''memory'', ''orchestrator-bridge'', ''kernel'']"

definition action_members :: "string list" where
  "action_members =
     [''action'', ''class'', ''evidence-schema'', ''aggregate'', ''idempotent'', ''target-kind'', ''degrade'']"

definition manifest_budget_dimensions :: "string list" where
  "manifest_budget_dimensions = [''requests'', ''tokens'', ''tokens-in'', ''tokens-out'', ''wall-clock-seconds'']"

definition is_component_name :: "string \<Rightarrow> bool" where
  "is_component_name name \<longleftrightarrow>
     2 \<le> length name \<and> length name \<le> 32 \<and> is_lower (hd name)
     \<and> list_all (\<lambda>b. is_lower b \<or> is_digit b \<or> b = CHR ''-'') (tl name)"

definition is_action_identifier :: "string \<Rightarrow> string \<Rightarrow> bool" where
  "is_action_identifier owner act \<longleftrightarrow>
     (case Option.bind (strip_prefix act owner) (\<lambda>rest. strip_prefix rest ''.'') of
        None \<Rightarrow> False
      | Some rest \<Rightarrow>
          1 \<le> length rest \<and> length rest \<le> 64 \<and> is_lower (hd rest)
          \<and> list_all (\<lambda>b. is_lower b \<or> is_digit b \<or> b = CHR ''_'') (tl rest))"

definition malformed :: "'a res" where "malformed = Inl (err ''manifest-malformed'')"

section \<open>Validation\<close>

record manifest =
  manifest_document :: json
  manifest_name :: string
  manifest_version :: string
  manifest_hash :: string
  component_key :: key_id

definition validate_schema :: "json \<Rightarrow> unit res" where
  "validate_schema schema =
     and_then (ok_or (as_object schema) ''schema-type-mismatch'') (\<lambda>m.
       check (Option.bind (map_of m ''additionalProperties'') as_bool = Some False) ''manifest-malformed'')"

text \<open>\<open>entry.get(k).filter(|v| !v.is_null())\<close>\<close>

definition present :: "jmap \<Rightarrow> string \<Rightarrow> json option" where
  "present entry k = (case map_of entry k of Some v \<Rightarrow> if v = JNull then None else Some v | None \<Rightarrow> None)"

definition validate_action_aggregate :: "string \<Rightarrow> json option \<Rightarrow> unit res" where
  "validate_action_aggregate class aggregate =
     (case aggregate of
        None \<Rightarrow> if class = ''read'' then malformed else Inr ()
      | Some rule \<Rightarrow>
          if class = ''read'' then
            and_then (ok_or (as_u64 (index rule ''max-samples'')) ''schema-missing-member'') (\<lambda>samples.
              if samples = 0 \<or> samples > 16 then Inl (err ''aggregate-sample-bounds'')
              else check (as_str (index rule ''sampling'') \<noteq> None) ''schema-missing-member'')
          else malformed)"

definition validate_action :: "string \<Rightarrow> jmap \<Rightarrow> json \<Rightarrow> unit res" where
  "validate_action name schemas entry =
     and_then (ok_or (as_object entry) ''schema-type-mismatch'') (\<lambda>m.
     and_then (closed action_members m) (\<lambda>_.
     and_then (complete [''action'', ''class'', ''evidence-schema'', ''idempotent'', ''target-kind''] m) (\<lambda>_.
       (let identifier = str_or_empty (index entry ''action'');
            class = str_or_empty (index entry ''class'')
        in
          if \<not> is_action_identifier name identifier then Inl (err ''manifest-action-namespace'')
          else if class \<notin> set classes then Inl (err ''envelope-classification-unknown'')
          else if as_bool (index entry ''idempotent'') = None then Inl (err ''schema-type-mismatch'')
          else if \<not> contains_key schemas (str_or_empty (index entry ''evidence-schema''))
          then Inl (err ''manifest-evidence-schema-missing'')
          else if class = ''prohibited'' \<and> present m ''degrade'' \<noteq> None then Inl (err ''manifest-prohibited-degrade'')
          else validate_action_aggregate class (present m ''aggregate'')))))"

definition validate_dimension :: "json \<Rightarrow> unit res" where
  "validate_dimension v =
     (let dimension = str_or_empty v;
          monetary = (case strip_prefix dimension ''money-'' of
                        Some c \<Rightarrow> length c = 3 \<and> list_all is_lower c
                      | None \<Rightarrow> False)
      in check (\<not> (dimension \<notin> set manifest_budget_dimensions \<and> \<not> monetary)) ''manifest-malformed'')"

definition validate_transition :: "json \<Rightarrow> unit res" where
  "validate_transition transition =
     and_then (ok_or (as_object transition) ''schema-type-mismatch'') (\<lambda>m.
     and_then (closed [''transition'', ''from'', ''to'', ''signers''] m) (\<lambda>_.
     and_then (complete [''transition'', ''from'', ''to'', ''signers''] m) (\<lambda>_.
     and_then (check (as_array (index transition ''from'') \<noteq> None) ''schema-type-mismatch'') (\<lambda>_.
     and_then (ok_or (as_array (index transition ''signers'')) ''schema-type-mismatch'') (\<lambda>signers.
       if signers = [] then malformed
       else
         for_each (\<lambda>s. check (as_str s \<in> {Some ''human'', Some ''agent''}) ''manifest-malformed'') signers)))))"

definition validate_durable_object :: "json \<Rightarrow> unit res" where
  "validate_durable_object object =
     and_then (ok_or (as_object object) ''schema-type-mismatch'') (\<lambda>m.
     and_then (closed [''object-type'', ''id-kind'', ''transitions''] m) (\<lambda>_.
     and_then (complete [''object-type'', ''id-kind'', ''transitions''] m) (\<lambda>_.
     and_then (ok_or (as_array (index object ''transitions'')) ''schema-type-mismatch'') (\<lambda>transitions.
       if transitions = [] then malformed else for_each validate_transition transitions))))"

definition validate_durable_objects :: "json \<Rightarrow> unit res" where
  "validate_durable_objects objects =
     and_then (ok_or (as_array objects) ''schema-type-mismatch'') (\<lambda>l. for_each validate_durable_object l)"

definition validate_conformance :: "json \<Rightarrow> unit res" where
  "validate_conformance v =
     and_then (ok_or (as_object v) ''schema-type-mismatch'') (\<lambda>m.
       for_each (\<lambda>r. check (Option.bind (map_of m r) as_str \<noteq> None) ''schema-missing-member'')
         [''self-test'', ''vectors-version''])"

definition validate_manifest_body :: "json \<Rightarrow> string \<Rightarrow> unit res" where
  "validate_manifest_body doc name =
     and_then (ok_or (as_object (index doc ''evidence-schemas'')) ''schema-type-mismatch'') (\<lambda>schemas.
     and_then (for_each (\<lambda>kv. validate_schema (snd kv)) schemas) (\<lambda>_.
     and_then (ok_or (as_array (index doc ''actions'')) ''schema-type-mismatch'') (\<lambda>actions.
       if actions = [] then malformed
       else
         and_then (for_each (validate_action name schemas) actions) (\<lambda>_.
         and_then (ok_or (as_array (index doc ''budget-dimensions'')) ''schema-type-mismatch'') (\<lambda>dims.
         and_then (for_each validate_dimension dims) (\<lambda>_.
         and_then (validate_durable_objects (index doc ''durable-objects'')) (\<lambda>_.
           validate_conformance (index doc ''conformance''))))))))"

definition parse_manifest :: "ext \<Rightarrow> json \<Rightarrow> manifest res" where
  "parse_manifest x doc =
     and_then (ok_or (as_object doc) ''manifest-malformed'') (\<lambda>m.
     and_then (for_each (\<lambda>key. check (\<not> (key \<noteq> ''sig'' \<and> key \<notin> set manifest_members)) ''schema-unknown-member'') (List.map fst m)) (\<lambda>_.
     and_then (for_each (\<lambda>r. check (r = ''description'' \<or> contains_key m r) ''schema-missing-member'') manifest_members) (\<lambda>_.
       if as_str (index doc ''v'') \<noteq> Some version then Inl (err ''envelope-version-unsupported'')
       else if as_str (index doc ''kind'') \<noteq> Some ''manifest'' then Inl (err ''envelope-unknown-kind'')
       else
         and_then (verify_signed_object x doc) (\<lambda>key.
         and_then (ok_or (as_str (index doc ''name'')) ''schema-type-mismatch'') (\<lambda>name.
           if \<not> is_component_name name then malformed
           else
             and_then (ok_or (case as_str (index doc ''version'') of
                                Some v \<Rightarrow> if v \<noteq> [] then Some v else None | None \<Rightarrow> None) ''schema-type-mismatch'') (\<lambda>v.
               if str_or_empty (index doc ''subject-class'') \<notin> set subject_classes then malformed
               else
                 and_then (validate_manifest_body doc name) (\<lambda>_.
                 and_then (object_hash x doc) (\<lambda>h.
                   Inr \<lparr>manifest_document = doc, manifest_name = name, manifest_version = v, manifest_hash = h,
                        component_key = key\<rparr>))))))))"

section \<open>What a manifest says\<close>

definition action_entry :: "json \<Rightarrow> string \<Rightarrow> json option" where
  "action_entry doc act =
     Option.bind (as_array (index doc ''actions'')) (List.find (\<lambda>entry. as_str (index entry ''action'') = Some act))"

definition proposed_class :: "json \<Rightarrow> string \<Rightarrow> string option" where
  "proposed_class doc act = Option.bind (action_entry doc act) (\<lambda>entry. as_str (index entry ''class''))"

definition evidence_schema :: "json \<Rightarrow> string \<Rightarrow> string option" where
  "evidence_schema doc act = Option.bind (action_entry doc act) (\<lambda>entry. as_str (index entry ''evidence-schema''))"

definition declared_object :: "json \<Rightarrow> string \<Rightarrow> json option" where
  "declared_object doc object_type =
     Option.bind (as_array (index doc ''durable-objects''))
       (List.find (\<lambda>entry. as_str (index entry ''object-type'') = Some object_type))"

definition declared_transition :: "json \<Rightarrow> string \<Rightarrow> json option" where
  "declared_transition object transition =
     Option.bind (as_array (index object ''transitions''))
       (List.find (\<lambda>t. as_str (index t ''transition'') = Some transition))"

definition check_transition :: "json \<Rightarrow> string \<Rightarrow> string \<Rightarrow> string \<Rightarrow> string option \<Rightarrow> string res" where
  "check_transition doc object_type transition signer_role folded_state =
     and_then (ok_or (declared_object doc object_type) ''durable-transition-not-permitted'') (\<lambda>declared.
     and_then (ok_or (declared_transition declared transition) ''durable-transition-not-permitted'') (\<lambda>entry.
     and_then (ok_or (as_array (index entry ''signers'')) ''schema-missing-member'') (\<lambda>signers.
       if \<not> list_ex (\<lambda>s. as_str s = Some signer_role) signers then Inl (err ''durable-transition-not-permitted'')
       else
         and_then (ok_or (as_array (index entry ''from'')) ''schema-missing-member'') (\<lambda>from_states.
           if \<not> (case folded_state of
                    None \<Rightarrow> from_states = []
                  | Some st \<Rightarrow> list_ex (\<lambda>f. as_str f = Some st) from_states)
           then Inl (err ''durable-transition-illegal'')
           else ok_or (as_str (index entry ''to'')) ''schema-missing-member''))))"


section \<open>Accepted manifests\<close>

lemma parse_manifest_facts:
  assumes "parse_manifest x doc = Inr m"
  shows "manifest_document m = doc \<and> verify_signed_object x doc = Inr (component_key m) \<and> object_hash x doc = Inr (manifest_hash m)
    \<and> get_str doc ''name'' = Some (manifest_name m) \<and> is_component_name (manifest_name m)
    \<and> validate_manifest_body doc (manifest_name m) = Inr ()"
  using assms unfolding parse_manifest_def malformed_def by (auto simp: index_str split: if_splits option.splits)

lemma str_or_empty_index: "get_str v k = Some s \<Longrightarrow> str_or_empty (index v k) = s"
  by (simp add: str_or_empty_def index_str)

lemma action_entry_valid:
  assumes "validate_manifest_body doc name = Inr ()" and "action_entry doc act = Some entry"
  shows "\<exists>schemas. as_object (index doc ''evidence-schemas'') = Some schemas \<and> validate_action name schemas entry = Inr ()
    \<and> get_str entry ''action'' = Some act \<and> (\<forall>kv \<in> set schemas. validate_schema (snd kv) = Inr ())"
proof -
  from assms(1) obtain schemas actions where v: "as_object (index doc ''evidence-schemas'') = Some schemas"
    "as_array (index doc ''actions'') = Some actions" "\<forall>e \<in> set actions. validate_action name schemas e = Inr ()"
    "\<forall>kv \<in> set schemas. validate_schema (snd kv) = Inr ()"
    unfolding validate_manifest_body_def malformed_def by (auto split: if_splits)
  from assms(2) v(2) have "entry \<in> set actions \<and> get_str entry ''action'' = Some act"
    by (auto simp: action_entry_def index_str dest: find_SomeD)
  with v show ?thesis by blast
qed

definition demo_manifest :: json where
  "demo_manifest = demo_signed (JObject
     [(''v'', JString ''stozher/0.1''), (''kind'', JString ''manifest''), (''name'', JString ''cc''), (''version'', JString ''1''),
      (''subject-class'', JString ''executor''),
      (''actions'', JArray [JObject [(''action'', JString ''cc.put''), (''class'', JString ''benign''),
         (''evidence-schema'', JString ''e''), (''idempotent'', JBool True), (''target-kind'', JString ''t'')]]),
      (''evidence-schemas'', JObject [(''e'', JObject [(''additionalProperties'', JBool False)])]),
      (''budget-dimensions'', JArray [JString ''money-eur'']),
      (''durable-objects'', JArray [JObject [(''object-type'', JString ''contract''), (''id-kind'', JString ''i''),
         (''transitions'', JArray [JObject [(''transition'', JString ''open''), (''from'', JArray []), (''to'', JString ''draft''),
            (''signers'', JArray [JString ''agent''])],
            JObject [(''transition'', JString ''sign''), (''from'', JArray [JString ''draft'']), (''to'', JString ''signed''),
            (''signers'', JArray [JString ''human''])]])]]),
      (''conformance'', JObject [(''self-test'', JString ''s''), (''vectors-version'', JString ''1'')])])"

lemma demo_manifest_parsed:
  "parse_manifest demo_ext demo_manifest
     = Inr \<lparr>manifest_document = demo_manifest, manifest_name = ''cc'', manifest_version = ''1'',
         manifest_hash = (case object_hash demo_ext demo_manifest of Inr h \<Rightarrow> h | Inl _ \<Rightarrow> []), component_key = KeyId demo_key\<rparr>"
  by code_simp

section \<open>Properties\<close>

text \<open>A component speaks for its own actions only: whatever class an accepted manifest proposes for an action, the
  action's name lies in the namespace of the manifest's component, the class is one of the four, the action has
  an evidence schema the manifest defines and that admits no further members, and the document is signed by the
  key the component is then bound to.\<close>

lemma manifest_actions_in_namespace:
  assumes "parse_manifest x doc = Inr m" and "proposed_class doc act = Some c"
  shows "is_action_identifier (manifest_name m) act \<and> c \<in> set classes \<and> verify_signed_object x doc = Inr (component_key m)
    \<and> (\<exists>schema. get (index doc ''evidence-schemas'') (case evidence_schema doc act of Some s \<Rightarrow> s | None \<Rightarrow> []) = Some schema
        \<and> Option.bind (get schema ''additionalProperties'') as_bool = Some False)"
proof -
  note f = parse_manifest_facts [OF assms(1)]
  from assms(2) obtain entry where e: "action_entry doc act = Some entry" "get_str entry ''class'' = Some c"
    by (auto simp: proposed_class_def bind_eq_Some_conv index_str)
  from action_entry_valid [OF _ e(1), of "manifest_name m"] f obtain schemas where
    v: "index doc ''evidence-schemas'' = JObject schemas" "validate_action (manifest_name m) schemas entry = Inr ()"
      "get_str entry ''action'' = Some act" "\<forall>kv \<in> set schemas. validate_schema (snd kv) = Inr ()" by auto
  from v(2,3) e(2) have s: "is_action_identifier (manifest_name m) act" "c \<in> set classes"
    "contains_key schemas (str_or_empty (index entry ''evidence-schema''))"
    unfolding validate_action_def Let_def by (auto simp: str_or_empty_index split: if_splits)
  from s(3) obtain schema where sc: "map_of schemas (str_or_empty (index entry ''evidence-schema'')) = Some schema"
    by (auto simp: contains_key_def)
  then have "validate_schema schema = Inr ()" using v(4) by (fastforce dest: map_of_SomeD)
  then have "Option.bind (get schema ''additionalProperties'') as_bool = Some False"
    by (auto simp: validate_schema_def)
  moreover have "(case evidence_schema doc act of Some s \<Rightarrow> s | None \<Rightarrow> []) = str_or_empty (index entry ''evidence-schema'')"
    by (simp add: evidence_schema_def e(1) str_or_empty_def)
  ultimately show ?thesis using s f v(1) sc by auto
qed

theorem manifest_actions_in_namespace_witness:
  "is_action_identifier ''cc'' ''cc.put'' \<and> verify_signed_object demo_ext demo_manifest = Inr (KeyId demo_key)"
proof -
  have "proposed_class demo_manifest ''cc.put'' = Some ''benign''" by code_simp
  from manifest_actions_in_namespace [OF demo_manifest_parsed this] show ?thesis by simp
qed

end
