(* ===== verification/Tables.thy ===== *)
theory Tables
  imports Signed
begin

text \<open>
  The tables of the store, \<open>stozher-kernel/src/store.rs\<close> over \<open>src/sql/schema.sql\<close>: one record per row with its
  columns, a table as the list of its rows in the order they were inserted, and the lookups the rest of the kernel
  reads. A position column is a \<open>BIGINT\<close>: a \<open>u64\<close> is stored as \<open>i64::try_from(seq).unwrap_or(i64::MAX)\<close>, so a
  column, and a column plus two, fits into 64 bits, and columns are natural numbers here. The database answers:
  \<open>store_unavailable\<close> is only what a violated constraint other than uniqueness gives.
\<close>

section \<open>Rows\<close>

definition store_unavailable :: string where "store_unavailable = ''x-store-unavailable''"

definition seq_column :: "u64 \<Rightarrow> nat" where
  "seq_column seq = (if unat seq \<le> 9223372036854775807 then unat seq else 9223372036854775807)"

record envelope_row =
  er_stream :: string
  er_seq :: nat
  er_id :: string
  er_prev_hash :: "string option"
  er_kind :: string
  er_subject :: string
  er_subject_key :: string
  er_component :: string
  er_mandate_ref :: "string option"
  er_human_root :: "string option"
  er_policy_version :: "string option"
  er_classification :: "string option"
  er_effective_class :: "string option"
  er_action :: "string option"
  er_target :: "string option"
  er_args_hash :: "string option"
  er_outcome :: "string option"
  er_emitted_at :: string
  er_received_at :: string
  er_correlation_ref :: "string option"
  er_commitment_type :: "string option"
  er_commitment_id :: "string option"
  er_commitment_transition :: "string option"
  er_policy_violation :: "string option"
  er_canonical_json :: string

record stream_row =
  sr_stream :: string
  sr_kind :: string
  sr_head_seq :: nat
  sr_head_hash :: string
  sr_first_seen_at :: string
  sr_last_appended_at :: string

record payload_row =
  py_hash :: string
  py_media_type :: string
  py_bytes :: string
  py_first_seen_at :: string

record payload_ref =
  rf_hash :: string
  rf_envelope_id :: string
  rf_stream :: string
  rf_retain_until :: string

record checkpoint_row =
  ck_stream :: string
  ck_from_seq :: nat
  ck_to_seq :: nat
  ck_head_hash :: string
  ck_envelope_id :: string
  ck_observed_at :: string

record rejection_row =
  rj_stream :: string
  rj_seq :: nat
  rj_id :: string
  rj_prev_hash :: "string option"
  rj_reason :: string
  rj_detail :: string
  rj_object_hash :: string
  rj_submitted_by :: "string option"
  rj_received_at :: string
  rj_claimed_stream :: "string option"
  rj_claimed_seq :: "nat option"
  rj_claimed_kind :: "string option"
  rj_record_json :: string

record gate_use_row =
  gu_request_hash :: string
  gu_envelope_id :: string
  gu_decided_by :: string
  gu_single_use :: bool
  gu_not_after :: string
  gu_recorded_at :: string

record gate_request_row =
  gq_request_hash :: string
  gq_request_json :: string
  gq_submitted_by :: string
  gq_received_at :: string
  gq_subject :: string
  gq_subject_key :: string
  gq_component :: string
  gq_mandate_ref :: string
  gq_policy_version :: string
  gq_classification :: string
  gq_action :: string
  gq_target :: string
  gq_args_hash :: string
  gq_requested_at :: string
  gq_not_after :: string

record gate_arguments_row =
  ga_request_hash :: string
  ga_arguments :: string
  ga_recorded_at :: string

record gate_decision_stored =
  dc_request_hash :: string
  dc_verdict :: string
  dc_reason :: "string option"
  dc_decided_by :: string
  dc_decided_at :: string
  dc_decision_json :: string
  dc_envelope_id :: string
  dc_recorded_at :: string

record policy_row =
  pr_version :: string
  pr_document_hash :: string
  pr_document_json :: string
  pr_published_by :: string
  pr_envelope_id :: string
  pr_published_at :: string
  pr_ordinal :: nat

record manifest_row =
  mf_name :: string
  mf_version :: string
  mf_hash :: string
  mf_component_key :: string
  mf_document_json :: string
  mf_envelope_id :: string
  mf_registered_at :: string
  mf_ordinal :: nat

record root_row =
  rt_key :: string
  rt_subject :: string
  rt_enrolled_at :: string
  rt_retired_at :: "string option"
  rt_envelope_id :: string

record mandate_row =
  mr_id :: string
  mr_parent :: "string option"
  mr_kind :: string
  mr_grantor_key :: string
  mr_grantee_key :: string
  mr_grantee_subject :: string
  mr_not_before :: string
  mr_not_after :: string
  mr_document_json :: string
  mr_envelope_id :: string

record revocation_row =
  rv_id :: string
  rv_revokes :: string
  rv_revoked_at :: string
  rv_document_json :: string
  rv_envelope_id :: string

record resume_row =
  rs_stream :: string
  rs_resume_seq :: nat
  rs_bridge_hash :: string
  rs_reason_code :: string
  rs_envelope_id :: string
  rs_authorized_at :: string

text \<open>The database, and the name of the rejection stream the store was opened with. Two tables that are only read and
  written under their key are maps from it.\<close>

record store =
  envelopes :: "envelope_row list"
  streams :: "stream_row list"
  payloads :: "payload_row list"
  payload_refs :: "payload_ref list"
  checkpoints :: "checkpoint_row list"
  rejections :: "rejection_row list"
  gate_uses :: "gate_use_row list"
  gate_requests :: "gate_request_row list"
  gate_arguments :: "gate_arguments_row list"
  gate_decisions :: "gate_decision_stored list"
  policies :: "policy_row list"
  manifests :: "manifest_row list"
  root_rows :: "root_row list"
  mandate_rows :: "mandate_row list"
  revocation_rows :: "revocation_row list"
  stream_resumes :: "resume_row list"
  counters :: "string \<rightharpoonup> nat"
  spend_table :: "string \<times> string \<rightharpoonup> string"
  rejection_stream :: string

definition empty_store :: "string \<Rightarrow> store" where
  "empty_store name =
     \<lparr>envelopes = [], streams = [], payloads = [], payload_refs = [], checkpoints = [], rejections = [], gate_uses = [],
      gate_requests = [], gate_arguments = [], gate_decisions = [], policies = [], manifests = [], root_rows = [],
      mandate_rows = [], revocation_rows = [], stream_resumes = [], counters = Map.empty, spend_table = Map.empty,
      rejection_stream = name\<rparr>"

section \<open>Lookups\<close>

definition of_stream :: "string \<Rightarrow> envelope_row list \<Rightarrow> envelope_row list" where
  "of_stream s rows = filter (\<lambda>r. er_stream r = s) rows"

definition envelope_by_id :: "store \<Rightarrow> string \<Rightarrow> envelope_row option" where
  "envelope_by_id st i = List.find (\<lambda>r. er_id r = i) (envelopes st)"

definition stream_head :: "store \<Rightarrow> string \<Rightarrow> (nat \<times> string) option" where
  "stream_head st s = map_option (\<lambda>r. (er_seq r, er_id r)) (greatest er_seq (of_stream s (envelopes st)))"

definition range_of :: "ext \<Rightarrow> store \<Rightarrow> string \<Rightarrow> u64 \<Rightarrow> u64 \<Rightarrow> json list res" where
  "range_of x st s from_seq to_seq =
     map_res (\<lambda>r. parse x (er_canonical_json r))
       (sort_key er_seq (filter (\<lambda>r. seq_column from_seq \<le> er_seq r \<and> er_seq r \<le> seq_column to_seq) (of_stream s (envelopes st))))"

definition streams_holding_envelopes :: "store \<Rightarrow> string list" where
  "streams_holding_envelopes st = sort (remdups (List.map er_stream (envelopes st)))"

definition stream_kind :: "store \<Rightarrow> string \<Rightarrow> string option" where
  "stream_kind st s = map_option sr_kind (List.find (\<lambda>r. sr_stream r = s) (streams st))"

definition stream_resume_at :: "store \<Rightarrow> string \<Rightarrow> nat \<Rightarrow> string option" where
  "stream_resume_at st s n =
     map_option rs_bridge_hash (List.find (\<lambda>r. rs_stream r = s \<and> rs_resume_seq r = n) (stream_resumes st))"

definition rejection_at :: "store \<Rightarrow> string \<Rightarrow> nat \<Rightarrow> string option" where
  "rejection_at st s n =
     map_option rj_object_hash
       (greatest rj_seq (filter (\<lambda>r. rj_claimed_stream r = Some s \<and> rj_claimed_seq r = Some n) (rejections st)))"

definition last_checkpoint :: "store \<Rightarrow> string \<Rightarrow> checkpoint_row option" where
  "last_checkpoint st s = greatest ck_to_seq (filter (\<lambda>r. ck_stream r = s) (checkpoints st))"

definition gate_use_of :: "store \<Rightarrow> string \<Rightarrow> gate_use_row option" where
  "gate_use_of st h = List.find (\<lambda>r. gu_request_hash r = h) (gate_uses st)"

definition gate_request_spent_by :: "store \<Rightarrow> string \<Rightarrow> string option" where
  "gate_request_spent_by st h =
     map_option gu_envelope_id (List.find (\<lambda>r. gu_request_hash r = h \<and> gu_single_use r) (gate_uses st))"

definition spend_of :: "store \<Rightarrow> string \<Rightarrow> string \<rightharpoonup> string" where
  "spend_of st m = (\<lambda>d. spend_table st (m, d))"

text \<open>\<open>next_counter\<close>: the counter's next value, from 1.\<close>

definition next_counter :: "store \<Rightarrow> string \<Rightarrow> nat \<times> store" where
  "next_counter st name =
     (let value = (case counters st name of None \<Rightarrow> 1 | Some v \<Rightarrow> v + 1)
      in (value, st\<lparr>counters := (counters st)(name \<mapsto> value)\<rparr>))"

text \<open>\<open>mandate_line\<close>: a mandate and its ancestors, at most 64 of them, stopping at a repetition.\<close>

definition parent_of :: "store \<Rightarrow> string \<Rightarrow> string option" where
  "parent_of st i = Option.bind (List.find (\<lambda>r. mr_id r = i) (mandate_rows st)) mr_parent"

fun line_from :: "store \<Rightarrow> nat \<Rightarrow> string list \<Rightarrow> string \<Rightarrow> string list" where
  "line_from st 0 line current = line"
| "line_from st (Suc n) line current =
     (case parent_of st current of
        Some parent \<Rightarrow> if parent \<in> set line then line else line_from st n (line @ [parent]) parent
      | None \<Rightarrow> line)"

definition mandate_line :: "store \<Rightarrow> string \<Rightarrow> string list" where
  "mandate_line st i = line_from st 64 [i] i"

section \<open>Facts\<close>

lemma seq_column_bound: "seq_column s + 2 < 2 ^ 64"
  by (simp add: seq_column_def)

lemma seq_column_small: "unat s \<le> 9223372036854775807 \<Longrightarrow> seq_column s = unat s"
  by (simp add: seq_column_def)

lemma of_stream_simps [simp]:
  "of_stream s [] = []"
  "of_stream s (r # rows) = (if er_stream r = s then r # of_stream s rows else of_stream s rows)"
  "of_stream s (rows @ rows') = of_stream s rows @ of_stream s rows'"
  "set (of_stream s rows) = {r \<in> set rows. er_stream r = s}"
  by (auto simp: of_stream_def)

lemma stream_head_None: "stream_head st s = None \<longleftrightarrow> (\<forall>r \<in> set (envelopes st). er_stream r \<noteq> s)"
  by (auto simp: stream_head_def of_stream_def filter_empty_conv)

lemma stream_head_SomeD:
  assumes "stream_head st s = Some (n, i)"
  shows "\<exists>r \<in> set (envelopes st). er_stream r = s \<and> er_seq r = n \<and> er_id r = i
    \<and> (\<forall>q \<in> set (envelopes st). er_stream q = s \<longrightarrow> er_seq q \<le> n)"
  using assms by (auto simp: stream_head_def dest!: greatest_SomeD)

lemma line_from_prefix: "\<exists>more. line_from st n line current = line @ more"
  by (induction st n line current rule: line_from.induct) (auto split: option.splits)

lemma line_from_distinct: "distinct line \<Longrightarrow> distinct (line_from st n line current)"
  by (induction st n line current rule: line_from.induct) (auto split: option.splits)

lemma line_from_length: "length (line_from st n line current) \<le> length line + n"
proof (induction st n line current rule: line_from.induct)
  case (2 st n line current)
  then show ?case by (fastforce split: option.splits)
qed simp

lemma mandate_line_distinct: "distinct (mandate_line st i)"
  by (simp add: mandate_line_def line_from_distinct)

lemma mandate_line_self: "i \<in> set (mandate_line st i)"
  using line_from_prefix [of st 64 "[i]" i] by (auto simp: mandate_line_def)

end
