(* ===== verification/Append.thy ===== *)
theory Append
  imports Tables Decimal
begin

text \<open>
  The single write path of the store, \<open>Store::append\<close> with \<open>write_projections\<close>. A transaction is a function from the
  store to a result: \<open>Inl\<close> is a rollback, which leaves the store as it was. The primary keys and the insert
  triggers of \<open>src/sql\<close> and \<open>migrate.rs\<close> are part of the inserts.
\<close>

section \<open>Plans\<close>

record checkpoint_claim =
  cc_stream :: string
  cc_from_seq :: u64
  cc_to_seq :: u64
  cc_head_hash :: string
  cc_observed_at :: string

record gate_decision_row =
  dr_request_hash :: string
  dr_verdict :: string
  dr_reason :: "string option"
  dr_decided_by :: string
  dr_decided_at :: string
  dr_decision :: json

record stream_resume =
  re_stream :: string
  re_resume_seq :: u64
  re_bridge_hash :: string
  re_reason_code :: string

record projections =
  pj_mandate :: "(string \<times> json) option"
  pj_revocation :: "(string \<times> json) option"
  pj_policy :: "(string \<times> json \<times> string) option"
  pj_manifest :: "(string \<times> string \<times> string \<times> string \<times> json) option"
  pj_enroll_root :: "(string \<times> string) option"
  pj_retire_root :: "string option"
  pj_checkpoint :: "checkpoint_claim option"
  pj_gate_decision :: "gate_decision_row option"
  pj_stream_resume :: "stream_resume option"

definition no_projections :: projections where
  "no_projections =
     \<lparr>pj_mandate = None, pj_revocation = None, pj_policy = None, pj_manifest = None, pj_enroll_root = None,
      pj_retire_root = None, pj_checkpoint = None, pj_gate_decision = None, pj_stream_resume = None\<rparr>"

text \<open>The mandates an envelope charges, and the amounts in the order of a \<open>BTreeMap\<close>.\<close>

record spend_accrual =
  sp_mandates :: "string list"
  sp_amounts :: "(string \<times> string) list"

record payload_plan =
  pp_hash :: string
  pp_media_type :: string
  pp_bytes :: string
  pp_retain_until :: string

record gate_use =
  us_request_hash :: string
  us_decided_by :: string
  us_single_use :: bool
  us_not_after :: string

record append_plan =
  ap_envelope :: json
  ap_id :: string
  ap_canonical_json :: string
  ap_stream_kind :: string
  ap_received_at :: string
  ap_human_root :: "string option"
  ap_effective_class :: "string option"
  ap_policy_violation :: "string option"
  ap_payloads :: "payload_plan list"
  ap_gate_use :: "gate_use option"
  ap_projections :: projections
  ap_spend :: "spend_accrual option"

record appended =
  ad_id :: string
  ad_stream :: string
  ad_seq :: nat
  ad_idempotent :: bool

definition stream_of :: "append_plan \<Rightarrow> string" where
  "stream_of plan = (case as_str (index (ap_envelope plan) ''stream'') of Some s \<Rightarrow> s | None \<Rightarrow> [])"

definition seq_of_plan :: "append_plan \<Rightarrow> u64" where
  "seq_of_plan plan = (case as_u64 (index (ap_envelope plan) ''seq'') of Some n \<Rightarrow> n | None \<Rightarrow> 0)"

definition claimed_prev :: "append_plan \<Rightarrow> string option" where
  "claimed_prev plan = as_str (index (ap_envelope plan) ''prev-hash'')"

section \<open>Chain position\<close>

definition bridge_of :: "store \<Rightarrow> string \<Rightarrow> u64 \<Rightarrow> string option" where
  "bridge_of st stream seq =
     (let bridgeable_at = (case stream_head st stream of None \<Rightarrow> 1 | Some (head_seq, _) \<Rightarrow> head_seq + 2)
      in if unat seq = bridgeable_at then stream_resume_at st stream (seq_column (seq - 1)) else None)"

definition check_position :: "store \<Rightarrow> string \<Rightarrow> u64 \<Rightarrow> string option \<Rightarrow> unit res" where
  "check_position st stream seq prev =
     (let bridge = bridge_of st stream seq;
          bridged = bridge \<noteq> None \<and> bridge = prev
      in case stream_head st stream of
           None \<Rightarrow>
             if seq \<noteq> 0 \<and> \<not> bridged then Inl (at_seq seq (err ''chain-seq-gap''))
             else if seq = 0 \<and> prev \<noteq> None then Inl (at_seq seq (err ''chain-genesis-prev-not-null''))
             else Inr ()
         | Some (head_seq, head_id) \<Rightarrow>
             if unat seq \<le> head_seq then Inl (at_seq seq (err ''chain-seq-duplicate''))
             else if unat seq > head_seq + 1 \<and> \<not> bridged then Inl (at_seq seq (err ''chain-seq-gap''))
             else if unat seq > head_seq + 1 then Inr ()
             else if prev \<noteq> Some head_id then Inl (at_seq seq (err ''chain-prev-hash-mismatch''))
             else Inr ())"

definition check_stream_kind :: "store \<Rightarrow> string \<Rightarrow> string \<Rightarrow> unit res" where
  "check_stream_kind st stream kind =
     (case stream_kind st stream of
        Some declared \<Rightarrow> if declared \<noteq> kind then Inl (err ''stream-kind-mixed'') else Inr ()
      | None \<Rightarrow> Inr ())"

section \<open>The replay set\<close>

definition record_gate_use :: "append_plan \<Rightarrow> store \<Rightarrow> store res" where
  "record_gate_use plan st =
     (case ap_gate_use plan of
        None \<Rightarrow> Inr st
      | Some use \<Rightarrow>
          (case gate_use_of st (us_request_hash use) of
             None \<Rightarrow>
               Inr (st\<lparr>gate_uses := gate_uses st @
                 [\<lparr>gu_request_hash = us_request_hash use, gu_envelope_id = ap_id plan, gu_decided_by = us_decided_by use,
                   gu_single_use = us_single_use use, gu_not_after = us_not_after use,
                   gu_recorded_at = ap_received_at plan\<rparr>]\<rparr>)
           | Some before \<Rightarrow>
               if gu_single_use before \<or> us_single_use use then Inl (err ''gate-authorization-replayed'') else Inr st))"

section \<open>The envelope row\<close>

definition not_null :: "'a option \<Rightarrow> 'a res" where
  "not_null v = ok_or v store_unavailable"

definition extends_chain :: "store \<Rightarrow> string \<Rightarrow> nat \<Rightarrow> string option \<Rightarrow> bool" where
  "extends_chain st stream n prev \<longleftrightarrow>
     (if n = 0 then prev = None \<and> of_stream stream (envelopes st) = []
      else list_ex (\<lambda>r. er_seq r = n - 1 \<and> prev = Some (er_id r)) (of_stream stream (envelopes st))
        \<or> list_ex (\<lambda>r. rs_stream r = stream \<and> rs_resume_seq r = n - 1 \<and> prev = Some (rs_bridge_hash r)) (stream_resumes st))"

definition envelope_row_of :: "append_plan \<Rightarrow> envelope_row res" where
  "envelope_row_of plan =
     (let e = ap_envelope plan; identity = index e ''identity''; execution = get e ''execution'';
          commitment = get e ''commitment-ref'';
          nested = (\<lambda>part k. Option.bind part (\<lambda>v. as_str (index v k)))
      in
        and_then (not_null (as_str (index e ''kind''))) (\<lambda>kind.
        and_then (not_null (as_str (index identity ''subject''))) (\<lambda>subject.
        and_then (not_null (as_str (index identity ''key''))) (\<lambda>key.
        and_then (not_null (as_str (index identity ''component''))) (\<lambda>owner.
        and_then (not_null (as_str (index e ''emitted-at''))) (\<lambda>emitted.
          Inr \<lparr>er_stream = stream_of plan, er_seq = seq_column (seq_of_plan plan), er_id = ap_id plan,
            er_prev_hash = claimed_prev plan, er_kind = kind, er_subject = subject, er_subject_key = key,
            er_component = owner, er_mandate_ref = as_str (index e ''mandate-ref''), er_human_root = ap_human_root plan,
            er_policy_version = as_str (index e ''policy-version''),
            er_classification = as_str (index e ''classification''), er_effective_class = ap_effective_class plan,
            er_action = nested execution ''action'', er_target = nested execution ''target'',
            er_args_hash = nested execution ''args-hash'', er_outcome = nested execution ''outcome'',
            er_emitted_at = emitted, er_received_at = ap_received_at plan,
            er_correlation_ref = as_str (index e ''correlation-ref''),
            er_commitment_type = nested commitment ''object-type'', er_commitment_id = nested commitment ''object-id'',
            er_commitment_transition = nested commitment ''transition'', er_policy_violation = ap_policy_violation plan,
            er_canonical_json = ap_canonical_json plan\<rparr>))))))"

definition insert_envelope :: "append_plan \<Rightarrow> store \<Rightarrow> store res" where
  "insert_envelope plan st =
     (if \<not> extends_chain st (stream_of plan) (seq_column (seq_of_plan plan)) (claimed_prev plan)
      then Inl (err store_unavailable)
      else
        and_then (envelope_row_of plan) (\<lambda>row.
          if list_ex (\<lambda>r. er_stream r = er_stream row \<and> er_seq r = er_seq row \<or> er_id r = er_id row) (envelopes st)
          then Inl (at_seq (seq_of_plan plan) (err ''chain-seq-duplicate''))
          else Inr (st\<lparr>envelopes := envelopes st @ [row]\<rparr>)))"

section \<open>Payloads\<close>

definition store_payload :: "append_plan \<Rightarrow> store \<Rightarrow> payload_plan \<Rightarrow> store" where
  "store_payload plan st p =
     st\<lparr>payloads :=
          (if list_ex (\<lambda>r. py_hash r = pp_hash p) (payloads st) then payloads st
           else payloads st @
             [\<lparr>py_hash = pp_hash p, py_media_type = pp_media_type p, py_bytes = pp_bytes p,
               py_first_seen_at = ap_received_at plan\<rparr>]),
        payload_refs :=
          (if list_ex (\<lambda>r. rf_hash r = pp_hash p \<and> rf_envelope_id r = ap_id plan) (payload_refs st) then payload_refs st
           else payload_refs st @
             [\<lparr>rf_hash = pp_hash p, rf_envelope_id = ap_id plan, rf_stream = stream_of plan,
               rf_retain_until = pp_retain_until p\<rparr>])\<rparr>"

definition store_payloads :: "append_plan \<Rightarrow> store \<Rightarrow> store" where
  "store_payloads plan st = foldl (store_payload plan) st (ap_payloads plan)"


section \<open>Projections\<close>

definition project_mandate :: "ext \<Rightarrow> append_plan \<Rightarrow> store \<Rightarrow> store res" where
  "project_mandate x plan st =
     (case pj_mandate (ap_projections plan) of
        None \<Rightarrow> Inr st
      | Some (i, m) \<Rightarrow>
          and_then (canonicalize x m) (\<lambda>text.
          and_then (not_null (as_str (index m ''mandate-kind''))) (\<lambda>kind.
          and_then (not_null (as_str (index (index m ''grantor'') ''key''))) (\<lambda>grantor.
          and_then (not_null (as_str (index (index m ''grantee'') ''key''))) (\<lambda>grantee.
          and_then (not_null (as_str (index (index m ''grantee'') ''subject''))) (\<lambda>subject.
          and_then (not_null (as_str (index m ''not-before''))) (\<lambda>not_before.
          and_then (not_null (as_str (index m ''not-after''))) (\<lambda>not_after.
            if list_ex (\<lambda>r. mr_id r = i) (mandate_rows st) then Inr st
            else
              Inr (st\<lparr>mandate_rows := mandate_rows st @
                [\<lparr>mr_id = i, mr_parent = as_str (index m ''parent''), mr_kind = kind, mr_grantor_key = grantor,
                  mr_grantee_key = grantee, mr_grantee_subject = subject, mr_not_before = not_before,
                  mr_not_after = not_after, mr_document_json = text, mr_envelope_id = ap_id plan\<rparr>]\<rparr>)))))))))"

definition project_revocation :: "ext \<Rightarrow> append_plan \<Rightarrow> store \<Rightarrow> store res" where
  "project_revocation x plan st =
     (case pj_revocation (ap_projections plan) of
        None \<Rightarrow> Inr st
      | Some (i, r) \<Rightarrow>
          and_then (canonicalize x r) (\<lambda>text.
          and_then (not_null (as_str (index r ''revokes''))) (\<lambda>revokes.
          and_then (not_null (as_str (index r ''revoked-at''))) (\<lambda>revoked_at.
            if list_ex (\<lambda>q. rv_id q = i) (revocation_rows st) then Inr st
            else
              Inr (st\<lparr>revocation_rows := revocation_rows st @
                [\<lparr>rv_id = i, rv_revokes = revokes, rv_revoked_at = revoked_at, rv_document_json = text,
                  rv_envelope_id = ap_id plan\<rparr>]\<rparr>)))))"

definition project_policy :: "ext \<Rightarrow> append_plan \<Rightarrow> store \<Rightarrow> store res" where
  "project_policy x plan st =
     (case pj_policy (ap_projections plan) of
        None \<Rightarrow> Inr st
      | Some (v, doc, h) \<Rightarrow>
          (case next_counter st ''policy-ordinal'' of
             (ordinal, st') \<Rightarrow>
               and_then (canonicalize x doc) (\<lambda>text.
               and_then (not_null (as_str (index (index (ap_envelope plan) ''identity'') ''subject''))) (\<lambda>publisher.
                 if list_ex (\<lambda>r. pr_version r = v \<or> pr_ordinal r = ordinal) (policies st')
                 then Inl (err ''policy-version-reused'')
                 else
                   Inr (st'\<lparr>policies := policies st' @
                     [\<lparr>pr_version = v, pr_document_hash = h, pr_document_json = text, pr_published_by = publisher,
                       pr_envelope_id = ap_id plan, pr_published_at = ap_received_at plan, pr_ordinal = ordinal\<rparr>]\<rparr>)))))"

definition project_manifest :: "ext \<Rightarrow> append_plan \<Rightarrow> store \<Rightarrow> store res" where
  "project_manifest x plan st =
     (case pj_manifest (ap_projections plan) of
        None \<Rightarrow> Inr st
      | Some (name, v, h, key, doc) \<Rightarrow>
          (case next_counter st ''manifest-ordinal'' of
             (ordinal, st') \<Rightarrow>
               and_then (canonicalize x doc) (\<lambda>text.
                 if list_ex (\<lambda>r. mf_name r = name \<and> mf_version r = v) (manifests st')
                 then Inl (err ''manifest-version-retained'')
                 else
                   Inr (st'\<lparr>manifests := manifests st' @
                     [\<lparr>mf_name = name, mf_version = v, mf_hash = h, mf_component_key = key, mf_document_json = text,
                       mf_envelope_id = ap_id plan, mf_registered_at = ap_received_at plan, mf_ordinal = ordinal\<rparr>]\<rparr>))))"

definition enroll :: "string \<Rightarrow> string \<Rightarrow> string \<Rightarrow> string \<Rightarrow> store \<Rightarrow> store" where
  "enroll key subject enrolled_at envelope_id st =
     (if list_ex (\<lambda>r. rt_key r = key) (root_rows st) then st
      else st\<lparr>root_rows := root_rows st @
        [\<lparr>rt_key = key, rt_subject = subject, rt_enrolled_at = enrolled_at, rt_retired_at = None,
          rt_envelope_id = envelope_id\<rparr>]\<rparr>)"

definition project_enroll_root :: "append_plan \<Rightarrow> store \<Rightarrow> store res" where
  "project_enroll_root plan st =
     (case pj_enroll_root (ap_projections plan) of
        None \<Rightarrow> Inr st
      | Some (key, subject) \<Rightarrow>
          and_then (not_null (as_str (index (ap_envelope plan) ''emitted-at''))) (\<lambda>emitted.
            Inr (enroll key subject emitted (ap_id plan) st)))"

definition retire :: "string \<Rightarrow> string option \<Rightarrow> root_row \<Rightarrow> root_row" where
  "retire key instant r = (if rt_key r = key \<and> rt_retired_at r = None then r\<lparr>rt_retired_at := instant\<rparr> else r)"

definition project_retire_root :: "append_plan \<Rightarrow> store \<Rightarrow> store res" where
  "project_retire_root plan st =
     (case pj_retire_root (ap_projections plan) of
        None \<Rightarrow> Inr st
      | Some key \<Rightarrow>
          Inr (st\<lparr>root_rows := List.map (retire key (as_str (index (ap_envelope plan) ''emitted-at''))) (root_rows st)\<rparr>))"

definition project_gate_decision :: "ext \<Rightarrow> append_plan \<Rightarrow> store \<Rightarrow> store res" where
  "project_gate_decision x plan st =
     (case pj_gate_decision (ap_projections plan) of
        None \<Rightarrow> Inr st
      | Some d \<Rightarrow>
          and_then (canonicalize x (dr_decision d)) (\<lambda>text.
            if dr_verdict d \<notin> {''approve'', ''deny''} then Inl (err store_unavailable)
            else if list_ex (\<lambda>r. dc_request_hash r = dr_request_hash d) (gate_decisions st)
            then Inl (err ''gate-decision-already-recorded'')
            else
              Inr (st\<lparr>gate_decisions := gate_decisions st @
                [\<lparr>dc_request_hash = dr_request_hash d, dc_verdict = dr_verdict d, dc_reason = dr_reason d,
                  dc_decided_by = dr_decided_by d, dc_decided_at = dr_decided_at d, dc_decision_json = text,
                  dc_envelope_id = ap_id plan, dc_recorded_at = ap_received_at plan\<rparr>]\<rparr>)))"

definition project_stream_resume :: "append_plan \<Rightarrow> store \<Rightarrow> store res" where
  "project_stream_resume plan st =
     (case pj_stream_resume (ap_projections plan) of
        None \<Rightarrow> Inr st
      | Some resume \<Rightarrow>
          (let n = seq_column (re_resume_seq resume)
           in case rejection_at st (re_stream resume) n of
                None \<Rightarrow> Inl (err ''stream-resume-position-unknown'')
              | Some hash \<Rightarrow>
                  if hash \<noteq> re_bridge_hash resume then Inl (err ''stream-resume-position-unknown'')
                  else if list_ex (\<lambda>r. rs_stream r = re_stream resume \<and> rs_resume_seq r = n) (stream_resumes st) then Inr st
                  else
                    Inr (st\<lparr>stream_resumes := stream_resumes st @
                      [\<lparr>rs_stream = re_stream resume, rs_resume_seq = n, rs_bridge_hash = re_bridge_hash resume,
                        rs_reason_code = re_reason_code resume, rs_envelope_id = ap_id plan,
                        rs_authorized_at = ap_received_at plan\<rparr>]\<rparr>)))"

definition project_checkpoint :: "append_plan \<Rightarrow> store \<Rightarrow> store res" where
  "project_checkpoint plan st =
     (case pj_checkpoint (ap_projections plan) of
        None \<Rightarrow> Inr st
      | Some c \<Rightarrow>
          (let expected_from = (case last_checkpoint st (cc_stream c) of None \<Rightarrow> 0 | Some row \<Rightarrow> ck_to_seq row + 1)
           in
             if unat (cc_from_seq c) \<noteq> expected_from then Inl (err ''checkpoint-range-discontinuous'')
             else if list_ex (\<lambda>r. ck_stream r = cc_stream c \<and> ck_from_seq r = seq_column (cc_from_seq c)) (checkpoints st)
             then Inl (err ''checkpoint-range-discontinuous'')
             else
               Inr (st\<lparr>checkpoints := checkpoints st @
                 [\<lparr>ck_stream = cc_stream c, ck_from_seq = seq_column (cc_from_seq c), ck_to_seq = seq_column (cc_to_seq c),
                   ck_head_hash = cc_head_hash c, ck_envelope_id = ap_id plan, ck_observed_at = cc_observed_at c\<rparr>]\<rparr>)))"

section \<open>Spend\<close>

definition held_plus :: "string option \<Rightarrow> string \<Rightarrow> string res" where
  "held_plus held charge = (case held of Some h \<Rightarrow> add h charge | None \<Rightarrow> Inr charge)"

fun charge_all :: "store \<Rightarrow> (string \<times> string \<times> string) list \<Rightarrow> store res" where
  "charge_all st [] = Inr st"
| "charge_all st ((m, d, charge) # rest) =
     and_then (held_plus (spend_table st (m, d)) charge) (\<lambda>tot.
       charge_all (st\<lparr>spend_table := (spend_table st)((m, d) \<mapsto> tot)\<rparr>) rest)"

definition charges_of :: "string list \<Rightarrow> (string \<times> string) list \<Rightarrow> (string \<times> string \<times> string) list" where
  "charges_of mandates dims = concat (List.map (\<lambda>m. List.map (\<lambda>dc. (m, dc)) dims) mandates)"

definition project_spend :: "append_plan \<Rightarrow> store \<Rightarrow> store res" where
  "project_spend plan st =
     (case ap_spend plan of
        None \<Rightarrow> Inr st
      | Some accrual \<Rightarrow> charge_all st (charges_of (sp_mandates accrual) (sp_amounts accrual)))"

definition write_projections :: "ext \<Rightarrow> append_plan \<Rightarrow> store \<Rightarrow> store res" where
  "write_projections x plan st =
     and_then (project_mandate x plan st) (\<lambda>st.
     and_then (project_revocation x plan st) (\<lambda>st.
     and_then (project_policy x plan st) (\<lambda>st.
     and_then (project_manifest x plan st) (\<lambda>st.
     and_then (project_enroll_root plan st) (\<lambda>st.
     and_then (project_retire_root plan st) (\<lambda>st.
     and_then (project_gate_decision x plan st) (\<lambda>st.
     and_then (project_stream_resume plan st) (\<lambda>st.
     and_then (project_checkpoint plan st) (\<lambda>st.
       project_spend plan st)))))))))"

section \<open>Appending\<close>

definition touch_stream :: "append_plan \<Rightarrow> store \<Rightarrow> store" where
  "touch_stream plan st =
     (let s = stream_of plan; n = seq_column (seq_of_plan plan)
      in if list_ex (\<lambda>r. sr_stream r = s) (streams st)
         then st\<lparr>streams := List.map (\<lambda>r. if sr_stream r = s
                then r\<lparr>sr_head_seq := n, sr_head_hash := ap_id plan, sr_last_appended_at := ap_received_at plan\<rparr> else r) (streams st)\<rparr>
         else st\<lparr>streams := streams st @
                [\<lparr>sr_stream = s, sr_kind = ap_stream_kind plan, sr_head_seq = n, sr_head_hash = ap_id plan,
                  sr_first_seen_at = ap_received_at plan, sr_last_appended_at = ap_received_at plan\<rparr>]\<rparr>)"

definition append_fresh :: "ext \<Rightarrow> append_plan \<Rightarrow> store \<Rightarrow> store res" where
  "append_fresh x plan st =
     and_then (check_stream_kind st (stream_of plan) (ap_stream_kind plan)) (\<lambda>_.
     and_then (check_position st (stream_of plan) (seq_of_plan plan) (claimed_prev plan)) (\<lambda>_.
     and_then (record_gate_use plan st) (\<lambda>st.
     and_then (insert_envelope plan st) (\<lambda>st.
     and_then (write_projections x plan (store_payloads plan st)) (\<lambda>st.
       Inr (touch_stream plan st))))))"

definition append_envelope :: "ext \<Rightarrow> append_plan \<Rightarrow> store \<Rightarrow> (store \<times> appended) res" where
  "append_envelope x plan st =
     (case envelope_by_id st (ap_id plan) of
        Some row \<Rightarrow>
          Inr (st, \<lparr>ad_id = ap_id plan, ad_stream = er_stream row, ad_seq = er_seq row, ad_idempotent = True\<rparr>)
      | None \<Rightarrow>
          and_then (append_fresh x plan st) (\<lambda>st'.
            Inr (st', \<lparr>ad_id = ap_id plan, ad_stream = stream_of plan, ad_seq = unat (seq_of_plan plan),
                      ad_idempotent = False\<rparr>)))"

end
