(* ===== verification/Upkeep.thy ===== *)
theory Upkeep
  imports Append Gatequeue Budget
begin

text \<open>
  The store's other operations, \<open>stozher-kernel/src/store.rs\<close>: recording a rejection in the kernel's own chain, parking
  a request in the queue, erasing what has expired, rebuilding the spend totals, and the resume cursor of the audit
  query. Each is a function from the store to a result, as an append is.
\<close>

section \<open>Rejections\<close>

record rejection_input =
  ri_reason :: string
  ri_detail :: string
  ri_object_hash :: string
  ri_submitted_by :: "string option"
  ri_received_at :: string
  ri_claimed_stream :: "string option"
  ri_claimed_seq :: "u64 option"
  ri_claimed_kind :: "string option"

record rejection_record =
  rr_id :: string
  rr_seq :: nat
  rr_reason :: string

definition text_or_null :: "string option \<Rightarrow> json" where
  "text_or_null s = (case s of Some t \<Rightarrow> JString t | None \<Rightarrow> JNull)"

definition rejection_body :: "ext \<Rightarrow> string \<Rightarrow> string \<Rightarrow> nat \<Rightarrow> string option \<Rightarrow> rejection_input \<Rightarrow> json" where
  "rejection_body x secret stream n prev input =
     JObject
       [(''detail'', JString (ri_detail input)),
        (''identity'', JObject
           [(''component'', JString ''kernel''),
            (''key'', JString (as_string (from_public_key x (public_key_of x secret)))),
            (''subject'', JString ''agent:kernel'')]),
        (''kind'', JString ''rejection''), (''object-hash'', JString (ri_object_hash input)),
        (''prev-hash'', text_or_null prev), (''reason'', JString (ri_reason input)),
        (''received-at'', JString (ri_received_at input)), (''seq'', JNumber (PosInt (of_nat n))),
        (''stream'', JString stream), (''submitted-by'', text_or_null (ri_submitted_by input)),
        (''v'', JString version)]"

definition rejection_head :: "store \<Rightarrow> (nat \<times> string) option" where
  "rejection_head st =
     map_option (\<lambda>r. (rj_seq r, rj_id r)) (greatest rj_seq (filter (\<lambda>r. rj_stream r = rejection_stream st) (rejections st)))"

definition claimed_column :: "u64 option \<Rightarrow> nat option" where
  "claimed_column s = (case s of Some n \<Rightarrow> if unat n \<le> 9223372036854775807 then Some (unat n) else None | None \<Rightarrow> None)"

definition rejection_position :: "store \<Rightarrow> nat \<times> string option" where
  "rejection_position st =
     (case rejection_head st of Some (head_seq, head_id) \<Rightarrow> (head_seq + 1, Some head_id) | None \<Rightarrow> (0, None))"

definition signed_rejection :: "ext \<Rightarrow> string \<Rightarrow> rejection_input \<Rightarrow> store \<Rightarrow> json res" where
  "signed_rejection x secret input st =
     (let (n, prev) = rejection_position st
      in sign_object x (rejection_body x secret (rejection_stream st) n prev input) secret)"

definition record_rejection :: "ext \<Rightarrow> string \<Rightarrow> rejection_input \<Rightarrow> store \<Rightarrow> (store \<times> rejection_record) res" where
  "record_rejection x secret input st =
     (let (n, prev) = rejection_position st
      in
        and_then (signed_rejection x secret input st) (\<lambda>rec.
        and_then (canonicalize x rec) (\<lambda>text.
        and_then (object_id x rec) (\<lambda>i.
          if list_ex (\<lambda>r. rj_id r = i) (rejections st) then Inl (err store_unavailable)
          else
            Inr (st\<lparr>rejections := rejections st @
                   [\<lparr>rj_stream = rejection_stream st, rj_seq = n, rj_id = i, rj_prev_hash = prev,
                     rj_reason = ri_reason input, rj_detail = ri_detail input, rj_object_hash = ri_object_hash input,
                     rj_submitted_by = ri_submitted_by input, rj_received_at = ri_received_at input,
                     rj_claimed_stream = ri_claimed_stream input, rj_claimed_seq = claimed_column (ri_claimed_seq input),
                     rj_claimed_kind = ri_claimed_kind input, rj_record_json = text\<rparr>]\<rparr>,
                 \<lparr>rr_id = i, rr_seq = n, rr_reason = ri_reason input\<rparr>)))))"

definition rejection_chain :: "ext \<Rightarrow> store \<Rightarrow> json list res" where
  "rejection_chain x st = map_res (\<lambda>r. parse x (rj_record_json r)) (sort_key rj_seq (rejections st))"

text \<open>\<open>verify_rejection_chain\<close>: the loop over the records with the index and the id of the last one.\<close>

definition check_rejection_link :: "string option \<Rightarrow> string option \<Rightarrow> u64 \<Rightarrow> unit res" where
  "check_rejection_link previous claimed seq =
     (case (previous, claimed) of
        (None, None) \<Rightarrow> Inr ()
      | (None, Some _) \<Rightarrow> Inl (at_seq seq (err ''chain-genesis-prev-not-null''))
      | (Some actual, Some c) \<Rightarrow> if c = actual then Inr () else Inl (at_seq seq (err ''chain-prev-hash-mismatch''))
      | (Some _, None) \<Rightarrow> Inl (at_seq seq (err ''chain-prev-hash-missing'')))"

fun verify_rejections_from :: "ext \<Rightarrow> string \<Rightarrow> nat \<Rightarrow> string option \<Rightarrow> json list \<Rightarrow> string option res" where
  "verify_rejections_from x stream n previous [] = Inr previous"
| "verify_rejections_from x stream n previous (record # rest) =
     (let seq = (case as_u64 (index record ''seq'') of Some s \<Rightarrow> s | None \<Rightarrow> 0)
      in
        and_then (map_err (at_seq seq) (verify_signed_object x record)) (\<lambda>_.
          if as_str (index record ''stream'') \<noteq> Some stream then Inl (at_seq seq (err ''chain-stream-mismatch''))
          else if seq \<noteq> of_nat n
          then Inl (at_seq seq (err (if seq < of_nat n then ''chain-seq-duplicate'' else ''chain-seq-gap'')))
          else
            and_then (check_rejection_link previous (as_str (index record ''prev-hash'')) seq) (\<lambda>_.
            and_then (object_id x record) (\<lambda>i.
              verify_rejections_from x stream (Suc n) (Some i) rest))))"

definition verify_rejection_chain :: "ext \<Rightarrow> json list \<Rightarrow> string \<Rightarrow> string option res" where
  "verify_rejection_chain x records stream = verify_rejections_from x stream 0 None records"

definition reason_histogram :: "json list \<Rightarrow> string \<rightharpoonup> nat" where
  "reason_histogram records =
     foldl (\<lambda>h record.
        (case as_str (index record ''reason'') of
           Some reason \<Rightarrow> h(reason \<mapsto> (case h reason of Some n \<Rightarrow> n | None \<Rightarrow> 0) + 1)
         | None \<Rightarrow> h)) Map.empty records"

section \<open>The pending queue\<close>

definition gate_requests_since :: "store \<Rightarrow> string \<Rightarrow> string \<Rightarrow> nat" where
  "gate_requests_since st subject since =
     length (filter (\<lambda>r. gq_subject r = subject \<and> gq_received_at r \<ge> since) (gate_requests st))"

text \<open>\<open>u32::try_from(count).unwrap_or(u32::MAX)\<close>\<close>

definition parked_count :: "nat \<Rightarrow> u32" where
  "parked_count n = (if n < 4294967296 then of_nat n else 4294967295)"

definition check_cap :: "store \<Rightarrow> string \<Rightarrow> (u32 \<times> string) option \<Rightarrow> unit res" where
  "check_cap st subject cap =
     (case cap of
        None \<Rightarrow> Inr ()
      | Some (per_subject, since) \<Rightarrow>
          if parked_count (gate_requests_since st subject since) \<ge> per_subject then Inl (err ''gate-rate-limited'')
          else Inr ())"

definition queue_gate_request ::
  "ext \<Rightarrow> gate_request \<Rightarrow> string \<Rightarrow> string \<Rightarrow> (u32 \<times> string) option \<Rightarrow> string option \<Rightarrow> store \<Rightarrow> (store \<times> bool) res" where
  "queue_gate_request x rq submitted_by received_at cap arguments st =
     and_then (check_cap st (gr_subject rq) cap) (\<lambda>_.
     and_then (canonicalize x (gr_request rq)) (\<lambda>text.
       if list_ex (\<lambda>r. gq_request_hash r = gr_hash rq) (gate_requests st) then Inr (st, False)
       else
         (let st' = st\<lparr>gate_requests := gate_requests st @
                [\<lparr>gq_request_hash = gr_hash rq, gq_request_json = text, gq_submitted_by = submitted_by,
                  gq_received_at = received_at, gq_subject = gr_subject rq, gq_subject_key = gr_key rq,
                  gq_component = gr_component rq, gq_mandate_ref = gr_mandate_ref rq,
                  gq_policy_version = gr_policy_version rq, gq_classification = gr_classification rq,
                  gq_action = gr_action rq, gq_target = gr_target rq, gq_args_hash = gr_args_hash rq,
                  gq_requested_at = gr_requested_at rq, gq_not_after = gr_not_after rq\<rparr>]\<rparr>
          in case arguments of
               None \<Rightarrow> Inr (st', True)
             | Some shown \<Rightarrow>
                 if list_ex (\<lambda>r. ga_request_hash r = gr_hash rq) (gate_arguments st') then Inl (err store_unavailable)
                 else
                   Inr (st'\<lparr>gate_arguments := gate_arguments st' @
                     [\<lparr>ga_request_hash = gr_hash rq, ga_arguments = shown, ga_recorded_at = received_at\<rparr>]\<rparr>, True))))"

definition gate_request_arguments :: "store \<Rightarrow> string \<Rightarrow> string \<Rightarrow> string option" where
  "gate_request_arguments st h at_instant =
     Option.bind (List.find (\<lambda>a. ga_request_hash a = h) (gate_arguments st)) (\<lambda>a.
       if list_ex (\<lambda>q. gq_request_hash q = h \<and> gq_not_after q > at_instant) (gate_requests st) then Some (ga_arguments a)
       else None)"

definition gate_request_of :: "ext \<Rightarrow> store \<Rightarrow> string \<Rightarrow> (json \<times> string) option res" where
  "gate_request_of x st h =
     (case List.find (\<lambda>r. gq_request_hash r = h) (gate_requests st) of
        None \<Rightarrow> Inr None
      | Some row \<Rightarrow> and_then (parse x (gq_request_json row)) (\<lambda>v. Inr (Some (v, gq_submitted_by row))))"

definition erase_expired_gate_arguments :: "string \<Rightarrow> store \<Rightarrow> store \<times> nat" where
  "erase_expired_gate_arguments now st =
     (let expired = (\<lambda>a. list_ex (\<lambda>q. gq_request_hash q = ga_request_hash a \<and> gq_not_after q \<le> now) (gate_requests st))
      in (st\<lparr>gate_arguments := filter (\<lambda>a. \<not> expired a) (gate_arguments st)\<rparr>, length (filter expired (gate_arguments st))))"

section \<open>Decay\<close>

definition live_ref :: "store \<Rightarrow> string \<Rightarrow> string \<Rightarrow> bool" where
  "live_ref st now h \<longleftrightarrow> list_ex (\<lambda>r. rf_hash r = h \<and> rf_retain_until r > now) (payload_refs st)"

definition decay_payloads :: "string \<Rightarrow> store \<Rightarrow> store \<times> string list" where
  "decay_payloads now st =
     (let hashes = List.map py_hash (filter (\<lambda>p. \<not> live_ref st now (py_hash p)) (payloads st))
      in (foldl (\<lambda>st h. st\<lparr>payloads := filter (\<lambda>p. py_hash p \<noteq> h) (payloads st)\<rparr>) st hashes, hashes))"

definition payload_was_committed :: "store \<Rightarrow> string \<Rightarrow> bool" where
  "payload_was_committed st h \<longleftrightarrow> list_ex (\<lambda>r. rf_hash r = h) (payload_refs st)"

definition stored_payload :: "store \<Rightarrow> string \<Rightarrow> (string \<times> string) option" where
  "stored_payload st h = map_option (\<lambda>p. (py_media_type p, py_bytes p)) (List.find (\<lambda>p. py_hash p = h) (payloads st))"

definition streams_with_expiring_payloads :: "store \<Rightarrow> string \<Rightarrow> string list" where
  "streams_with_expiring_payloads st now =
     sort (remdups (List.map rf_stream
       (filter (\<lambda>r. list_ex (\<lambda>p. py_hash p = rf_hash r) (payloads st) \<and> \<not> live_ref st now (rf_hash r)) (payload_refs st))))"

section \<open>Roots and spend\<close>

definition seed_configured_root :: "key_id \<Rightarrow> string \<Rightarrow> string \<Rightarrow> store \<Rightarrow> store" where
  "seed_configured_root root_key subject enrolled_at st =
     enroll (as_string root_key) subject enrolled_at ''configuration'' st"

text \<open>The entries of a \<open>BTreeMap\<close> in the order of its keys.\<close>

definition accrual_entries :: "json \<Rightarrow> (string \<times> string) list" where
  "accrual_entries envelope =
     (let held = accrual_of envelope;
          names = ''requests'' # (case Option.bind (get envelope ''cost'') as_object of Some c \<Rightarrow> List.map fst c | None \<Rightarrow> [])
      in List.map (\<lambda>d. (d, the (held d))) (filter (\<lambda>d. held d \<noteq> None) (sort (remdups names))))"

definition in_chain_order :: "envelope_row list \<Rightarrow> envelope_row list" where
  "in_chain_order rows = sort_key er_stream (sort_key er_seq rows)"

definition charges_of_row :: "ext \<Rightarrow> store \<Rightarrow> envelope_row \<Rightarrow> (string \<times> string \<times> string) list res" where
  "charges_of_row x st row =
     and_then (parse x (er_canonical_json row)) (\<lambda>envelope.
       Inr (charges_of (mandate_line st (case er_mandate_ref row of Some m \<Rightarrow> m | None \<Rightarrow> [])) (accrual_entries envelope)))"

fun rebuild_rows :: "ext \<Rightarrow> envelope_row list \<Rightarrow> store \<Rightarrow> nat \<Rightarrow> (store \<times> nat) res" where
  "rebuild_rows x [] st folded = Inr (st, folded)"
| "rebuild_rows x (row # rows) st folded =
     and_then (charges_of_row x st row) (\<lambda>charges.
     and_then (charge_all st charges) (\<lambda>st'.
       rebuild_rows x rows st' (if charges = [] then folded else folded + 1)))"

definition rebuild_spend :: "ext \<Rightarrow> store \<Rightarrow> (store \<times> nat) res" where
  "rebuild_spend x st =
     rebuild_rows x (in_chain_order (filter (\<lambda>r. er_mandate_ref r \<noteq> None) (envelopes st)))
       (st\<lparr>spend_table := Map.empty\<rparr>) 0"

end
