(* ===== verification/Ledger.thy ===== *)
theory Ledger
  imports Upkeep Chain "HOL-Library.Sublist"
begin

text \<open>
  The store as a state machine: what every operation of \<open>stozher-kernel/src/store.rs\<close> keeps. The steps are the
  committed transactions, in any order and with any arguments; the invariants hold in every reachable store.
\<close>

section \<open>What a computation yields\<close>

text \<open>Rules for \<open>if r = Inr v then Q v\<close> that follow the computation instead of unfolding it.\<close>

definition yields :: "('a \<Rightarrow> bool) \<Rightarrow> 'a res \<Rightarrow> bool" where
  "yields Q r \<longleftrightarrow> (\<forall>v. r = Inr v \<longrightarrow> Q v)"

lemma yieldsD: "yields Q r \<Longrightarrow> r = Inr v \<Longrightarrow> Q v"
  by (simp add: yields_def)

lemma yields_rules:
  "yields Q (Inl e)"
  "Q v \<Longrightarrow> yields Q (Inr v)"
  "(\<And>y. r = Inr y \<Longrightarrow> yields Q (k y)) \<Longrightarrow> yields Q (and_then r k)"
  "(b \<Longrightarrow> yields Q s) \<Longrightarrow> (\<not> b \<Longrightarrow> yields Q t) \<Longrightarrow> yields Q (if b then s else t)"
  "(p = None \<Longrightarrow> yields Q s) \<Longrightarrow> (\<And>y. p = Some y \<Longrightarrow> yields Q (f y)) \<Longrightarrow> yields Q (case p of None \<Rightarrow> s | Some y \<Rightarrow> f y)"
  "(\<And>a b. q = (a, b) \<Longrightarrow> yields Q (g a b)) \<Longrightarrow> yields Q (case q of (a, b) \<Rightarrow> g a b)"
  "yields Q (h w) \<Longrightarrow> yields Q (let y = w in h y)"
  by (auto simp: yields_def split: option.splits prod.splits if_splits)

lemma yields_then: "yields P r \<Longrightarrow> (\<And>y. P y \<Longrightarrow> yields Q (k y)) \<Longrightarrow> yields Q (and_then r k)"
  by (cases r) (auto simp: yields_def)

section \<open>Steps\<close>

text \<open>The parser reads the canonical text of a value back as that value.\<close>

definition reads_back :: "ext \<Rightarrow> json \<Rightarrow> bool" where
  "reads_back x v \<longleftrightarrow> (case canonicalize x v of Inr s \<Rightarrow> parse x s = Inr v | Inl _ \<Rightarrow> False)"

text \<open>The plans the intake makes: of an authentic envelope, under its identifier and with its canonical text, which the
  parser reads back.\<close>

definition planned :: "ext \<Rightarrow> append_plan \<Rightarrow> bool" where
  "planned x plan \<longleftrightarrow>
     authentic x (ap_envelope plan) \<and> canonicalize x (ap_envelope plan) = Inr (ap_canonical_json plan)
     \<and> object_id x (ap_envelope plan) = Inr (ap_id plan) \<and> reads_back x (ap_envelope plan)
     \<and> ap_stream_kind plan = (if get_str (ap_envelope plan) ''kind'' = Some ''signal'' then ''signal'' else ''effect'')"

inductive step :: "ext \<Rightarrow> store \<Rightarrow> store \<Rightarrow> bool" for x where
  append: "planned x plan \<Longrightarrow> append_envelope x plan st = Inr (st', a) \<Longrightarrow> step x st st'"
| reject: "length secret = 32 \<Longrightarrow> signed_rejection x secret input st = Inr rec \<Longrightarrow> reads_back x rec \<Longrightarrow>
    record_rejection x secret input st = Inr (st', r) \<Longrightarrow> step x st st'"
| park: "queue_gate_request x rq by_whom received cap arguments st = Inr (st', fresh) \<Longrightarrow> step x st st'"
| erase: "step x st (fst (erase_expired_gate_arguments now st))"
| decay: "step x st (fst (decay_payloads now st))"
| seed: "step x st (seed_configured_root key subject since st)"
| rebuild: "rebuild_spend x st = Inr (st', n) \<Longrightarrow> step x st st'"

inductive reaches :: "ext \<Rightarrow> store \<Rightarrow> store \<Rightarrow> bool" for x where
  here: "reaches x st st"
| further: "reaches x st st' \<Longrightarrow> step x st' st'' \<Longrightarrow> reaches x st st''"

lemma reaches_trans: "reaches x st' st'' \<Longrightarrow> reaches x st st' \<Longrightarrow> reaches x st st''"
  by (induction rule: reaches.induct) (auto intro: reaches.intros)

definition reachable :: "ext \<Rightarrow> store \<Rightarrow> bool" where
  "reachable x st \<longleftrightarrow> (\<exists>name. reaches x (empty_store name) st)"

lemma reachable_empty: "reachable x (empty_store name)"
  by (auto simp: reachable_def intro: here)

lemma reachable_step: "reachable x st \<Longrightarrow> step x st st' \<Longrightarrow> reachable x st'"
  by (auto simp: reachable_def intro: further)

lemma reachable_reaches: "reachable x st \<Longrightarrow> reaches x st st' \<Longrightarrow> reachable x st'"
  by (auto simp: reachable_def intro: reaches_trans)

lemma reachable_invariant:
  assumes "reachable x st" and "\<And>name. P (empty_store name)" and "\<And>s s'. step x s s' \<Longrightarrow> P s \<Longrightarrow> P s'"
  shows "P st"
proof -
  have "reaches x st0 st \<Longrightarrow> P st0 \<Longrightarrow> P st" for st0
    by (induction rule: reaches.induct) (auto intro: assms(3))
  with assms(1,2) show ?thesis by (auto simp: reachable_def)
qed

section \<open>Which tables a projection writes\<close>

lemma project_mandate_frame:
  "yields (\<lambda>s'. s' = s\<lparr>mandate_rows := mandate_rows s'\<rparr> \<and> prefix (mandate_rows s) (mandate_rows s')) (project_mandate x plan s)"
  unfolding project_mandate_def by (intro yields_rules) simp_all

lemma project_revocation_frame:
  "yields (\<lambda>s'. s' = s\<lparr>revocation_rows := revocation_rows s'\<rparr> \<and> prefix (revocation_rows s) (revocation_rows s'))
     (project_revocation x plan s)"
  unfolding project_revocation_def by (intro yields_rules) simp_all

lemma project_policy_frame:
  "yields (\<lambda>s'. s' = s\<lparr>counters := counters s', policies := policies s'\<rparr> \<and> prefix (policies s) (policies s'))
     (project_policy x plan s)"
  unfolding project_policy_def next_counter_def Let_def by (intro yields_rules) auto

lemma project_manifest_frame:
  "yields (\<lambda>s'. s' = s\<lparr>counters := counters s', manifests := manifests s'\<rparr> \<and> prefix (manifests s) (manifests s'))
     (project_manifest x plan s)"
  unfolding project_manifest_def next_counter_def Let_def by (intro yields_rules) auto

lemma enroll_frame:
  "enroll key subject since i s = s\<lparr>root_rows := root_rows (enroll key subject since i s)\<rparr>"
  by (simp add: enroll_def)

lemma project_enroll_root_frame: "yields (\<lambda>s'. s' = s\<lparr>root_rows := root_rows s'\<rparr>) (project_enroll_root plan s)"
  unfolding project_enroll_root_def by (intro yields_rules) (simp_all add: enroll_def)

lemma project_retire_root_frame: "yields (\<lambda>s'. s' = s\<lparr>root_rows := root_rows s'\<rparr>) (project_retire_root plan s)"
  unfolding project_retire_root_def by (intro yields_rules) simp_all

lemma project_gate_decision_frame:
  "yields (\<lambda>s'. s' = s\<lparr>gate_decisions := gate_decisions s'\<rparr> \<and> prefix (gate_decisions s) (gate_decisions s'))
     (project_gate_decision x plan s)"
  unfolding project_gate_decision_def by (intro yields_rules) simp_all

lemma project_stream_resume_frame:
  "yields (\<lambda>s'. s' = s\<lparr>stream_resumes := stream_resumes s'\<rparr> \<and> prefix (stream_resumes s) (stream_resumes s'))
     (project_stream_resume plan s)"
  unfolding project_stream_resume_def Let_def by (intro yields_rules) simp_all

lemma project_checkpoint_frame:
  "yields (\<lambda>s'. s' = s\<lparr>checkpoints := checkpoints s'\<rparr> \<and> prefix (checkpoints s) (checkpoints s')) (project_checkpoint plan s)"
  unfolding project_checkpoint_def Let_def by (intro yields_rules) simp_all

lemma charge_all_frame: "charge_all s cs = Inr s' \<Longrightarrow> s' = s\<lparr>spend_table := spend_table s'\<rparr>"
proof (induction s cs rule: charge_all.induct)
  case (2 s m d c rest)
  from 2(2) obtain tot where t: "held_plus (spend_table s (m, d)) c = Inr tot"
    "charge_all (s\<lparr>spend_table := (spend_table s)((m, d) \<mapsto> tot)\<rparr>) rest = Inr s'" by auto
  show ?case by (rule trans [OF 2(1) [OF t]]) simp
qed simp

lemma project_spend_frame: "yields (\<lambda>s'. s' = s\<lparr>spend_table := spend_table s'\<rparr>) (project_spend plan s)"
  unfolding project_spend_def by (intro yields_rules) (auto simp: yields_def dest: charge_all_frame)

lemma write_projections_inv:
  assumes "P s"
    and "\<And>s. P s \<Longrightarrow> yields P (project_mandate x plan s)" and "\<And>s. P s \<Longrightarrow> yields P (project_revocation x plan s)"
    and "\<And>s. P s \<Longrightarrow> yields P (project_policy x plan s)" and "\<And>s. P s \<Longrightarrow> yields P (project_manifest x plan s)"
    and "\<And>s. P s \<Longrightarrow> yields P (project_enroll_root plan s)" and "\<And>s. P s \<Longrightarrow> yields P (project_retire_root plan s)"
    and "\<And>s. P s \<Longrightarrow> yields P (project_gate_decision x plan s)" and "\<And>s. P s \<Longrightarrow> yields P (project_stream_resume plan s)"
    and "\<And>s. P s \<Longrightarrow> yields P (project_checkpoint plan s)" and "\<And>s. P s \<Longrightarrow> yields P (project_spend plan s)"
  shows "yields P (write_projections x plan s)"
  unfolding write_projections_def by (intro yields_then [where P = P] assms)


lemma yields_frame: "yields (\<lambda>s'. s' = g s' \<and> R s') r \<Longrightarrow> (\<And>t. P (g t)) \<Longrightarrow> yields P r"
  unfolding yields_def by metis

lemma yields_frame': "yields (\<lambda>s'. s' = g s') r \<Longrightarrow> (\<And>t. P (g t)) \<Longrightarrow> yields P r"
  unfolding yields_def by metis

lemma yields_prefix_frame:
  "yields (\<lambda>s'. s' = g s' \<and> prefix xs (f s')) r \<Longrightarrow> (\<And>t more. f t = xs @ more \<Longrightarrow> P (g t)) \<Longrightarrow> yields P r"
  unfolding yields_def prefix_def by metis

lemmas projection_keeps =
  yields_frame [OF project_mandate_frame] yields_frame [OF project_revocation_frame] yields_frame [OF project_policy_frame]
  yields_frame [OF project_manifest_frame] yields_frame' [OF project_enroll_root_frame]
  yields_frame' [OF project_retire_root_frame] yields_frame [OF project_gate_decision_frame]
  yields_frame [OF project_stream_resume_frame] yields_frame [OF project_checkpoint_frame]
  yields_frame' [OF project_spend_frame]

section \<open>What the other stages write\<close>

lemma record_gate_use_frame:
  "yields (\<lambda>s'. s' = s\<lparr>gate_uses := gate_uses s'\<rparr> \<and> prefix (gate_uses s) (gate_uses s')) (record_gate_use plan s)"
  unfolding record_gate_use_def by (intro yields_rules) simp_all

lemma insert_envelope_eq:
  "insert_envelope plan s = Inr s' \<longleftrightarrow>
     (\<exists>row. extends_chain s (stream_of plan) (seq_column (seq_of_plan plan)) (claimed_prev plan) \<and> envelope_row_of plan = Inr row
        \<and> (\<forall>r \<in> set (envelopes s). (er_stream r, er_seq r) \<noteq> (er_stream row, er_seq row) \<and> er_id r \<noteq> er_id row)
        \<and> s' = s\<lparr>envelopes := envelopes s @ [row]\<rparr>)"
  by (auto simp: insert_envelope_def list_ex_iff)

lemma envelope_row_facts:
  "yields (\<lambda>row. er_stream row = stream_of plan \<and> er_seq row = seq_column (seq_of_plan plan) \<and> er_id row = ap_id plan
     \<and> er_prev_hash row = claimed_prev plan) (envelope_row_of plan)"
  unfolding envelope_row_of_def Let_def by (intro yields_rules) simp_all

lemma store_payload_frame:
  "\<exists>p' q. store_payload plan s p = s\<lparr>payloads := p', payload_refs := payload_refs s @ q\<rparr>
     \<and> (\<forall>r \<in> set q. rf_envelope_id r = ap_id plan)"
proof (cases "list_ex (\<lambda>r. rf_hash r = pp_hash p \<and> rf_envelope_id r = ap_id plan) (payload_refs s)")
  case True
  then show ?thesis
    by (intro exI [of _ "payloads (store_payload plan s p)"] exI [of _ "[]"]) (simp add: store_payload_def)
next
  case False
  then show ?thesis
    by (intro exI [of _ "payloads (store_payload plan s p)"]
        exI [of _ "[\<lparr>rf_hash = pp_hash p, rf_envelope_id = ap_id plan, rf_stream = stream_of plan, rf_retain_until = pp_retain_until p\<rparr>]"])
      (simp add: store_payload_def)
qed

lemma store_payloads_frame:
  "\<exists>p q. store_payloads plan s = s\<lparr>payloads := p, payload_refs := payload_refs s @ q\<rparr>
     \<and> (\<forall>r \<in> set q. rf_envelope_id r = ap_id plan)"
proof -
  have "\<exists>p q. foldl (store_payload plan) s ps = s\<lparr>payloads := p, payload_refs := payload_refs s @ q\<rparr>
     \<and> (\<forall>r \<in> set q. rf_envelope_id r = ap_id plan)" for ps
  proof (induction ps rule: rev_induct)
    case Nil
    show ?case by (intro exI [of _ "payloads s"] exI [of _ "[]"]) simp
  next
    case (snoc p ps)
    then obtain p' q' where f: "foldl (store_payload plan) s ps = s\<lparr>payloads := p', payload_refs := payload_refs s @ q'\<rparr>"
      "\<forall>r \<in> set q'. rf_envelope_id r = ap_id plan" by auto
    obtain p2 q2 where g: "store_payload plan (s\<lparr>payloads := p', payload_refs := payload_refs s @ q'\<rparr>) p
        = s\<lparr>payloads := p2, payload_refs := payload_refs s @ (q' @ q2)\<rparr>" "\<forall>r \<in> set q2. rf_envelope_id r = ap_id plan"
      using store_payload_frame [of plan "s\<lparr>payloads := p', payload_refs := payload_refs s @ q'\<rparr>" p] by auto
    show ?case
      by (rule exI [of _ p2], rule exI [of _ "q' @ q2"]) (use f g in auto)
  qed
  then show ?thesis by (simp add: store_payloads_def)
qed

lemma touch_stream_frame: "touch_stream plan s = s\<lparr>streams := streams (touch_stream plan s)\<rparr>"
  by (simp add: touch_stream_def Let_def)

lemma append_fresh_eq:
  "append_fresh x plan s = Inr s' \<longleftrightarrow>
     check_stream_kind s (stream_of plan) (ap_stream_kind plan) = Inr ()
     \<and> check_position s (stream_of plan) (seq_of_plan plan) (claimed_prev plan) = Inr ()
     \<and> (\<exists>s1 s2 s3. record_gate_use plan s = Inr s1 \<and> insert_envelope plan s1 = Inr s2
          \<and> write_projections x plan (store_payloads plan s2) = Inr s3 \<and> s' = touch_stream plan s3)"
  by (auto simp: append_fresh_def)

lemma record_rejection_frame:
  "yields (\<lambda>q. \<exists>row. fst q = s\<lparr>rejections := rejections s @ [row]\<rparr>) (record_rejection x secret input s)"
  unfolding record_rejection_def Let_def by (intro yields_rules) auto

lemma queue_gate_request_frame:
  "yields (\<lambda>q. fst q = s\<lparr>gate_requests := gate_requests (fst q), gate_arguments := gate_arguments (fst q)\<rparr>
      \<and> prefix (gate_requests s) (gate_requests (fst q)))
     (queue_gate_request x rq by_whom received cap arguments s)"
  unfolding queue_gate_request_def Let_def by (intro yields_rules) auto

lemma erase_frame: "fst (erase_expired_gate_arguments now s) = s\<lparr>gate_arguments := gate_arguments (fst (erase_expired_gate_arguments now s))\<rparr>"
  by (simp add: erase_expired_gate_arguments_def Let_def)

lemma foldl_drop_payloads:
  "foldl (\<lambda>s h. s\<lparr>payloads := filter (\<lambda>p. py_hash p \<noteq> h) (payloads s)\<rparr>) s hs
     = s\<lparr>payloads := filter (\<lambda>p. py_hash p \<notin> set hs) (payloads s)\<rparr>"
  by (induction hs rule: rev_induct) (auto intro!: arg_cong [where f = "\<lambda>l. s\<lparr>payloads := l\<rparr>"] filter_cong)

lemma decay_eq:
  "fst (decay_payloads now s) = s\<lparr>payloads := filter (\<lambda>p. live_ref s now (py_hash p)) (payloads s)\<rparr>"
  by (auto simp: decay_payloads_def Let_def foldl_drop_payloads intro!: arg_cong [where f = "\<lambda>l. s\<lparr>payloads := l\<rparr>"] filter_cong)

lemma rebuild_rows_frame: "rebuild_rows x rows s n = Inr (s', m) \<Longrightarrow> s' = s\<lparr>spend_table := spend_table s'\<rparr>"
proof (induction x rows s n rule: rebuild_rows.induct)
  case (2 x row rows s n)
  from 2(2) obtain cs t where c: "charges_of_row x s row = Inr cs" "charge_all s cs = Inr t"
    "rebuild_rows x rows t (if cs = [] then n else n + 1) = Inr (s', m)" by auto
  from 2(1) [OF c] charge_all_frame [OF c(2)] show ?case
    by (metis (no_types, lifting) store.update_convs(18) store.surjective)
qed simp

lemma rebuild_frame: "rebuild_spend x s = Inr (s', n) \<Longrightarrow> s' = s\<lparr>spend_table := spend_table s'\<rparr>"
  unfolding rebuild_spend_def by (drule rebuild_rows_frame, erule trans) simp


section \<open>Rules for invariants\<close>

lemma gate_keeps: "(\<And>l. P (s\<lparr>gate_uses := l\<rparr>)) \<Longrightarrow> yields P (record_gate_use plan s)"
  by (rule yields_frame [OF record_gate_use_frame])

lemma payloads_keep: "(\<And>p q. P (s\<lparr>payloads := p, payload_refs := payload_refs s @ q\<rparr>)) \<Longrightarrow> P (store_payloads plan s)"
  using store_payloads_frame [of plan s] by auto

lemma touch_keeps: "(\<And>l. P (s\<lparr>streams := l\<rparr>)) \<Longrightarrow> P (touch_stream plan s)"
  by (subst touch_stream_frame)

lemma append_inv:
  assumes "append_envelope x plan s = Inr (s', a)" and "P s"
    and "\<And>s. P s \<Longrightarrow> yields P (record_gate_use plan s)"
    and "\<And>s s'. P s \<Longrightarrow> insert_envelope plan s = Inr s' \<Longrightarrow> P s'"
    and "\<And>s. P s \<Longrightarrow> P (store_payloads plan s)" and "\<And>s. P s \<Longrightarrow> yields P (write_projections x plan s)"
    and "\<And>s. P s \<Longrightarrow> P (touch_stream plan s)"
  shows "P s'"
proof (cases "envelope_by_id s (ap_id plan)")
  case None
  with assms(1) have "append_fresh x plan s = Inr s'" by (auto simp: append_envelope_def)
  then obtain s1 s2 s3 where st: "record_gate_use plan s = Inr s1" "insert_envelope plan s1 = Inr s2"
    "write_projections x plan (store_payloads plan s2) = Inr s3" "s' = touch_stream plan s3" by (auto simp: append_fresh_eq)
  have "P s1" by (rule yieldsD [OF assms(3) [OF assms(2)] st(1)])
  then have "P (store_payloads plan s2)" by (rule assms(5) [OF assms(4) [OF _ st(2)]])
  then have "P s3" by (rule yieldsD [OF assms(6) st(3)])
  then show ?thesis unfolding st(4) by (rule assms(7))
next
  case (Some row)
  with assms(1,2) show ?thesis by (simp add: append_envelope_def)
qed

lemma step_inv:
  assumes "step x s s'" and "\<And>plan a. planned x plan \<Longrightarrow> append_envelope x plan s = Inr (s', a) \<Longrightarrow> P s'"
    and "\<And>secret input rec r row. length secret = 32 \<Longrightarrow> signed_rejection x secret input s = Inr rec \<Longrightarrow> reads_back x rec \<Longrightarrow>
      record_rejection x secret input s = Inr (s', r) \<Longrightarrow> s' = s\<lparr>rejections := rejections s @ [row]\<rparr> \<Longrightarrow> P s'" and "\<And>l m. P (s\<lparr>gate_requests := gate_requests s @ l, gate_arguments := m\<rparr>)"
    and "\<And>f. P (s\<lparr>payloads := filter f (payloads s)\<rparr>)" and "\<And>l. P (s\<lparr>root_rows := l\<rparr>)" and "\<And>t. P (s\<lparr>spend_table := t\<rparr>)"
  shows "P s'"
  using assms(1)
proof cases
  case (append plan a)
  then show ?thesis by (rule assms(2))
next
  case (reject secret input rec r)
  from yieldsD [OF record_rejection_frame reject(4)] obtain row where "s' = s\<lparr>rejections := rejections s @ [row]\<rparr>" by auto
  with reject show ?thesis by (rule assms(3))
next
  case (park rq by_whom received cap arguments fresh)
  from yieldsD [OF queue_gate_request_frame this] assms(4) show ?thesis by (metis fst_conv prefix_def)
next
  case (erase now)
  from assms(4) [where l = "[]" and m = "gate_arguments s'"] have "P (s\<lparr>gate_arguments := gate_arguments s'\<rparr>)"
    by simp
  then show ?thesis unfolding erase by (subst erase_frame)
next
  case (decay now)
  then show ?thesis using assms(5) by (simp add: decay_eq)
next
  case (seed key subject since)
  then show ?thesis using assms(6) enroll_frame unfolding seed_configured_root_def by metis
next
  case (rebuild n)
  from rebuild_frame [OF this] assms(7) show ?thesis by metis
qed

section \<open>Chained streams\<close>

definition follows :: "store \<Rightarrow> envelope_row \<Rightarrow> bool" where
  "follows st r \<longleftrightarrow>
     (\<exists>q \<in> set (envelopes st). er_stream q = er_stream r \<and> Suc (er_seq q) = er_seq r \<and> er_prev_hash r = Some (er_id q))"

definition bridged :: "store \<Rightarrow> envelope_row \<Rightarrow> bool" where
  "bridged st r \<longleftrightarrow>
     (\<exists>b \<in> set (stream_resumes st). rs_stream b = er_stream r \<and> Suc (rs_resume_seq b) = er_seq r
        \<and> er_prev_hash r = Some (rs_bridge_hash b))"

definition starts :: "envelope_row \<Rightarrow> bool" where
  "starts r \<longleftrightarrow> er_seq r = 0 \<and> er_prev_hash r = None"

definition chained :: "store \<Rightarrow> bool" where
  "chained st \<longleftrightarrow>
     (\<forall>r \<in> set (envelopes st). starts r \<or> follows st r \<or> bridged st r)
     \<and> distinct (List.map er_id (envelopes st)) \<and> distinct (List.map (\<lambda>r. (er_stream r, er_seq r)) (envelopes st))"

lemma follows_mono: "follows s r \<Longrightarrow> set (envelopes s) \<subseteq> set (envelopes s') \<Longrightarrow> follows s' r"
  by (auto simp: follows_def)

lemma bridged_mono: "bridged s r \<Longrightarrow> set (stream_resumes s) \<subseteq> set (stream_resumes s') \<Longrightarrow> bridged s' r"
  by (auto simp: bridged_def)

lemma chained_frame:
  assumes "chained s" and "envelopes s' = envelopes s" and "set (stream_resumes s) \<subseteq> set (stream_resumes s')"
  shows "chained s'"
  using assms follows_mono bridged_mono by (fastforce simp: chained_def)

lemma extends_chain_cases:
  assumes "extends_chain s (er_stream r) (er_seq r) (er_prev_hash r)"
  shows "starts r \<or> follows s r \<or> bridged s r"
  using assms
  by (cases "er_seq r") (auto simp: extends_chain_def starts_def follows_def bridged_def list_ex_iff)

lemma chained_insert:
  assumes "chained s" and "insert_envelope plan s = Inr s'"
  shows "chained s'"
proof -
  from assms(2) obtain row where r: "extends_chain s (stream_of plan) (seq_column (seq_of_plan plan)) (claimed_prev plan)"
    "envelope_row_of plan = Inr row" "s' = s\<lparr>envelopes := envelopes s @ [row]\<rparr>"
    "\<forall>r \<in> set (envelopes s). (er_stream r, er_seq r) \<noteq> (er_stream row, er_seq row) \<and> er_id r \<noteq> er_id row"
    by (auto simp: insert_envelope_eq)
  from yieldsD [OF envelope_row_facts r(2)] r(1) have "starts row \<or> follows s row \<or> bridged s row"
    by (intro extends_chain_cases) simp
  moreover have "set (envelopes s) \<subseteq> set (envelopes s')" "stream_resumes s' = stream_resumes s" using r(3) by auto
  ultimately have "\<forall>q \<in> set (envelopes s'). starts q \<or> follows s' q \<or> bridged s' q"
    using assms(1) r(3) follows_mono [of s _ s'] bridged_mono [of s _ s'] unfolding chained_def by auto
  then show ?thesis using assms(1) r(3,4) by (auto simp: chained_def)
qed

lemma chained_projections: "chained s \<Longrightarrow> yields chained (write_projections x plan s)"
  by (rule write_projections_inv)
    (assumption | rule projection_keeps yields_prefix_frame [OF project_stream_resume_frame]; simp add: chained_frame)+

lemma chained_append: "chained s \<Longrightarrow> append_envelope x plan s = Inr (s', a) \<Longrightarrow> chained s'"
  by (erule append_inv [rotated])
    (assumption | erule (1) chained_insert | erule chained_projections
      | rule gate_keeps payloads_keep touch_keeps; simp add: chained_frame)+

lemma chained_step: "step x s s' \<Longrightarrow> chained s \<Longrightarrow> chained s'"
  by (erule step_inv) (erule (1) chained_append | simp add: chained_frame)+

lemma chained_reachable: "reachable x st \<Longrightarrow> chained st"
  by (erule reachable_invariant) (simp add: chained_def empty_store_def, erule (1) chained_step)


section \<open>What the rows record\<close>

definition records :: "ext \<Rightarrow> envelope_row \<Rightarrow> json \<Rightarrow> bool" where
  "records x r e \<longleftrightarrow>
     parse x (er_canonical_json r) = Inr e \<and> canonicalize x e = Inr (er_canonical_json r) \<and> authentic x e
     \<and> object_id x e = Inr (er_id r) \<and> get_str e ''stream'' = Some (er_stream r) \<and> seq_no e = er_seq r
     \<and> prev_of e = er_prev_hash r \<and> get_str e ''kind'' = Some (er_kind r)"

definition recorded :: "ext \<Rightarrow> store \<Rightarrow> bool" where
  "recorded x st \<longleftrightarrow> (\<forall>r \<in> set (envelopes st). \<exists>e. records x r e)"

lemma recorded_frame: "recorded x s \<Longrightarrow> envelopes s' = envelopes s \<Longrightarrow> recorded x s'"
  by (simp add: recorded_def)

lemma row_text: "yields (\<lambda>row. er_canonical_json row = ap_canonical_json plan \<and> get_str (ap_envelope plan) ''kind'' = Some (er_kind row))
    (envelope_row_of plan)"
  unfolding envelope_row_of_def Let_def not_null_def by (intro yields_rules) (simp_all add: index_str)

lemma planned_records:
  assumes "planned x plan" and "envelope_row_of plan = Inr row"
  shows "records x row (ap_envelope plan)"
proof -
  note p = assms(1) [unfolded planned_def]
  then have rb: "parse x (ap_canonical_json plan) = Inr (ap_envelope plan)" by (auto simp: reads_back_def)
  from p have "authentic x (ap_envelope plan)" by simp
  then obtain n s where a: "get_u64 (ap_envelope plan) ''seq'' = Some n" "int (unat n) \<le> max_safe_integer"
    "get_str (ap_envelope plan) ''stream'' = Some s" by (rule authentic_facts)
  have "unat n \<le> 9223372036854775807" using a(2) unfolding max_safe_integer_def by linarith
  then have "seq_column n = unat n" by (rule seq_column_small)
  moreover have "seq_of_plan plan = n" using a(1) by (simp add: seq_of_plan_def index_def get_u64_eq_Some)
  moreover have "seq_or_default (ap_envelope plan) = n" "stream_of plan = s"
    using a(1,3) by (simp_all add: seq_or_default_def stream_of_def index_str)
  ultimately show ?thesis using a p yieldsD [OF envelope_row_facts assms(2)] yieldsD [OF row_text assms(2)]
    by (simp add: records_def rb seq_no_def prev_of_def claimed_prev_def)
qed

lemma recorded_projections: "recorded x s \<Longrightarrow> yields (recorded x) (write_projections x plan s)"
  by (rule write_projections_inv) (assumption | rule projection_keeps; simp add: recorded_frame)+

lemma recorded_insert:
  "planned x plan \<Longrightarrow> recorded x s \<Longrightarrow> insert_envelope plan s = Inr s' \<Longrightarrow> recorded x s'"
  using planned_records by (fastforce simp: insert_envelope_eq recorded_def)

lemma recorded_append:
  assumes "planned x plan" and "recorded x s" and "append_envelope x plan s = Inr (s', a)"
  shows "recorded x s'"
  using assms(3,2)
proof (rule append_inv)
  show "recorded x s''" if "recorded x t" "insert_envelope plan t = Inr s''" for t s''
    using assms(1) that by (rule recorded_insert)
qed (rule gate_keeps payloads_keep [where P = "recorded x"] touch_keeps [where P = "recorded x"] recorded_projections;
    simp add: recorded_frame)+

lemma recorded_step: "step x s s' \<Longrightarrow> recorded x s \<Longrightarrow> recorded x s'"
  by (erule step_inv) (erule (2) recorded_append | simp add: recorded_frame)+

lemma recorded_reachable: "reachable x st \<Longrightarrow> recorded x st"
  by (erule reachable_invariant) (simp add: recorded_def empty_store_def, erule (1) recorded_step)

section \<open>Streams without a resume\<close>

lemma downward_closed_upt:
  assumes "sorted ns" and "distinct ns" and "\<And>n. Suc n \<in> set ns \<Longrightarrow> n \<in> set ns"
  shows "ns = [0..<length ns]"
proof -
  have d: "m \<in> set ns" if "n \<in> set ns" "m \<le> n" for m n
    using that assms(3) by (induction n) (auto simp: le_Suc_eq)
  have "set ns = {0..<card (set ns)}"
  proof (cases "set ns = {}")
    case False
    let ?m = "Max (set ns)"
    have m: "?m \<in> set ns" using False by (intro Max_in) auto
    have "set ns = {..?m}"
    proof
      show "set ns \<subseteq> {..?m}" by auto
      show "{..?m} \<subseteq> set ns" using d [OF m] by blast
    qed
    then show ?thesis by (metis atLeast0AtMost atLeastLessThanSuc_atLeastAtMost card_atLeastAtMost diff_zero)
  qed simp
  then have "set ns = set [0..<length ns]" using assms(2) by (simp add: distinct_card)
  then show ?thesis using assms(1,2) by (intro sorted_distinct_set_unique) simp_all
qed

definition chain_rows :: "store \<Rightarrow> string \<Rightarrow> envelope_row list" where
  "chain_rows st s = sort_key er_seq (of_stream s (envelopes st))"

definition unresumed :: "store \<Rightarrow> string \<Rightarrow> bool" where
  "unresumed st s \<longleftrightarrow> (\<forall>b \<in> set (stream_resumes st). rs_stream b \<noteq> s)"

lemma chain_rows_set [simp]: "set (chain_rows st s) = {r \<in> set (envelopes st). er_stream r = s}"
  by (simp add: chain_rows_def)

lemma same_position:
  assumes "chained st" and "q \<in> set (envelopes st)" and "r \<in> set (envelopes st)"
    and "er_stream q = er_stream r" and "er_seq q = er_seq r"
  shows "q = r"
  using assms by (auto simp: chained_def distinct_map inj_on_def)

lemma chain_rows_positions:
  assumes "chained st" and "unresumed st s"
  shows "List.map er_seq (chain_rows st s) = [0..<length (chain_rows st s)]"
proof -
  have "distinct (List.map er_seq (chain_rows st s))"
    using assms(1) by (auto simp: chained_def distinct_map chain_rows_def of_stream_def inj_on_def distinct_filter)
  moreover have "n \<in> set (List.map er_seq (chain_rows st s))" if "Suc n \<in> set (List.map er_seq (chain_rows st s))" for n
  proof -
    from that obtain r where r: "r \<in> set (envelopes st)" "er_stream r = s" "er_seq r = Suc n" by auto
    with assms have "follows st r" by (auto simp: chained_def starts_def bridged_def unresumed_def)
    then obtain q where "q \<in> set (envelopes st)" "er_stream q = s" "er_seq q = n" using r by (auto simp: follows_def)
    then show ?thesis by (auto intro: image_eqI [of _ _ q])
  qed
  ultimately show ?thesis
    using downward_closed_upt [of "List.map er_seq (chain_rows st s)"] by (simp add: chain_rows_def)
qed

lemma chain_rows_prev:
  assumes "chained st" and "unresumed st s" and "i < length (chain_rows st s)"
  shows "er_seq (chain_rows st s ! i) = i
    \<and> er_prev_hash (chain_rows st s ! i) = (if i = 0 then None else Some (er_id (chain_rows st s ! (i - 1))))"
proof -
  let ?l = "chain_rows st s"
  have n: "er_seq (?l ! j) = j" if "j < length ?l" for j
    using chain_rows_positions [OF assms(1,2)] that by (metis nth_map nth_upt add_0)
  have m: "?l ! j \<in> set (envelopes st)" "er_stream (?l ! j) = s" if "j < length ?l" for j
    using nth_mem [OF that] by auto
  show ?thesis
  proof (cases i)
    case 0
    with n [OF assms(3)] m [OF assms(3)] assms(1,2) show ?thesis
      by (auto simp: chained_def starts_def follows_def bridged_def unresumed_def)
  next
    case (Suc j)
    with n [OF assms(3)] m [OF assms(3)] assms(1,2) have "follows st (?l ! i)"
      by (auto simp: chained_def starts_def bridged_def unresumed_def)
    then obtain q where q: "q \<in> set (envelopes st)" "er_stream q = s" "er_seq q = j" "er_prev_hash (?l ! i) = Some (er_id q)"
      using n [OF assms(3)] m [OF assms(3)] Suc by (auto simp: follows_def)
    have "q = ?l ! j" using q m [of j] n [of j] Suc assms(3) by (intro same_position [OF assms(1)]) auto
    with q n [OF assms(3)] Suc show ?thesis by simp
  qed
qed


section \<open>A whole stream verifies\<close>

lemma map_res_records:
  assumes "\<forall>r \<in> set rows. \<exists>e. records x r e"
  shows "\<exists>es. map_res (\<lambda>r. parse x (er_canonical_json r)) rows = Inr es \<and> list_all2 (records x) rows es"
  using assms
proof (induction rows)
  case (Cons r rows)
  then obtain e es where "records x r e" "map_res (\<lambda>r. parse x (er_canonical_json r)) rows = Inr es"
    "list_all2 (records x) rows es" by auto
  then show ?case using records_def [of x r e] by simp
qed simp

definition id_before :: "envelope_row list \<Rightarrow> nat \<Rightarrow> string option" where
  "id_before rows k = (if k = 0 then None else Some (er_id (rows ! (k - 1))))"

lemma chain_of_rows:
  assumes "list_all2 (records x) rows es"
    and "\<And>i. i < length rows \<Longrightarrow> er_stream (rows ! i) = s \<and> er_seq (rows ! i) = i \<and> er_prev_hash (rows ! i) = id_before rows i"
    and "k \<le> length rows"
  shows "chain_of x s k (id_before rows k) (drop k es) (id_before rows (length rows))"
  using assms(3)
proof (induction "length rows - k" arbitrary: k)
  case 0
  then have "k = length rows" by simp
  with list_all2_lengthD [OF assms(1)] show ?case by simp
next
  case (Suc m)
  then have k: "k < length rows" by simp
  with list_all2_lengthD [OF assms(1)] have d: "drop k es = es ! k # drop (Suc k) es" by (simp add: Cons_nth_drop_Suc)
  from list_all2_nthD [OF assms(1) k] assms(2) [OF k]
  have r: "authentic x (es ! k)" "object_id x (es ! k) = Inr (er_id (rows ! k))" "get_str (es ! k) ''stream'' = Some s"
    "seq_no (es ! k) = k" "prev_of (es ! k) = id_before rows k" by (auto simp: records_def)
  have "chain_of x s (Suc k) (id_before rows (Suc k)) (drop (Suc k) es) (id_before rows (length rows))"
    using Suc k by (intro Suc(1)) auto
  then show ?case using r by (simp add: d id_before_def)
qed

lemma stored_position_bound:
  assumes "recorded x st" and "r \<in> set (envelopes st)"
  shows "er_seq r \<le> 9007199254740991"
proof -
  from assms obtain e where e: "authentic x e" "seq_no e = er_seq r" by (auto simp: recorded_def records_def)
  from e(1) obtain n where "get_u64 e ''seq'' = Some n" "int (unat n) \<le> max_safe_integer" by (rule authentic_facts)
  with e(2) show ?thesis unfolding seq_no_def seq_or_default_def max_safe_integer_def by simp
qed

lemma whole_stream:
  assumes "recorded x st" and "stream_head st s = Some (n, h)"
  shows "filter (\<lambda>r. seq_column 0 \<le> er_seq r \<and> er_seq r \<le> seq_column (of_nat n)) (of_stream s (envelopes st)) = of_stream s (envelopes st)"
proof -
  from stream_head_SomeD [OF assms(2)] obtain r where r: "r \<in> set (envelopes st)" "er_seq r = n"
    "\<forall>q \<in> set (envelopes st). er_stream q = s \<longrightarrow> er_seq q \<le> n" by auto
  have n: "n \<le> 9007199254740991" using stored_position_bound [OF assms(1) r(1)] r(2) by simp
  then have "unat (of_nat n :: u64) = n" by (simp add: unat_of_nat)
  then have "seq_column (of_nat n) = n" using n by (simp add: seq_column_def)
  then show ?thesis using r(3) by (auto simp: filter_id_conv seq_column_def)
qed


section \<open>History only grows\<close>

definition grows :: "store \<Rightarrow> store \<Rightarrow> bool" where
  "grows s s' \<longleftrightarrow>
     prefix (envelopes s) (envelopes s') \<and> prefix (rejections s) (rejections s') \<and> prefix (checkpoints s) (checkpoints s')
     \<and> prefix (policies s) (policies s') \<and> prefix (manifests s) (manifests s') \<and> prefix (gate_uses s) (gate_uses s')
     \<and> prefix (gate_requests s) (gate_requests s') \<and> prefix (gate_decisions s) (gate_decisions s')"

lemma grows_refl [simp]: "grows s s"
  by (simp add: grows_def)

lemma grows_trans: "grows s s' \<Longrightarrow> grows s' s'' \<Longrightarrow> grows s s''"
  unfolding grows_def by (meson prefix_order.trans)

lemmas projection_grows =
  yields_prefix_frame [OF project_policy_frame] yields_prefix_frame [OF project_manifest_frame]
  yields_prefix_frame [OF project_gate_decision_frame] yields_prefix_frame [OF project_checkpoint_frame]

lemma grows_projections: "grows s0 s \<Longrightarrow> yields (grows s0) (write_projections x plan s)"
  by (rule write_projections_inv)
    (assumption | rule projection_grows; simp add: grows_def | rule projection_keeps; simp add: grows_def)+

lemma grows_append: "append_envelope x plan s = Inr (s', a) \<Longrightarrow> grows s s'"
proof (erule append_inv)
  show "grows s s''" if "grows s t" "insert_envelope plan t = Inr s''" for t s''
    using that by (auto simp: grows_def insert_envelope_eq intro: prefix_order.trans)
  show "yields (grows s) (record_gate_use plan t)" if "grows s t" for t
    using that by (intro yields_prefix_frame [OF record_gate_use_frame]) (auto simp: grows_def intro: prefix_order.trans)
qed (rule payloads_keep [where P = "grows s"] touch_keeps [where P = "grows s"] grows_projections grows_refl; simp add: grows_def)+

lemma grows_step: "step x s s' \<Longrightarrow> grows s s'"
  by (erule step_inv) (erule grows_append | simp add: grows_def)+

lemma grows_reaches: "reaches x s s' \<Longrightarrow> grows s s'"
  by (induction rule: reaches.induct) (auto intro: grows_trans grows_step)

section \<open>Refused positions\<close>

definition refused_at :: "store \<Rightarrow> string \<Rightarrow> nat \<Rightarrow> string \<Rightarrow> bool" where
  "refused_at st s n h \<longleftrightarrow>
     (\<exists>j \<in> set (rejections st). rj_claimed_stream j = Some s \<and> rj_claimed_seq j = Some n \<and> rj_object_hash j = h)"

definition resumes_justified :: "store \<Rightarrow> bool" where
  "resumes_justified st \<longleftrightarrow>
     (\<forall>b \<in> set (stream_resumes st). refused_at st (rs_stream b) (rs_resume_seq b) (rs_bridge_hash b))"

lemma resumes_justified_frame:
  "resumes_justified s \<Longrightarrow> stream_resumes s' = stream_resumes s \<Longrightarrow> set (rejections s) \<subseteq> set (rejections s') \<Longrightarrow> resumes_justified s'"
  unfolding resumes_justified_def refused_at_def by (metis subsetD)

lemma rejection_at_refused: "rejection_at st s n = Some h \<Longrightarrow> refused_at st s n h"
  by (auto simp: rejection_at_def refused_at_def dest!: greatest_SomeD)

lemma resumes_justified_resume: "resumes_justified s \<Longrightarrow> yields resumes_justified (project_stream_resume plan s)"
  unfolding project_stream_resume_def Let_def
  by (intro yields_rules) (auto simp: resumes_justified_def refused_at_def dest!: rejection_at_refused)

lemma resumes_justified_projections: "resumes_justified s \<Longrightarrow> yields resumes_justified (write_projections x plan s)"
  by (rule write_projections_inv)
    (assumption | erule resumes_justified_resume | rule projection_keeps; simp add: resumes_justified_frame)+

lemma resumes_justified_append: "resumes_justified s \<Longrightarrow> append_envelope x plan s = Inr (s', a) \<Longrightarrow> resumes_justified s'"
proof (erule append_inv [rotated])
  show "resumes_justified s''" if "resumes_justified t" "insert_envelope plan t = Inr s''" for t s''
    using that by (auto simp: insert_envelope_eq elim: resumes_justified_frame)
qed (rule gate_keeps payloads_keep [where P = resumes_justified] touch_keeps [where P = resumes_justified]
    resumes_justified_projections; simp add: resumes_justified_frame)+

lemma resumes_justified_step: "step x s s' \<Longrightarrow> resumes_justified s \<Longrightarrow> resumes_justified s'"
  by (erule step_inv) (erule (1) resumes_justified_append | auto intro: resumes_justified_frame)+

lemma resumes_justified_reachable: "reachable x st \<Longrightarrow> resumes_justified st"
  by (erule reachable_invariant) (simp add: resumes_justified_def empty_store_def, erule (1) resumes_justified_step)

section \<open>Approvals are spent once\<close>

definition spent_once :: "store \<Rightarrow> bool" where
  "spent_once st \<longleftrightarrow> distinct (List.map gu_request_hash (gate_uses st))"

lemma spent_once_frame: "spent_once s \<Longrightarrow> gate_uses s' = gate_uses s \<Longrightarrow> spent_once s'"
  by (simp add: spent_once_def)

lemma spent_once_gate: "spent_once s \<Longrightarrow> yields spent_once (record_gate_use plan s)"
  unfolding record_gate_use_def gate_use_of_def
  by (intro yields_rules) (auto simp: spent_once_def find_None_iff)

lemma spent_once_projections: "spent_once s \<Longrightarrow> yields spent_once (write_projections x plan s)"
  by (rule write_projections_inv) (assumption | rule projection_keeps; simp add: spent_once_frame)+

lemma spent_once_append: "spent_once s \<Longrightarrow> append_envelope x plan s = Inr (s', a) \<Longrightarrow> spent_once s'"
proof (erule append_inv [rotated])
  show "spent_once s''" if "spent_once t" "insert_envelope plan t = Inr s''" for t s''
    using that by (auto simp: insert_envelope_eq elim: spent_once_frame)
qed (rule spent_once_gate payloads_keep [where P = spent_once] touch_keeps [where P = spent_once] spent_once_projections;
    simp add: spent_once_frame)+

lemma spent_once_step: "step x s s' \<Longrightarrow> spent_once s \<Longrightarrow> spent_once s'"
  by (erule step_inv) (erule (1) spent_once_append | simp add: spent_once_frame)+

lemma spent_once_reachable: "reachable x st \<Longrightarrow> spent_once st"
  by (erule reachable_invariant) (simp add: spent_once_def empty_store_def, erule (1) spent_once_step)


section \<open>The chain of rejections\<close>

definition rejected :: "ext \<Rightarrow> rejection_row \<Rightarrow> json \<Rightarrow> bool" where
  "rejected x r v \<longleftrightarrow>
     parse x (rj_record_json r) = Inr v \<and> (\<exists>k. verify_signed_object x v = Inr k) \<and> object_id x v = Inr (rj_id r)
     \<and> get_str v ''stream'' = Some (rj_stream r) \<and> as_u64 (index v ''seq'') = Some (of_nat (rj_seq r))
     \<and> as_str (index v ''prev-hash'') = rj_prev_hash r \<and> get_str v ''reason'' = Some (rj_reason r)
     \<and> get_str v ''object-hash'' = Some (rj_object_hash r)"

definition rejection_linked :: "rejection_row list \<Rightarrow> nat \<Rightarrow> bool" where
  "rejection_linked rows i \<longleftrightarrow>
     rj_seq (rows ! i) = i \<and> rj_prev_hash (rows ! i) = (if i = 0 then None else Some (rj_id (rows ! (i - 1))))"

definition rejections_chained :: "ext \<Rightarrow> store \<Rightarrow> bool" where
  "rejections_chained x st \<longleftrightarrow>
     (\<forall>r \<in> set (rejections st). rj_stream r = rejection_stream st \<and> (\<exists>v. rejected x r v))
     \<and> (\<forall>i < length (rejections st). rejection_linked (rejections st) i)"

lemma rejections_chained_frame:
  "rejections_chained x s \<Longrightarrow> rejections s' = rejections s \<Longrightarrow> rejection_stream s' = rejection_stream s \<Longrightarrow> rejections_chained x s'"
  by (simp add: rejections_chained_def)

lemma rejections_chained_projections: "rejections_chained x s \<Longrightarrow> yields (rejections_chained x) (write_projections y plan s)"
  by (rule write_projections_inv) (assumption | rule projection_keeps; simp add: rejections_chained_frame)+

lemma rejections_chained_append:
  "rejections_chained x s \<Longrightarrow> append_envelope y plan s = Inr (s', a) \<Longrightarrow> rejections_chained x s'"
proof (erule append_inv [rotated])
  show "rejections_chained x s''" if "rejections_chained x t" "insert_envelope plan t = Inr s''" for t s''
    using that by (auto simp: insert_envelope_eq elim: rejections_chained_frame)
qed (rule gate_keeps payloads_keep [where P = "rejections_chained x"] touch_keeps [where P = "rejections_chained x"]
    rejections_chained_projections; simp add: rejections_chained_frame)+

lemma rejection_position_last:
  assumes "rejections_chained x st"
  shows "rejection_position st = (length (rejections st), if rejections st = [] then None else Some (rj_id (last (rejections st))))"
proof (cases "rejections st = []")
  case True
  then show ?thesis by (simp add: rejection_position_def rejection_head_def)
next
  case False
  let ?l = "rejections st"
  from assms have f: "filter (\<lambda>r. rj_stream r = rejection_stream st) ?l = ?l"
    by (auto simp: rejections_chained_def filter_id_conv)
  from False obtain r where r: "greatest rj_seq ?l = Some r" by (cases "greatest rj_seq ?l") auto
  have i: "rj_seq (?l ! i) = i" if "i < length ?l" for i using assms that by (simp add: rejections_chained_def rejection_linked_def)
  from greatest_SomeD [OF r] obtain j where j: "j < length ?l" "?l ! j = r" by (meson in_set_conv_nth)
  have "rj_seq (?l ! (length ?l - 1)) \<le> rj_seq r" using greatest_SomeD [OF r] False by simp
  with i [of "length ?l - 1"] i [OF j(1)] j False have "j = length ?l - 1" by simp
  with j False i [OF j(1)] r f show ?thesis
    by (simp add: rejection_position_def rejection_head_def last_conv_nth)
qed

lemma rejection_body_members:
  fixes x secret s n prev input
  defines "b \<equiv> rejection_body x secret s n prev input"
  shows "get_str b ''stream'' = Some s" "index b ''seq'' = JNumber (PosInt (of_nat n))"
    "as_str (index b ''prev-hash'') = prev" "get_str b ''reason'' = Some (ri_reason input)"
    "get_str b ''object-hash'' = Some (ri_object_hash input)"
    "get_str (index b ''identity'') ''key'' = Some (as_string (from_public_key x (public_key_of x secret)))"
  unfolding b_def rejection_body_def
  by (simp_all add: get_str_def index_def text_or_null_def split: option.splits)


lemma rejection_body_ok: "json_ok (rejection_body x secret s n prev input)"
proof -
  have "sorted_wrt (<) [''detail'', ''identity'', ''kind'', ''object-hash'', ''prev-hash'', ''reason'', ''received-at'', ''seq'',
      ''stream'', ''submitted-by'', ''v'']" "sorted_wrt (<) [''component'', ''key'', ''subject'']" by code_simp+
  then show ?thesis
    unfolding rejection_body_def by (simp add: map_ok_def text_or_null_def del: sorted_wrt.simps split: option.splits)
qed

lemma signed_members:
  assumes "json_ok v" and "sign_object x v sk = Inr w" and "k \<noteq> ''sig''"
  shows "get w k = get v k"
proof -
  from assms(2) obtain m s where m: "v = JObject m" "w = JObject (map_insert ''sig'' s (map_remove ''sig'' m))"
    by (auto simp: sign_object_def Let_def)
  with assms(1) have "map_ok m" by simp
  with m assms(3) show ?thesis
    by (simp add: map_of_insert map_remove_ok map_of_remove)
qed

lemma rejected_record:
  assumes "documented x" and "length secret = 32" and "signed_rejection x secret input s = Inr rec" and "reads_back x rec"
    and "record_rejection x secret input s = Inr (s', r)" and "s' = s\<lparr>rejections := rejections s @ [row]\<rparr>"
  shows "rejected x row rec \<and> rj_stream row = rejection_stream s \<and> rejection_position s = (rj_seq row, rj_prev_hash row)"
proof -
  obtain n prev where p: "rejection_position s = (n, prev)" by (cases "rejection_position s")
  let ?b = "rejection_body x secret (rejection_stream s) n prev input"
  from assms(3) p have sg: "sign_object x ?b secret = Inr rec" by (simp add: signed_rejection_def)
  from signed_object_verifies [OF assms(1,2) rejection_body_ok sg] have k: "\<exists>k. verify_signed_object x rec = Inr k" by blast
  have g: "get_str rec k = get_str ?b k" "index rec k = index ?b k" if "k \<noteq> ''sig''" for k
    using signed_members [OF rejection_body_ok sg that] by (simp_all add: get_str_def index_def)
  have "yields (\<lambda>q. \<exists>text i. canonicalize x rec = Inr text \<and> object_id x rec = Inr i \<and> (\<exists>row. rejections (fst q) = rejections s @ [row]
      \<and> rj_stream row = rejection_stream s \<and> rj_seq row = n \<and> rj_prev_hash row = prev \<and> rj_id row = i
      \<and> rj_reason row = ri_reason input \<and> rj_object_hash row = ri_object_hash input \<and> rj_record_json row = text))
     (record_rejection x secret input s)"
    unfolding record_rejection_def p Let_def assms(3) by (intro yields_rules) auto
  moreover have "rejections s' = rejections s @ [row]" by (simp add: assms(6))
  ultimately have w: "canonicalize x rec = Inr (rj_record_json row)"
    "object_id x rec = Inr (rj_id row)" "rj_stream row = rejection_stream s" "rj_seq row = n" "rj_prev_hash row = prev"
    "rj_reason row = ri_reason input" "rj_object_hash row = ri_object_hash input"
    by (auto dest!: yieldsD [OF _ assms(5)])
  with assms(4) k p show ?thesis by (auto simp: rejected_def reads_back_def g rejection_body_members)
qed

lemma rejections_chained_reject:
  assumes "documented x" and "rejections_chained x s" and "length secret = 32" and "signed_rejection x secret input s = Inr rec"
    and "reads_back x rec" and "record_rejection x secret input s = Inr (s', r)" and "s' = s\<lparr>rejections := rejections s @ [row]\<rparr>"
  shows "rejections_chained x s'"
proof -
  from rejected_record [OF assms(1,3-7)] have r: "rejected x row rec" "rj_stream row = rejection_stream s"
    "rejection_position s = (rj_seq row, rj_prev_hash row)" by auto
  from r(3) rejection_position_last [OF assms(2)] have "rejection_linked (rejections s') (length (rejections s))"
    by (auto simp: rejection_linked_def assms(7) nth_append last_conv_nth split: if_splits)
  moreover have "rejection_linked (rejections s') i" if "i < length (rejections s)" for i
    using assms(2) that by (auto simp: rejections_chained_def rejection_linked_def assms(7) nth_append)
  ultimately show ?thesis using assms(2) r(1,2)
    by (auto simp: rejections_chained_def assms(7) less_Suc_eq)
qed

lemma rejections_chained_step: "documented x \<Longrightarrow> step x s s' \<Longrightarrow> rejections_chained x s \<Longrightarrow> rejections_chained x s'"
  by (erule step_inv)
    (erule (1) rejections_chained_append | erule (6) rejections_chained_reject | simp add: rejections_chained_frame)+

lemma rejections_chained_reachable: "documented x \<Longrightarrow> reachable x st \<Longrightarrow> rejections_chained x st"
  by (erule reachable_invariant) (simp add: rejections_chained_def empty_store_def, erule (2) rejections_chained_step)

lemma verify_rejections_rows:
  assumes "list_all2 (rejected x) rows vs" and "\<forall>r \<in> set rows. rj_stream r = s"
    and "\<forall>i < length rows. rj_seq (rows ! i) = n + i
      \<and> rj_prev_hash (rows ! i) = (if i = 0 then previous else Some (rj_id (rows ! (i - 1))))"
  shows "verify_rejections_from x s n previous vs = Inr (if rows = [] then previous else Some (rj_id (last rows)))"
  using assms
proof (induction rows vs arbitrary: n previous rule: list_all2_induct)
  case (Cons r rows v vs)
  from Cons(1,4) Cons(5) [rule_format, of 0] obtain k where r: "verify_signed_object x v = Inr k" "object_id x v = Inr (rj_id r)"
    "get_str v ''stream'' = Some s" "as_u64 (index v ''seq'') = Some (of_nat n)" "as_str (index v ''prev-hash'') = previous"
    by (auto simp: rejected_def)
  have "verify_rejections_from x s (Suc n) (Some (rj_id r)) vs
      = Inr (if rows = [] then Some (rj_id r) else Some (rj_id (last rows)))"
  proof (rule Cons(3))
    show "\<forall>i < length rows. rj_seq (rows ! i) = Suc n + i
      \<and> rj_prev_hash (rows ! i) = (if i = 0 then Some (rj_id r) else Some (rj_id (rows ! (i - 1))))"
    proof (intro allI impI)
      fix i assume "i < length rows"
      with Cons(5) [rule_format, of "Suc i"] show "rj_seq (rows ! i) = Suc n + i
        \<and> rj_prev_hash (rows ! i) = (if i = 0 then Some (rj_id r) else Some (rj_id (rows ! (i - 1))))"
        by (cases i) simp_all
    qed
  qed (use Cons(4) in simp)
  then show ?case using r by (cases previous) (auto simp: index_str check_rejection_link_def)
qed simp


section \<open>Every projection names its envelope\<close>

definition cited :: "store \<Rightarrow> string set" where
  "cited st =
     gu_envelope_id ` set (gate_uses st) \<union> ck_envelope_id ` set (checkpoints st) \<union> dc_envelope_id ` set (gate_decisions st)
     \<union> pr_envelope_id ` set (policies st) \<union> mf_envelope_id ` set (manifests st) \<union> mr_envelope_id ` set (mandate_rows st)
     \<union> rv_envelope_id ` set (revocation_rows st) \<union> rs_envelope_id ` set (stream_resumes st)
     \<union> rf_envelope_id ` set (payload_refs st)"

definition stored_ids :: "store \<Rightarrow> string set" where
  "stored_ids st = er_id ` set (envelopes st)"

definition accounted_but :: "string set \<Rightarrow> store \<Rightarrow> bool" where
  "accounted_but new st \<longleftrightarrow> cited st \<subseteq> stored_ids st \<union> new"

lemma accounted_projections: "accounted_but {ap_id plan} s \<Longrightarrow> yields (accounted_but {ap_id plan}) (write_projections x plan s)"
  by (rule write_projections_inv;
      (assumption
        | (unfold project_mandate_def project_revocation_def project_policy_def project_manifest_def project_gate_decision_def
             project_stream_resume_def project_checkpoint_def next_counter_def Let_def,
           intro yields_rules; simp add: accounted_but_def cited_def stored_ids_def; fail)
        | (rule projection_keeps; simp add: accounted_but_def cited_def stored_ids_def)))

lemma accounted_gate: "accounted_but {ap_id plan} s \<Longrightarrow> yields (accounted_but {ap_id plan}) (record_gate_use plan s)"
  unfolding record_gate_use_def by (intro yields_rules) (simp_all add: accounted_but_def cited_def stored_ids_def)

lemma accounted_mono:
  "accounted_but new s \<Longrightarrow> cited s' \<subseteq> cited s \<union> new \<Longrightarrow> stored_ids s \<subseteq> stored_ids s' \<Longrightarrow> accounted_but new s'"
  unfolding accounted_but_def by blast

lemma accounted_insert: "accounted_but new s \<Longrightarrow> insert_envelope plan s = Inr s' \<Longrightarrow> accounted_but new s'"
  by (erule accounted_mono) (auto simp: insert_envelope_eq cited_def stored_ids_def)

lemma accounted_payloads: "accounted_but {ap_id plan} s \<Longrightarrow> accounted_but {ap_id plan} (store_payloads plan s)"
  using store_payloads_frame [of plan s]
  by (elim accounted_mono exE conjE) (simp_all add: cited_def stored_ids_def, blast)

lemma append_stores:
  assumes "append_envelope x plan s = Inr (s', a)"
  shows "ap_id plan \<in> stored_ids s'"
proof (cases "envelope_by_id s (ap_id plan)")
  case None
  with assms obtain s1 s2 s3 where st: "record_gate_use plan s = Inr s1" "insert_envelope plan s1 = Inr s2"
    "write_projections x plan (store_payloads plan s2) = Inr s3" "s' = touch_stream plan s3"
    by (auto simp: append_envelope_def append_fresh_eq)
  have i: "ap_id plan \<in> stored_ids s2"
    using st(2) yieldsD [OF envelope_row_facts] by (force simp: insert_envelope_eq stored_ids_def)
  have "ap_id plan \<in> stored_ids (store_payloads plan s2)"
    by (rule payloads_keep [where P = "\<lambda>s. _ \<in> stored_ids s"]) (use i in \<open>simp add: stored_ids_def\<close>)
  moreover have "grows (store_payloads plan s2) s3"
    using yieldsD [OF grows_projections st(3)] by simp
  ultimately have j: "ap_id plan \<in> stored_ids s3" by (auto simp: stored_ids_def grows_def dest: set_mono_prefix)
  show ?thesis unfolding st(4)
    by (rule touch_keeps [where P = "\<lambda>s. _ \<in> stored_ids s"]) (use j in \<open>simp add: stored_ids_def\<close>)
next
  case (Some row)
  then have "row \<in> set (envelopes s)" "er_id row = ap_id plan" by (auto simp: envelope_by_id_def dest: find_SomeD)
  then show ?thesis using assms Some by (force simp: append_envelope_def stored_ids_def)
qed

definition accounted :: "store \<Rightarrow> bool" where
  "accounted st \<longleftrightarrow> cited st \<subseteq> stored_ids st"

lemma accounted_append:
  assumes "accounted s" and "append_envelope x plan s = Inr (s', a)"
  shows "accounted s'"
proof -
  have "accounted_but {ap_id plan} s'"
    using assms(2)
  proof (rule append_inv)
    show "accounted_but {ap_id plan} s" using assms(1) by (auto simp: accounted_def accounted_but_def)
    show "accounted_but {ap_id plan} (touch_stream plan t)" if "accounted_but {ap_id plan} t" for t
      using that by (intro touch_keeps [where P = "accounted_but {ap_id plan}"])
        (simp add: accounted_but_def cited_def stored_ids_def)
  qed (rule accounted_gate accounted_projections accounted_payloads accounted_insert; assumption)+
  with append_stores [OF assms(2)] show ?thesis by (auto simp: accounted_def accounted_but_def)
qed

lemma accounted_step: "step x s s' \<Longrightarrow> accounted s \<Longrightarrow> accounted s'"
  by (erule step_inv) (erule (1) accounted_append | simp add: accounted_def cited_def stored_ids_def)+

lemma accounted_reachable: "reachable x st \<Longrightarrow> accounted st"
  by (erule reachable_invariant) (simp add: accounted_def cited_def empty_store_def, erule (1) accounted_step)

section \<open>Checkpoints cover what they attest\<close>

definition attested :: "store \<Rightarrow> string \<Rightarrow> nat set" where
  "attested st s = \<Union> {{ck_from_seq c..ck_to_seq c} | c. c \<in> set (checkpoints st) \<and> ck_stream c = s}"

definition covered :: "store \<Rightarrow> bool" where
  "covered st \<longleftrightarrow> (\<forall>c \<in> set (checkpoints st). {..ck_to_seq c} \<subseteq> attested st (ck_stream c))
     \<and> distinct (List.map (\<lambda>c. (ck_stream c, ck_from_seq c)) (checkpoints st))"

lemma covered_frame: "covered s \<Longrightarrow> checkpoints s' = checkpoints s \<Longrightarrow> covered s'"
  by (simp add: covered_def attested_def)

lemma attested_snoc:
  "checkpoints s' = checkpoints s @ [c] \<Longrightarrow> attested s' n = attested s n \<union> (if ck_stream c = n then {ck_from_seq c..ck_to_seq c} else {})"
  by (auto simp: attested_def)

lemma seq_column_le: "seq_column u \<le> unat u"
  by (simp add: seq_column_def)

lemma covered_checkpoint:
  assumes "covered s"
  shows "yields covered (project_checkpoint plan s)"
proof (cases "pj_checkpoint (ap_projections plan)")
  case None
  with assms show ?thesis by (simp add: project_checkpoint_def yields_def)
next
  case (Some c)
  let ?from = "seq_column (cc_from_seq c)" and ?to = "seq_column (cc_to_seq c)"
  let ?row = "\<lparr>ck_stream = cc_stream c, ck_from_seq = ?from, ck_to_seq = ?to, ck_head_hash = cc_head_hash c,
      ck_envelope_id = ap_id plan, ck_observed_at = cc_observed_at c\<rparr>"
  let ?new = "s\<lparr>checkpoints := checkpoints s @ [?row]\<rparr>"
  let ?expected = "case last_checkpoint s (cc_stream c) of None \<Rightarrow> 0 | Some row \<Rightarrow> ck_to_seq row + 1"
  have below: "{..<?from} \<subseteq> attested s (cc_stream c)" if "unat (cc_from_seq c) = ?expected"
  proof (cases "last_checkpoint s (cc_stream c)")
    case None
    with that seq_column_le [of "cc_from_seq c"] show ?thesis by simp
  next
    case (Some last)
    then have "last \<in> set (checkpoints s)" "ck_stream last = cc_stream c"
      by (auto simp: last_checkpoint_def dest!: greatest_SomeD)
    moreover have "{..<?from} \<subseteq> {..ck_to_seq last}" using that Some seq_column_le [of "cc_from_seq c"] by auto
    ultimately show ?thesis using assms unfolding covered_def by fastforce
  qed
  have "covered ?new" if "unat (cc_from_seq c) = ?expected"
    "\<forall>r \<in> set (checkpoints s). \<not> (ck_stream r = cc_stream c \<and> ck_from_seq r = ?from)"
  proof -
    have "{..?to} \<subseteq> attested ?new (cc_stream c)"
      using below [OF that(1)] attested_snoc [of ?new s ?row "cc_stream c"] by fastforce
    moreover have "attested s n \<subseteq> attested ?new n" for n using attested_snoc [of ?new s ?row n] by simp
    ultimately show ?thesis using assms that(2) by (force simp: covered_def)
  qed
  then show ?thesis
    unfolding project_checkpoint_def Some Let_def
    by (simp add: yields_def list_ex_iff)
qed

lemma covered_projections: "covered s \<Longrightarrow> yields covered (write_projections x plan s)"
  by (rule write_projections_inv) (assumption | erule covered_checkpoint | rule projection_keeps; simp add: covered_frame)+

lemma covered_append: "covered s \<Longrightarrow> append_envelope x plan s = Inr (s', a) \<Longrightarrow> covered s'"
proof (erule append_inv [rotated])
  show "covered s''" if "covered t" "insert_envelope plan t = Inr s''" for t s''
    using that by (auto simp: insert_envelope_eq elim: covered_frame)
qed (rule gate_keeps payloads_keep [where P = covered] touch_keeps [where P = covered] covered_projections;
    simp add: covered_frame)+

lemma covered_step: "step x s s' \<Longrightarrow> covered s \<Longrightarrow> covered s'"
  by (erule step_inv) (erule (1) covered_append | simp add: covered_frame)+

lemma covered_reachable: "reachable x st \<Longrightarrow> covered st"
  by (erule reachable_invariant) (simp add: covered_def empty_store_def, erule (1) covered_step)

end
