(* ===== verification/Logs.thy ===== *)
theory Logs
  imports Ledger
begin

text \<open>
  The append-only tables of the store as an interface: locale \<open>append_log\<close>, extended by \<open>keyed_log\<close>, with the store's
  tables as its interpretations; and what a fresh append leaves for later lookups.
\<close>


section \<open>Lookups in growing tables\<close>

lemma find_append: "List.find P (xs @ ys) = (case List.find P xs of Some e \<Rightarrow> Some e | None \<Rightarrow> List.find P ys)"
  by (induction xs) auto

lemma find_prefix: "prefix xs ys \<Longrightarrow> List.find P xs = Some e \<Longrightarrow> List.find P ys = Some e"
  by (auto simp: prefix_def find_append)


section \<open>Append-only tables\<close>

text \<open>What a client of a table may rely on when the store only ever adds to it: rows stay, where they were, and a
  lookup that succeeded once succeeds with the same row ever after.\<close>

locale append_log =
  fixes moves :: "'s \<Rightarrow> 's \<Rightarrow> bool" and rows :: "'s \<Rightarrow> 'r list"
  assumes moves_grow: "moves s s' \<Longrightarrow> prefix (rows s) (rows s')"
begin

lemma row_stays: "moves s s' \<Longrightarrow> r \<in> set (rows s) \<Longrightarrow> r \<in> set (rows s')"
  using moves_grow set_mono_prefix by blast

lemma position_stays: "moves s s' \<Longrightarrow> i < length (rows s) \<Longrightarrow> rows s' ! i = rows s ! i"
  by (auto dest!: moves_grow simp: prefix_def nth_append)

lemma found_stays: "moves s s' \<Longrightarrow> List.find P (rows s) = Some r \<Longrightarrow> List.find P (rows s') = Some r"
  by (auto dest!: moves_grow simp: prefix_def find_append)

end

text \<open>A table with a key: the key finds the row.\<close>

locale keyed_log = append_log +
  fixes good :: "'a \<Rightarrow> bool" and key :: "'b \<Rightarrow> 'k"
  assumes keys_distinct: "good s \<Longrightarrow> distinct (List.map key (rows s))"
begin

lemma key_finds:
  assumes "good s" and "r \<in> set (rows s)"
  shows "List.find (\<lambda>q. key q = key r) (rows s) = Some r"
proof -
  from assms(2) obtain q where q: "List.find (\<lambda>q. key q = key r) (rows s) = Some q"
    by (cases "List.find (\<lambda>q. key q = key r) (rows s)") (auto simp: find_None_iff)
  with find_SomeD [OF q] keys_distinct [OF assms(1)] assms(2) show ?thesis
    by (auto simp: distinct_map inj_on_def)
qed

lemma key_finds_ever: "moves s s' \<Longrightarrow> good s \<Longrightarrow> r \<in> set (rows s) \<Longrightarrow> List.find (\<lambda>q. key q = key r) (rows s') = Some r"
  by (erule found_stays) (erule (1) key_finds)

end

lemma reaches_envelopes: "reaches x s s' \<Longrightarrow> prefix (envelopes s) (envelopes s')"
  by (drule grows_reaches) (simp add: grows_def)

lemma reaches_gate_uses: "reaches x s s' \<Longrightarrow> prefix (gate_uses s) (gate_uses s')"
  by (drule grows_reaches) (simp add: grows_def)

lemma reaches_rejections: "reaches x s s' \<Longrightarrow> prefix (rejections s) (rejections s')"
  by (drule grows_reaches) (simp add: grows_def)

lemma envelope_ids: "reachable x s \<Longrightarrow> distinct (List.map er_id (envelopes s))"
  using chained_reachable unfolding chained_def by blast

lemma use_hashes: "reachable x s \<Longrightarrow> distinct (List.map gu_request_hash (gate_uses s))"
  using spent_once_reachable unfolding spent_once_def by blast

lemma rejection_positions:
  assumes "documented x \<and> reachable x s"
  shows "distinct (List.map rj_seq (rejections s))"
proof -
  from assms have "rejections_chained x s" by (blast intro: rejections_chained_reachable)
  then have "\<forall>i < length (rejections s). rj_seq (rejections s ! i) = i"
    by (simp add: rejections_chained_def rejection_linked_def)
  then show ?thesis by (simp add: distinct_conv_nth)
qed

interpretation envelope_log: keyed_log "reaches x" envelopes "reachable x" er_id for x
  by (rule keyed_log.intro, rule append_log.intro, erule reaches_envelopes, rule keyed_log_axioms.intro, erule envelope_ids)

interpretation use_log: keyed_log "reaches x" gate_uses "reachable x" gu_request_hash for x
  by (rule keyed_log.intro, rule append_log.intro, erule reaches_gate_uses, rule keyed_log_axioms.intro, erule use_hashes)

interpretation rejection_log: keyed_log "reaches x" rejections "\<lambda>s. documented x \<and> reachable x s" rj_seq for x
  by (rule keyed_log.intro, rule append_log.intro, erule reaches_rejections, rule keyed_log_axioms.intro, erule rejection_positions)


section \<open>A fresh append\<close>

lemma fresh_append_row:
  assumes "append_envelope x plan s = Inr (s', a)" and "\<not> ad_idempotent a"
  shows "append_fresh x plan s = Inr s' \<and> a = \<lparr>ad_id = ap_id plan, ad_stream = stream_of plan, ad_seq = unat (seq_of_plan plan), ad_idempotent = False\<rparr>"
  using assms by (auto simp: append_envelope_def split: option.splits)

lemma append_later:
  assumes "append_fresh x plan s = Inr s'"
  shows "\<exists>s1 s2. record_gate_use plan s = Inr s1 \<and> insert_envelope plan s1 = Inr s2 \<and> grows s2 s'"
proof -
  from assms obtain s1 s2 s3 where st: "record_gate_use plan s = Inr s1" "insert_envelope plan s1 = Inr s2"
    "write_projections x plan (store_payloads plan s2) = Inr s3" "s' = touch_stream plan s3" by (auto simp: append_fresh_eq)
  have g: "grows s2 (store_payloads plan s2)" by (rule payloads_keep [where P = "grows s2"]) (simp add: grows_def)
  from yieldsD [OF grows_projections [OF g] st(3)] have "grows s2 s3" .
  then have "grows s2 s'" unfolding st(4) by (intro touch_keeps [where P = "grows s2"]) (simp add: grows_def)
  with st show ?thesis by blast
qed

text \<open>A fresh append leaves its row where later lookups by identifier find it.\<close>

lemma append_found:
  assumes "append_fresh x plan s = Inr s'" and "envelope_by_id s (ap_id plan) = None"
  shows "\<exists>row. envelope_row_of plan = Inr row \<and> envelope_by_id s' (ap_id plan) = Some row"
proof -
  from append_later [OF assms(1)] obtain s1 s2 where st: "record_gate_use plan s = Inr s1" "insert_envelope plan s1 = Inr s2"
    "grows s2 s'" by blast
  from st(1) have e: "envelopes s1 = envelopes s"
    using yieldsD [OF gate_keeps [where P = "\<lambda>t. envelopes t = envelopes s"] st(1)] by simp
  from st(2) obtain row where r: "envelope_row_of plan = Inr row" "envelopes s2 = envelopes s @ [row]"
    by (auto simp: insert_envelope_eq e)
  have n: "List.find (\<lambda>r. er_id r = ap_id plan) (envelopes s) = None"
    using assms(2) by (simp add: envelope_by_id_def)
  have "er_id row = ap_id plan" using yieldsD [OF envelope_row_facts r(1)] by simp
  then have "List.find (\<lambda>r. er_id r = ap_id plan) (envelopes s2) = Some row" by (simp add: r(2) find_append n)
  with st(3) r(1) show ?thesis by (auto simp: envelope_by_id_def grows_def intro: find_prefix)
qed

end
