(* ===== verification/History.thy ===== *)
theory History
  imports Logs
begin

text \<open>
  What every reachable store of the kernel guarantees, from the invariants of \<open>Ledger\<close>: streams that verify, gaps only
  over refused bytes, a history that only grows, approvals spent once, erasure that touches content only.
\<close>

section \<open>A concrete store\<close>

text \<open>A parser that reads back the given values, and nothing else.\<close>

definition reader :: "json list \<Rightarrow> ext" where
  "reader vs =
     demo_ext\<lparr>strict_parse := (\<lambda>t. case List.find (\<lambda>v. canonicalize demo_ext v = Inr t) vs of
                                    Some v \<Rightarrow> Inr v | None \<Rightarrow> Inl OtherFailure)\<rparr>"

definition demo_plan :: "json \<Rightarrow> append_plan" where
  "demo_plan e =
     \<lparr>ap_envelope = e, ap_id = demo_id e, ap_canonical_json = (case canonicalize demo_ext e of Inr s \<Rightarrow> s | Inl _ \<Rightarrow> []),
      ap_stream_kind = ''effect'', ap_received_at = ''2026-07-26T09:00:00.000Z'', ap_human_root = None,
      ap_effective_class = None, ap_policy_violation = None, ap_payloads = [], ap_gate_use = None,
      ap_projections = no_projections, ap_spend = None\<rparr>"

definition after :: "(store \<times> 'a) res \<Rightarrow> store" where
  "after r = (case r of Inr (st, _) \<Rightarrow> st | Inl _ \<Rightarrow> empty_store [])"

definition demo_store :: store where
  "demo_store = after (append_envelope (reader [demo_record 0 JNull]) (demo_plan (demo_record 0 JNull)) (empty_store ''kernel:rejections''))"

lemma afterI: "(case r of Inr _ \<Rightarrow> True | Inl _ \<Rightarrow> False) \<Longrightarrow> \<exists>a. r = Inr (after r, a)"
  by (cases r) (auto simp: after_def)

lemma demo_planned: "planned (reader [demo_record 0 JNull]) (demo_plan (demo_record 0 JNull))"
proof -
  have "(case verify_signed_object (reader [demo_record 0 JNull]) (demo_record 0 JNull) of Inr _ \<Rightarrow> True | Inl _ \<Rightarrow> False)"
    by code_simp
  then have "\<exists>k. verify_signed_object (reader [demo_record 0 JNull]) (demo_record 0 JNull) = Inr k"
    by (simp split: sum.splits)
  moreover have "validate (reader [demo_record 0 JNull]) (demo_record 0 JNull) = Inr ()" by code_simp
  ultimately have "authentic (reader [demo_record 0 JNull]) (ap_envelope (demo_plan (demo_record 0 JNull)))"
    by (simp add: authentic_def demo_plan_def)
  moreover have "let p = demo_plan (demo_record 0 JNull); x = reader [demo_record 0 JNull] in
      canonicalize x (ap_envelope p) = Inr (ap_canonical_json p) \<and> object_id x (ap_envelope p) = Inr (ap_id p)
      \<and> reads_back x (ap_envelope p)
      \<and> ap_stream_kind p = (if get_str (ap_envelope p) ''kind'' = Some ''signal'' then ''signal'' else ''effect'')"
    by code_simp
  ultimately show ?thesis by (simp add: planned_def Let_def)
qed

lemma demo_store_reachable: "reachable (reader [demo_record 0 JNull]) demo_store"
proof -
  have "case append_envelope (reader [demo_record 0 JNull]) (demo_plan (demo_record 0 JNull)) (empty_store ''kernel:rejections'')
      of Inr _ \<Rightarrow> True | Inl _ \<Rightarrow> False" by code_simp
  from afterI [OF this] demo_planned reachable_empty [of _ "''kernel:rejections''"] show ?thesis
    unfolding demo_store_def by (blast intro: reachable_step step.append)
qed

section \<open>Properties\<close>

text \<open>C18: What was accepted verifies: in every store the kernel's operations can reach, reading a whole stream back and
  verifying it as a chain succeeds, unless the stream was ever resumed past a refused position: the records are
  authentic, contiguous from 0 and linked, and the verified head is the head the store reports.\<close>

theorem accepted_stream_verifies:
  assumes "reachable x st" and "unresumed st s" and "stream_head st s = Some (n, h)"
  shows "\<exists>es. range_of x st s 0 (of_nat n) = Inr es
    \<and> verify_chain x es s None = Inr \<lparr>count = n + 1, head_hash = h, anchored = True\<rparr>"
proof -
  note c = chained_reachable [OF assms(1)] and r = recorded_reachable [OF assms(1)]
  let ?l = "chain_rows st s"
  obtain es where es: "map_res (\<lambda>r. parse x (er_canonical_json r)) ?l = Inr es" "list_all2 (records x) ?l es"
    using map_res_records [of ?l x] r by (auto simp: recorded_def)
  have i: "er_stream (?l ! i) = s \<and> er_seq (?l ! i) = i \<and> er_prev_hash (?l ! i) = id_before ?l i" if "i < length ?l" for i
    using chain_rows_prev [OF c assms(2) that] nth_mem [OF that] by (simp add: id_before_def)
  from stream_head_SomeD [OF assms(3)] obtain q where q: "q \<in> set ?l" "er_seq q = n" "er_id q = h"
    "\<forall>q \<in> set ?l. er_seq q \<le> n" by auto
  then obtain j where j: "j < length ?l" "?l ! j = q" by (meson in_set_conv_nth)
  have len: "length ?l = Suc n"
    using i [OF j(1)] j q(2,4) i [of "length ?l - 1"] nth_mem [of "length ?l - 1" ?l] by (cases "length ?l") fastforce+
  then have "id_before ?l (length ?l) = Some h" using i [OF j(1)] j q(2,3) by (simp add: id_before_def)
  with chain_of_rows [OF es(2) i, of 0] have ch: "chain_of x s 0 None es (Some h)" by (simp add: id_before_def)
  obtain e rest where e: "es = e # rest" using list_all2_lengthD [OF es(2)] len by (cases es) auto
  with ch have z: "seq_no e = 0" by simp
  with ch have "chain_of x s (seq_no e) None es (Some h)" by (simp only:)
  then have "verify_chain x es s None = Inr \<lparr>count = n + 1, head_hash = h, anchored = True\<rparr>"
    unfolding verify_chain_iff using e z list_all2_lengthD [OF es(2)] len by (intro exI conjI) (auto simp: anchor_ok_def)
  then show ?thesis
    using es(1) by (simp add: range_of_def whole_stream [OF r assms(3)] chain_rows_def [symmetric])
qed

theorem accepted_stream_verifies_witness:
  "\<exists>es. range_of (reader [demo_record 0 JNull]) demo_store ''gw'' 0 0 = Inr es
     \<and> verify_chain (reader [demo_record 0 JNull]) es ''gw'' None
       = Inr \<lparr>count = 1, head_hash = demo_id (demo_record 0 JNull), anchored = True\<rparr>"
proof -
  have "unresumed demo_store ''gw''" "stream_head demo_store ''gw'' = Some (0, demo_id (demo_record 0 JNull))"
    unfolding unresumed_def by code_simp+
  from accepted_stream_verifies [OF demo_store_reachable this] show ?thesis by simp
qed


lemma gate_use_recorded:
  assumes "record_gate_use plan s = Inr s'" and "ap_gate_use plan = Some use" and "us_single_use use"
  shows "\<exists>r \<in> set (gate_uses s'). gu_request_hash r = us_request_hash use \<and> gu_single_use r \<and> gu_envelope_id r = ap_id plan"
  using assms by (auto simp: record_gate_use_def split: option.splits if_splits)

lemma append_uses:
  assumes "append_fresh x plan s = Inr s'" and "ap_gate_use plan = Some use" and "us_single_use use"
  shows "\<exists>r \<in> set (gate_uses s'). gu_request_hash r = us_request_hash use \<and> gu_single_use r \<and> gu_envelope_id r = ap_id plan"
proof -
  from append_later [OF assms(1)] obtain s1 s2 where st: "record_gate_use plan s = Inr s1" "insert_envelope plan s1 = Inr s2"
    "grows s2 s'" by blast
  from st(2) have "gate_uses s2 = gate_uses s1" by (auto simp: insert_envelope_eq)
  with gate_use_recorded [OF st(1) assms(2,3)] st(3) show ?thesis by (auto simp: grows_def dest!: set_mono_prefix)
qed

lemma spent_is_refused:
  assumes "gate_use_of s (us_request_hash use) = Some r" and "gu_single_use r" and "ap_gate_use plan = Some use"
    and "append_envelope x plan s = Inr (s', a)"
  shows "ad_idempotent a \<and> s' = s"
proof (rule ccontr)
  assume "\<not> ?thesis"
  with assms(4) have "append_fresh x plan s = Inr s'" by (auto simp: append_envelope_def split: option.splits)
  with append_later obtain s1 where "record_gate_use plan s = Inr s1" by blast
  with assms(1,2,3) show False by (simp add: record_gate_use_def)
qed

text \<open>C2: An approval is spent once and for ever: once an envelope has been appended on a single-use approval, every later
  append that cites the same request, whatever the kernel did in between, is the idempotent answer to an envelope
  already stored and changes nothing.\<close>

theorem approval_spent_once:
  assumes "reachable x st" and "planned x p" and "append_envelope x p st = Inr (st1, a)" and "\<not> ad_idempotent a"
    and "ap_gate_use p = Some use" and "us_single_use use" and "reaches x st1 st2"
    and "append_envelope x q st2 = Inr (st3, b)"
    and "ap_gate_use q = Some again" and "us_request_hash again = us_request_hash use"
  shows "ad_idempotent b \<and> st3 = st2 \<and> gate_request_spent_by st2 (us_request_hash use) = Some (ap_id p)"
proof -
  from fresh_append_row [OF assms(3,4)] append_uses [OF _ assms(5,6)] obtain r where r: "r \<in> set (gate_uses st1)"
    "gu_request_hash r = us_request_hash use" "gu_single_use r" "gu_envelope_id r = ap_id p" by blast
  have "reachable x st1" using assms(1-3) by (blast intro: reachable_step step.append)
  then have g: "reachable x st2" and m: "List.find (\<lambda>q. gu_request_hash q = gu_request_hash r) (gate_uses st2) = Some r"
    using assms(7) r(1) by (blast intro: reachable_reaches, blast intro: use_log.key_finds_ever)
  have s: "List.find (\<lambda>q. gu_request_hash q = us_request_hash use \<and> gu_single_use q) (gate_uses st2) = Some r"
  proof -
    have "r \<in> set (gate_uses st2)" by (rule use_log.row_stays [OF assms(7) r(1)])
    then obtain q where q: "List.find (\<lambda>q. gu_request_hash q = us_request_hash use \<and> gu_single_use q) (gate_uses st2) = Some q"
      using r(2,3) by (cases "List.find (\<lambda>q. gu_request_hash q = us_request_hash use \<and> gu_single_use q) (gate_uses st2)")
        (auto simp: find_None_iff)
    then have "q = r" using find_SomeD [OF q] use_log.key_finds [OF g, of q] m r(2) by simp
    with q show ?thesis by simp
  qed
  have "ad_idempotent b \<and> st3 = st2"
    using m r(2,3) by (intro spent_is_refused [OF _ _ assms(9,8), of r]) (simp_all add: gate_use_of_def assms(10))
  then show ?thesis using s r(4) by (simp add: gate_request_spent_by_def)
qed

text \<open>A retry is never a second event: a submission whose envelope was appended, offered again after whatever the kernel
  did in between, is answered with the same identifier and stream, and the store stays as it is.\<close>

lemma appended_again:
  assumes "append_envelope x p st = Inr (st1, a)" and "\<not> ad_idempotent a" and "reaches x st1 st2"
  shows "append_envelope x p st2
    = Inr (st2, \<lparr>ad_id = ad_id a, ad_stream = ad_stream a, ad_seq = min (ad_seq a) 9223372036854775807, ad_idempotent = True\<rparr>)"
proof -
  from fresh_append_row [OF assms(1,2)] have f: "append_fresh x p st = Inr st1"
    and a: "a = \<lparr>ad_id = ap_id p, ad_stream = stream_of p, ad_seq = unat (seq_of_plan p), ad_idempotent = False\<rparr>" by auto
  have "envelope_by_id st (ap_id p) = None"
    using assms(1,2) by (auto simp: append_envelope_def split: option.splits)
  from append_found [OF f this] obtain row where r: "envelope_row_of p = Inr row" "envelope_by_id st1 (ap_id p) = Some row" by blast
  then have "envelope_by_id st2 (ap_id p) = Some row"
    using envelope_log.found_stays [OF assms(3)] by (simp add: envelope_by_id_def)
  with yieldsD [OF envelope_row_facts r(1)] show ?thesis
    by (simp add: append_envelope_def a seq_column_def min_def)
qed

text \<open>C19: A gap in a stored stream is a refusal: every row of every reachable store starts its stream, follows the row
  before it, or stands one past a position at which the kernel recorded the refusal of exactly the bytes its
  predecessor hash names; and no two rows share an identifier or a position.\<close>

theorem gaps_only_over_refusals:
  assumes "reachable x st"
  shows "(\<forall>r \<in> set (envelopes st). starts r \<or> follows st r
      \<or> (\<exists>n h. er_seq r = Suc n \<and> er_prev_hash r = Some h \<and> refused_at st (er_stream r) n h))
    \<and> distinct (List.map er_id (envelopes st)) \<and> distinct (List.map (\<lambda>r. (er_stream r, er_seq r)) (envelopes st))"
proof -
  note c = chained_reachable [OF assms] and j = resumes_justified_reachable [OF assms]
  have "\<exists>n h. er_seq r = Suc n \<and> er_prev_hash r = Some h \<and> refused_at st (er_stream r) n h" if "bridged st r" for r
  proof -
    from that obtain b where b: "b \<in> set (stream_resumes st)" "rs_stream b = er_stream r" "Suc (rs_resume_seq b) = er_seq r"
      "er_prev_hash r = Some (rs_bridge_hash b)" by (auto simp: bridged_def)
    with j have "refused_at st (er_stream r) (rs_resume_seq b) (rs_bridge_hash b)" by (auto simp: resumes_justified_def)
    with b show ?thesis by force
  qed
  with c show ?thesis unfolding chained_def by blast
qed

theorem gaps_only_over_refusals_witness:
  "\<exists>r. envelopes demo_store = [r] \<and> er_seq r = 0 \<and> distinct (List.map er_id (envelopes demo_store))
    \<and> (starts r \<or> follows demo_store r
      \<or> (\<exists>n h. er_seq r = Suc n \<and> er_prev_hash r = Some h \<and> refused_at demo_store (er_stream r) n h))"
proof -
  have "List.map er_seq (envelopes demo_store) = [0]" unfolding demo_store_def by code_simp
  then obtain r where "envelopes demo_store = [r]" "er_seq r = 0" by auto
  with gaps_only_over_refusals [OF demo_store_reachable] show ?thesis by simp
qed


definition demo_use :: gate_use where
  "demo_use = \<lparr>us_request_hash = ''r'', us_decided_by = ''ed25519:k'', us_single_use = True, us_not_after = ''2026-07-27T09:00:00.000Z''\<rparr>"

definition demo_spender :: append_plan where
  "demo_spender = (demo_plan (demo_record 0 JNull))\<lparr>ap_gate_use := Some demo_use\<rparr>"

definition demo_spent :: store where
  "demo_spent = after (append_envelope (reader [demo_record 0 JNull]) demo_spender (empty_store ''kernel:rejections''))"

definition demo_respender :: append_plan where
  "demo_respender = (demo_plan (demo_record 1 (JString (demo_id (demo_record 0 JNull)))))\<lparr>ap_id := ''other'', ap_gate_use := Some demo_use\<rparr>"

lemma demo_spender_planned: "planned (reader [demo_record 0 JNull]) demo_spender"
  using demo_planned by (simp add: planned_def demo_spender_def)

theorem approval_spent_once_witness:
  "gate_request_spent_by demo_spent ''r'' = Some (demo_id (demo_record 0 JNull))
   \<and> append_envelope (reader [demo_record 0 JNull]) demo_respender demo_spent = Inl (err ''gate-authorization-replayed'')"
proof -
  let ?x = "reader [demo_record 0 JNull]" and ?e = "empty_store ''kernel:rejections''"
  have "case append_envelope ?x demo_spender ?e of Inr _ \<Rightarrow> True | Inl _ \<Rightarrow> False" by code_simp
  from afterI [OF this] obtain a where a: "append_envelope ?x demo_spender ?e = Inr (demo_spent, a)"
    by (auto simp: demo_spent_def)
  have "case append_envelope ?x demo_spender demo_spent of Inr (s, b) \<Rightarrow> ad_idempotent b | Inl _ \<Rightarrow> False" by code_simp
  then obtain s b where b: "append_envelope ?x demo_spender demo_spent = Inr (s, b)" by (auto split: sum.splits)
  have "case append_envelope ?x demo_spender ?e of Inr (s, b) \<Rightarrow> \<not> ad_idempotent b | Inl _ \<Rightarrow> False" by code_simp
  then have n: "\<not> ad_idempotent a" using a by simp
  have u: "ap_gate_use demo_spender = Some demo_use" "us_single_use demo_use" "us_request_hash demo_use = ''r''"
    "ap_id demo_spender = demo_id (demo_record 0 JNull)" by (simp_all add: demo_spender_def demo_use_def demo_plan_def)
  have "case append_envelope ?x demo_respender demo_spent of Inl e \<Rightarrow> e = err ''gate-authorization-replayed'' | Inr _ \<Rightarrow> False"
    by code_simp
  then have "append_envelope ?x demo_respender demo_spent = Inl (err ''gate-authorization-replayed'')" by (simp split: sum.splits)
  with approval_spent_once [OF reachable_empty demo_spender_planned a n u(1,2) reaches.here b u(1) refl] u(3,4)
  show ?thesis by simp
qed

text \<open>The transaction's reading of the chain and the database's own guard agree: a position the append admits, with a
  number the column can hold, is one the insert triggers of the table admit, and no row of the stream stands at it or
  after it; so the position check is the only one that decides, and a trigger never turns an admitted envelope into
  an outage.\<close>

lemma admitted_position_passes_guard:
  assumes "check_position st stream seq prev = Inr ()" and "unat seq \<le> 9223372036854775807"
  shows "extends_chain st stream (seq_column seq) prev
    \<and> (\<forall>r \<in> set (of_stream stream (envelopes st)). er_seq r < seq_column seq)"
proof (cases "stream_head st stream")
  case None
  then have e: "of_stream stream (envelopes st) = []" by (simp add: stream_head_def)
  show ?thesis
  proof (cases "seq = 0")
    case False
    with assms(1) None have b: "bridge_of st stream seq = prev" "prev \<noteq> None" "unat seq = 1"
      by (auto simp: check_position_def Let_def bridge_of_def split: if_splits)
    have "of_nat (unat seq) = seq" by simp
    with b(3) have "seq = 1" by simp
    with b(1,2) None have "stream_resume_at st stream (seq_column 0) = prev" by (simp add: bridge_of_def)
    with b(2) have "list_ex (\<lambda>r. rs_stream r = stream \<and> rs_resume_seq r = 0 \<and> prev = Some (rs_bridge_hash r)) (stream_resumes st)"
      by (auto simp: stream_resume_at_def seq_column_def list_ex_iff dest: find_SomeD)
    with e b(3) assms(2) show ?thesis by (simp add: extends_chain_def seq_column_def)
  qed (use assms None e in \<open>auto simp: check_position_def extends_chain_def seq_column_def split: if_splits\<close>)
next
  case (Some hd)
  obtain n h where hd: "hd = (n, h)" by (cases hd)
  from stream_head_SomeD [OF Some [unfolded hd]] obtain q where q: "q \<in> set (of_stream stream (envelopes st))"
    "er_seq q = n" "er_id q = h" "\<forall>r \<in> set (of_stream stream (envelopes st)). er_seq r \<le> n" by (auto simp: of_stream_def)
  have c: "seq_column seq = unat seq" using assms(2) by (simp add: seq_column_def)
  from assms(1) Some hd have s: "n < unat seq" "unat seq = Suc n \<Longrightarrow> prev = Some h"
    "unat seq > Suc n \<Longrightarrow> bridge_of st stream seq = prev \<and> prev \<noteq> None"
    by (auto simp: check_position_def Let_def split: if_splits)
  have "extends_chain st stream (unat seq) prev"
  proof (cases "unat seq = Suc n")
    case True
    with s(2) q show ?thesis by (auto simp: extends_chain_def list_ex_iff)
  next
    case False
    with s(1,3) have b: "bridge_of st stream seq = prev" "prev \<noteq> None" by auto
    have m: "seq_column (seq - 1) = unat seq - 1"
      using s(1) assms(2) unat_minus_one [of seq] by (cases "seq = 0") (auto simp: seq_column_def)
    from b have "stream_resume_at st stream (unat seq - 1) = prev" by (auto simp: bridge_of_def m Let_def split: if_splits)
    with b(2) have "list_ex (\<lambda>r. rs_stream r = stream \<and> rs_resume_seq r = unat seq - 1 \<and> prev = Some (rs_bridge_hash r)) (stream_resumes st)"
      by (auto simp: stream_resume_at_def list_ex_iff dest: find_SomeD)
    then show ?thesis by (simp add: extends_chain_def s(1) gr_implies_not0 [OF s(1)])
  qed
  with q(4) s(1) show ?thesis unfolding c by fastforce
qed

theorem admitted_position_passes_guard_witness:
  "extends_chain demo_store ''gw'' 1 (Some (demo_id (demo_record 0 JNull)))
   \<and> list_all (\<lambda>r. er_seq r < 1) (of_stream ''gw'' (envelopes demo_store))"
proof -
  have "check_position demo_store ''gw'' 1 (Some (demo_id (demo_record 0 JNull))) = Inr ()" unfolding demo_store_def by code_simp
  from admitted_position_passes_guard [OF this] show ?thesis by (simp add: seq_column_def list_all_iff)
qed

text \<open>Erasure is exact and leaves the chain alone: a payload is deleted exactly when no reference to it is still retained at
  the instant, the streams announced as affected are exactly those with such a payload, and every other table is as it
  was.\<close>

lemma decay_exact:
  "(case decay_payloads now st of
      (st', hashes) \<Rightarrow>
        payloads st' = filter (\<lambda>p. live_ref st now (py_hash p)) (payloads st)
        \<and> set hashes = {py_hash p | p. p \<in> set (payloads st) \<and> \<not> live_ref st now (py_hash p)}
        \<and> st' = st\<lparr>payloads := payloads st'\<rparr>
        \<and> set (streams_with_expiring_payloads st now) = {rf_stream r | r. r \<in> set (payload_refs st) \<and> rf_hash r \<in> set hashes})"
proof -
  have "fst (decay_payloads now st) = st\<lparr>payloads := payloads (fst (decay_payloads now st))\<rparr>"
    "payloads (fst (decay_payloads now st)) = filter (\<lambda>p. live_ref st now (py_hash p)) (payloads st)" by (simp_all add: decay_eq)
  moreover have h: "set (snd (decay_payloads now st)) = {py_hash p | p. p \<in> set (payloads st) \<and> \<not> live_ref st now (py_hash p)}"
    by (auto simp: decay_payloads_def Let_def)
  moreover have "set (streams_with_expiring_payloads st now)
      = {rf_stream r | r. r \<in> set (payload_refs st) \<and> rf_hash r \<in> set (snd (decay_payloads now st))}"
    unfolding h streams_with_expiring_payloads_def by (simp add: list_ex_iff) (force simp: image_iff)
  ultimately show ?thesis by (simp add: case_prod_beta)
qed

end
