(* ===== verification/Lookups.thy ===== *)
theory Lookups
  imports Tables Mandate Payload
begin

text \<open>
  The queries the intake asks of the store, \<open>stozher-kernel/src/store.rs\<close>: the root set at an instant, mandates and
  their ancestry, revocations, the policy in force, manifests, and the transitions of a durable object. Documents are
  stored as canonical text and read back by the parser; text that does not parse is an error of the query.
\<close>

section \<open>Roots\<close>

definition enrolled_at :: "string \<Rightarrow> root_row \<Rightarrow> bool" where
  "enrolled_at now r \<longleftrightarrow>
     rt_enrolled_at r \<le> now \<and> (case rt_retired_at r of None \<Rightarrow> True | Some gone \<Rightarrow> gone > now)"

definition roots_at :: "ext \<Rightarrow> store \<Rightarrow> string \<Rightarrow> (key_id \<times> string) list res" where
  "roots_at x st now =
     map_res (\<lambda>r. and_then (key_id_parse x (rt_key r)) (\<lambda>k. Inr (k, rt_subject r)))
       (sort_key rt_key (filter (enrolled_at now) (root_rows st)))"

section \<open>Mandates and revocations\<close>

definition mandate_row_of :: "store \<Rightarrow> string \<Rightarrow> mandate_row option" where
  "mandate_row_of st i = List.find (\<lambda>r. mr_id r = i) (mandate_rows st)"

definition stored_mandate :: "ext \<Rightarrow> store \<Rightarrow> string \<Rightarrow> json option res" where
  "stored_mandate x st i =
     (case mandate_row_of st i of
        None \<Rightarrow> Inr None
      | Some r \<Rightarrow> and_then (parse x (mr_document_json r)) (\<lambda>m. Inr (Some m)))"

text \<open>\<open>mandate_ancestry\<close>: the loop over \<open>0..=max_links.saturating_add(2)\<close>, which ends early at a row that is missing, a
  mandate already seen, or a row without a parent.\<close>

fun ancestry_from :: "ext \<Rightarrow> store \<Rightarrow> nat \<Rightarrow> jmap \<Rightarrow> string option \<Rightarrow> jmap res" where
  "ancestry_from x st 0 chain cursor = Inr chain"
| "ancestry_from x st (Suc n) chain cursor =
     (case cursor of
        None \<Rightarrow> Inr chain
      | Some i \<Rightarrow>
          if contains_key chain i then Inr chain
          else
            (case mandate_row_of st i of
               None \<Rightarrow> Inr chain
             | Some r \<Rightarrow>
                 and_then (parse x (mr_document_json r)) (\<lambda>m.
                   ancestry_from x st n (map_insert i m chain) (mr_parent r))))"

definition mandate_ancestry :: "ext \<Rightarrow> store \<Rightarrow> string \<Rightarrow> u32 \<Rightarrow> jmap res" where
  "mandate_ancestry x st leaf_ref max_links =
     ancestry_from x st (min (unat max_links + 2) 4294967295 + 1) [] (Some leaf_ref)"

definition revocations_targeting :: "ext \<Rightarrow> store \<Rightarrow> string list \<Rightarrow> json list res" where
  "revocations_targeting x st ids =
     and_then
       (map_res (\<lambda>i. map_res (\<lambda>r. parse x (rv_document_json r)) (filter (\<lambda>r. rv_revokes r = i) (revocation_rows st))) ids)
       (\<lambda>found. Inr (concat found))"

definition mandates_held_by :: "ext \<Rightarrow> store \<Rightarrow> string \<Rightarrow> string \<Rightarrow> json list res" where
  "mandates_held_by x st holder now =
     map_res (\<lambda>r. parse x (mr_document_json r))
       (filter (\<lambda>r. mr_grantee_subject r = holder \<and> mr_not_before r \<le> now \<and> mr_not_after r \<ge> now)
          (mandate_rows st))"

definition mandated_subject_of :: "store \<Rightarrow> string \<Rightarrow> string \<Rightarrow> string option" where
  "mandated_subject_of st key now =
     map_option mr_grantee_subject
       (List.find (\<lambda>r. mr_grantee_key r = key \<and> mr_not_before r \<le> now \<and> mr_not_after r \<ge> now)
          (mandate_rows st))"

section \<open>Policy and manifests\<close>

text \<open>\<open>serde_json\<close> values out of a row, \<open>row.map(parse).transpose()\<close>.\<close>

definition parse_optional :: "ext \<Rightarrow> string option \<Rightarrow> json option res" where
  "parse_optional x text =
     (case text of None \<Rightarrow> Inr None | Some s \<Rightarrow> and_then (parse x s) (\<lambda>v. Inr (Some v)))"

definition current_policy :: "ext \<Rightarrow> store \<Rightarrow> json option res" where
  "current_policy x st = parse_optional x (map_option pr_document_json (greatest pr_ordinal (policies st)))"

definition policy_version_exists :: "store \<Rightarrow> string \<Rightarrow> bool" where
  "policy_version_exists st v \<longleftrightarrow> list_ex (\<lambda>r. pr_version r = v) (policies st)"

definition stored_policy_version :: "ext \<Rightarrow> store \<Rightarrow> string \<Rightarrow> json option res" where
  "stored_policy_version x st v =
     parse_optional x (map_option pr_document_json (List.find (\<lambda>r. pr_version r = v) (policies st)))"

definition manifests_named :: "store \<Rightarrow> string \<Rightarrow> manifest_row list" where
  "manifests_named st name = filter (\<lambda>r. mf_name r = name) (manifests st)"

definition latest_manifest :: "ext \<Rightarrow> store \<Rightarrow> string \<Rightarrow> json option res" where
  "latest_manifest x st name =
     parse_optional x (map_option mf_document_json (greatest mf_ordinal (manifests_named st name)))"

definition manifest_component_key :: "store \<Rightarrow> string \<Rightarrow> string option" where
  "manifest_component_key st name =
     (case sort_key mf_ordinal (manifests_named st name) of [] \<Rightarrow> None | r # _ \<Rightarrow> Some (mf_component_key r))"

definition manifest_version_exists :: "store \<Rightarrow> string \<Rightarrow> string \<Rightarrow> bool" where
  "manifest_version_exists st name v \<longleftrightarrow> list_ex (\<lambda>r. mf_name r = name \<and> mf_version r = v) (manifests st)"

definition conformance_run_is_green :: "store \<Rightarrow> string \<Rightarrow> bool" where
  "conformance_run_is_green st h \<longleftrightarrow>
     list_ex (\<lambda>r. er_action r = Some ''kernel.conformance_run'' \<and> er_outcome r = Some ''applied''
       \<and> er_args_hash r = Some h \<and> er_target r = Some (''manifest:'' @ h)) (envelopes st)"

section \<open>Durable objects\<close>

definition durable_transitions :: "store \<Rightarrow> string \<Rightarrow> string \<Rightarrow> (string \<times> string) list" where
  "durable_transitions st object_type oid =
     List.map (\<lambda>r. ((case er_commitment_transition r of Some t \<Rightarrow> t | None \<Rightarrow> []), er_subject r))
       (sort_key er_stream (sort_key er_seq
          (filter (\<lambda>r. er_commitment_type r = Some object_type \<and> er_commitment_id r = Some oid) (envelopes st))))"

section \<open>Facts\<close>

lemma parse_optional_eq:
  "parse_optional x text = Inr v \<longleftrightarrow>
     (text = None \<and> v = None \<or> (\<exists>s d. text = Some s \<and> parse x s = Inr d \<and> v = Some d))"
  by (auto simp: parse_optional_def split: option.splits)

lemma ancestry_extends:
  assumes "ancestry_from x st n chain cursor = Inr chain'"
  shows "set (List.map fst chain) \<subseteq> set (List.map fst chain')"
  using assms
proof (induction x st n chain cursor rule: ancestry_from.induct)
  case (2 x st n chain cursor)
  show ?case
  proof (cases "ancestry_from x st (Suc n) chain cursor = Inr chain")
    case True
    with 2(2) show ?thesis by simp
  next
    case False
    with 2(2) obtain i r m where c: "cursor = Some i" "\<not> contains_key chain i" "mandate_row_of st i = Some r"
      "parse x (mr_document_json r) = Inr m" "ancestry_from x st n (map_insert i m chain) (mr_parent r) = Inr chain'"
      by (auto split: option.splits if_splits)
    from 2(1) [OF c] show ?thesis by (simp add: map_insert_keys)
  qed
qed simp

end
