(* ===== verification/Intake.thy ===== *)
theory Intake
  imports Lookups Append Upkeep Gatequeue Manifest Policy Budget Trigger Payload Gate Chain
begin

text \<open>
  The checks of the intake, \<open>stozher-kernel/src/ingest.rs\<close>, one definition per function. A check of the source that
  fills in the plan of the append returns the plan it leaves. The configuration holds what the deployment fixes.
\<close>

section \<open>Configuration\<close>

text \<open>\<open>Ingest\<close> without its store and clock: the kernel's signing key as its 32 octets, and \<open>IngestConfig\<close>.\<close>

record intake =
  in_secret :: string
  in_policy_key :: key_id
  in_max_future_skew :: int
  in_core_stream :: string

definition kernel_key_text :: "ext \<Rightarrow> intake \<Rightarrow> string" where
  "kernel_key_text x cfg = as_string (from_public_key x (public_key_of x (in_secret cfg)))"

definition effect_kinds :: "string list" where
  "effect_kinds = [''effect'', ''policy-change'', ''aggregate'']"

definition root_approved_actions :: "string list" where
  "root_approved_actions =
     [''kernel.publish_policy'', ''kernel.register_component'', ''kernel.enroll_root'', ''kernel.retire_root'',
      ''kernel.conformance_run'', ''kernel.resume_stream'']"

section \<open>Documents submitted beside an envelope\<close>

text \<open>The first payload filed under a hash, \<open>p["payload"]\<close> of it.\<close>

definition payload_under :: "json list \<Rightarrow> string \<Rightarrow> json option" where
  "payload_under sent h =
     map_option (\<lambda>p. index p ''payload'') (List.find (\<lambda>p. as_str (index p ''payload-hash'') = Some h) sent)"

definition execution_text :: "json \<Rightarrow> string \<Rightarrow> string" where
  "execution_text env k = str_or_empty (index (index env ''execution'') k)"

definition args_hash_of :: "json \<Rightarrow> string res" where
  "args_hash_of env = ok_or (as_str (index (index env ''execution'') ''args-hash'')) ''schema-missing-member''"

definition enrolled_subject :: "json \<Rightarrow> json list \<Rightarrow> key_id \<Rightarrow> string res" where
  "enrolled_subject env sent enrolled =
     and_then (args_hash_of env) (\<lambda>h.
     and_then (ok_or (payload_under sent h) ''root-enrollment-malformed'') (\<lambda>evidence.
       (let name = str_or_empty (index evidence ''subject'')
        in
          if \<not> starts_with name ''human:'' \<or> length name \<le> length ''human:'' then Inl (err ''root-enrollment-malformed'')
          else
            (case as_str (index evidence ''key'') of
               Some k \<Rightarrow> if k = as_string enrolled then Inr name else Inl (err ''root-enrollment-malformed'')
             | None \<Rightarrow> Inl (err ''root-enrollment-malformed'')))))"

datatype root_change = Enrol key_id string | Retire key_id

definition root_change_of :: "ext \<Rightarrow> json \<Rightarrow> json list \<Rightarrow> root_change res" where
  "root_change_of x env sent =
     and_then (ok_or (strip_prefix (execution_text env ''target'') ''root:'') ''root-enrollment-malformed'') (\<lambda>named_key.
     and_then (map_err (\<lambda>_. err ''root-enrollment-malformed'') (key_id_parse x named_key)) (\<lambda>k.
       if as_str (index (index env ''execution'') ''action'') = Some ''kernel.enroll_root''
       then and_then (enrolled_subject env sent k) (\<lambda>name. Inr (Enrol k name))
       else Inr (Retire k)))"

definition resume_members :: "string list" where
  "resume_members = [''stream'', ''resume-seq'', ''refused-object-hash'', ''reason-code'']"

definition stream_resume_of :: "json \<Rightarrow> json list \<Rightarrow> stream_resume res" where
  "stream_resume_of env sent =
     and_then (ok_or (strip_prefix (execution_text env ''target'') ''stream:'') ''stream-resume-malformed'') (\<lambda>target.
     and_then (args_hash_of env) (\<lambda>h.
     and_then (ok_or (payload_under sent h) ''stream-resume-unbound'') (\<lambda>doc.
     and_then (ok_or (as_object doc) ''stream-resume-malformed'') (\<lambda>m.
       if \<not> list_all (\<lambda>kv. fst kv \<in> set resume_members) m then Inl (err ''stream-resume-malformed'')
       else
         and_then (ok_or (get_str doc ''stream'') ''stream-resume-malformed'') (\<lambda>s.
           if s \<noteq> target then Inl (err ''stream-resume-malformed'')
           else
             and_then (ok_or (get_u64 doc ''resume-seq'') ''stream-resume-malformed'') (\<lambda>n.
             and_then (ok_or (get_str doc ''refused-object-hash'') ''stream-resume-malformed'') (\<lambda>bridge.
               if \<not> (length bridge = 64 \<and> list_all (\<lambda>c. is_hex_digit c \<and> \<not> is_upper c) bridge)
               then Inl (err ''stream-resume-malformed'')
               else
                 and_then (ok_or (get_str doc ''reason-code'') ''stream-resume-malformed'') (\<lambda>reason.
                   if reason = [] then Inl (err ''stream-resume-malformed'')
                   else Inr \<lparr>re_stream = s, re_resume_seq = n, re_bridge_hash = bridge, re_reason_code = reason\<rparr>))))))))"

definition retain_until_for :: "json \<Rightarrow> string \<Rightarrow> string option" where
  "retain_until_for env h =
     (case get env ''evidence'' of
        None \<Rightarrow> None
      | Some evidence \<Rightarrow>
          if as_str (index evidence ''payload-hash'') = Some h then as_str (index evidence ''retain-until'')
          else
            (case get env ''signal'' of
               None \<Rightarrow> None
             | Some signal \<Rightarrow>
                 if as_str (index signal ''payload-hash'') = Some h then as_str (index signal ''retain-until'') else None))"

definition validate_aggregate_window :: "json \<Rightarrow> json \<Rightarrow> unit res" where
  "validate_aggregate_window env doc =
     and_then (ok_or (as_str (index (index env ''window'') ''from'')) ''schema-missing-member'') (\<lambda>from_instant.
     and_then (ok_or (as_str (index (index env ''window'') ''to'')) ''schema-missing-member'') (\<lambda>to_instant.
       if to_instant < from_instant then Inl (err ''aggregate-window-inverted'')
       else
         and_then (shift from_instant (aggregate_max_window_seconds doc)) (\<lambda>ceiling.
           if to_instant > ceiling then Inl (err ''aggregate-window-too-long'') else Inr ())))"

section \<open>Requests and classes\<close>

definition effect_requests :: "json \<Rightarrow> (string \<times> string) list res" where
  "effect_requests env =
     (if as_str (index env ''kind'') = Some ''aggregate'' then
        and_then (ok_or (as_object (index (index env ''counts'') ''by-action'')) ''schema-missing-member'') (\<lambda>m.
          if m = [] then Inl (err ''aggregate-count-mismatch'') else Inr (List.map (\<lambda>kv. (fst kv, ''-'')) m))
      else
        and_then (ok_or (as_str (index (index env ''execution'') ''action'')) ''schema-missing-member'') (\<lambda>a.
        and_then (ok_or (as_str (index (index env ''execution'') ''target'')) ''schema-missing-member'') (\<lambda>t.
          Inr [(a, t)])))"

text \<open>The strongest class over the window: the loop of step 1.\<close>

definition stronger :: "json \<Rightarrow> string \<Rightarrow> json option \<Rightarrow> string \<Rightarrow> string \<times> string \<Rightarrow> string" where
  "stronger doc who manifest_doc so_far request_pair =
     (let class = classify doc
            \<lparr>subject = who, action_name = fst request_pair, resource_name = snd request_pair,
             manifest_class = Option.bind manifest_doc (\<lambda>m. proposed_class m (fst request_pair))\<rparr>
      in if so_far = [] \<or> class_weight class > class_weight so_far then class else so_far)"

definition effective_class :: "json \<Rightarrow> string \<Rightarrow> json option \<Rightarrow> (string \<times> string) list \<Rightarrow> string" where
  "effective_class doc who manifest_doc requests = foldl (stronger doc who manifest_doc) [] requests"

section \<open>Mandates\<close>

definition params_of ::
  "ext \<Rightarrow> store \<Rightarrow> key_id list \<Rightarrow> key_id \<Rightarrow> string \<Rightarrow> u32 \<Rightarrow> jmap \<Rightarrow> verify_params res" where
  "params_of x st rts signer now max_depth mandates =
     and_then (revocations_targeting x st (List.map fst mandates)) (\<lambda>found.
       Inr \<lparr>roots = rts, revocations = found, at_instant = now, subject_key = signer, max_delegation_depth = max_depth\<rparr>)"

definition walk_mandate_for_resource ::
  "ext \<Rightarrow> store \<Rightarrow> json \<Rightarrow> key_id list \<Rightarrow> key_id \<Rightarrow> string \<Rightarrow> json \<Rightarrow> string \<Rightarrow> string res" where
  "walk_mandate_for_resource x st env rts signer now doc target =
     and_then (ok_or (as_str (index env ''mandate-ref'')) ''schema-missing-member'') (\<lambda>leaf.
     and_then (mandate_ancestry x st leaf (policy_max_depth doc)) (\<lambda>mandates.
     and_then (params_of x st rts signer now (policy_max_depth doc) mandates) (\<lambda>params.
     and_then (verify_mandate_chain_for_resource x mandates leaf target params) (\<lambda>ok.
       Inr (human_root ok)))))"

definition walk_mandate_with_depth ::
  "ext \<Rightarrow> store \<Rightarrow> json \<Rightarrow> key_id list \<Rightarrow> key_id \<Rightarrow> string \<Rightarrow> u32 \<Rightarrow> mandate_request \<Rightarrow> string res" where
  "walk_mandate_with_depth x st env rts signer now max_depth request =
     and_then (ok_or (as_str (index env ''mandate-ref'')) ''schema-missing-member'') (\<lambda>leaf.
     and_then (mandate_ancestry x st leaf max_depth) (\<lambda>mandates.
     and_then (params_of x st rts signer now max_depth mandates) (\<lambda>params.
     and_then (verify_mandate_chain x mandates leaf request params) (\<lambda>ok.
       Inr (human_root ok)))))"

text \<open>Step 3 for an effect: every request of the window against the one chain.\<close>

fun walk_requests ::
  "ext \<Rightarrow> jmap \<Rightarrow> string \<Rightarrow> verify_params \<Rightarrow> string \<Rightarrow> string \<Rightarrow> string option \<Rightarrow> (string \<times> string) list \<Rightarrow> string option res" where
  "walk_requests x mandates leaf params owner class found [] = Inr found"
| "walk_requests x mandates leaf params owner class found ((a, t) # rest) =
     and_then (verify_mandate_chain x mandates leaf \<lparr>component = owner, action = a, classification = class, resource = t\<rparr> params)
       (\<lambda>ok. walk_requests x mandates leaf params owner class (Some (human_root ok)) rest)"

definition walk_effect_mandate ::
  "ext \<Rightarrow> store \<Rightarrow> json \<Rightarrow> key_id list \<Rightarrow> key_id \<Rightarrow> json \<Rightarrow> (string \<times> string) list \<Rightarrow> string option res" where
  "walk_effect_mandate x st env rts signer doc requests =
     and_then (ok_or (as_str (index env ''mandate-ref'')) ''schema-missing-member'') (\<lambda>leaf.
     and_then (mandate_ancestry x st leaf (policy_max_depth doc)) (\<lambda>mandates.
     and_then (params_of x st rts signer (str_or_empty (index env ''emitted-at'')) (policy_max_depth doc) mandates) (\<lambda>params.
       walk_requests x mandates leaf params (str_or_empty (index (index env ''identity'') ''component''))
         (if str_or_empty (index env ''kind'') = ''aggregate'' then ''read'' else str_or_empty (index env ''classification''))
         None requests)))"

section \<open>Budget and triggers\<close>

text \<open>\<open>get_or_insert\<close>: the first violation stands.\<close>

definition flag_violation :: "string \<Rightarrow> append_plan \<Rightarrow> append_plan" where
  "flag_violation v plan =
     (case ap_policy_violation plan of None \<Rightarrow> plan\<lparr>ap_policy_violation := Some v\<rparr> | Some _ \<Rightarrow> plan)"

definition over_cap :: "ext \<Rightarrow> store \<Rightarrow> amounts \<Rightarrow> string \<Rightarrow> bool res" where
  "over_cap x st adding i =
     and_then (stored_mandate x st i) (\<lambda>found.
       Inr (case Option.bind found (\<lambda>m. get m ''budget'') of
              None \<Rightarrow> False
            | Some cap \<Rightarrow> would_exceed cap (spend_of st i) adding \<noteq> []))"

fun any_over_cap :: "ext \<Rightarrow> store \<Rightarrow> amounts \<Rightarrow> string list \<Rightarrow> bool res" where
  "any_over_cap x st adding [] = Inr False"
| "any_over_cap x st adding (i # line) =
     and_then (over_cap x st adding i) (\<lambda>o1. and_then (any_over_cap x st adding line) (\<lambda>o2. Inr (o1 \<or> o2)))"

definition accrue_budget :: "ext \<Rightarrow> store \<Rightarrow> json \<Rightarrow> append_plan \<Rightarrow> append_plan res" where
  "accrue_budget x st env plan =
     (if accrual_entries env = [] then Inr plan
      else
        (case as_str (index env ''mandate-ref'') of
           None \<Rightarrow> Inr plan
         | Some leaf \<Rightarrow>
             and_then (any_over_cap x st (accrual_of env) (mandate_line st leaf)) (\<lambda>over.
               Inr ((if over then flag_violation ''budget-exceeded-applied'' plan else plan)
                      \<lparr>ap_spend := Some \<lparr>sp_mandates = mandate_line st leaf, sp_amounts = accrual_entries env\<rparr>\<rparr>))))"

definition resolve_signal :: "ext \<Rightarrow> store \<Rightarrow> json \<Rightarrow> json option res" where
  "resolve_signal x st trigger =
     (case as_str (index trigger ''signal-ref'') of
        None \<Rightarrow> Inr None
      | Some i \<Rightarrow>
          (case envelope_by_id st i of
             None \<Rightarrow> Inr None
           | Some row \<Rightarrow> and_then (parse x (er_canonical_json row)) (\<lambda>e. Inr (Some e))))"

definition resolve_standing :: "ext \<Rightarrow> store \<Rightarrow> json \<Rightarrow> json option res" where
  "resolve_standing x st trigger =
     (case as_str (index trigger ''standing-mandate-ref'') of
        None \<Rightarrow> Inr None
      | Some i \<Rightarrow> stored_mandate x st i)"

definition validate_trigger :: "ext \<Rightarrow> store \<Rightarrow> json \<Rightarrow> unit res" where
  "validate_trigger x st env =
     (case get env ''trigger'' of
        None \<Rightarrow> Inr ()
      | Some trigger \<Rightarrow>
          and_then (resolve_signal x st trigger) (\<lambda>signal.
          and_then (resolve_standing x st trigger) (\<lambda>mandate.
            check_trigger env mandate signal)))"


section \<open>Changes to what governs\<close>

definition with_projections :: "(projections \<Rightarrow> projections) \<Rightarrow> append_plan \<Rightarrow> append_plan" where
  "with_projections f plan = plan\<lparr>ap_projections := f (ap_projections plan)\<rparr>"

definition validate_policy_change :: "ext \<Rightarrow> intake \<Rightarrow> store \<Rightarrow> json \<Rightarrow> json list \<Rightarrow> append_plan \<Rightarrow> append_plan res" where
  "validate_policy_change x cfg st env sent plan =
     and_then (args_hash_of env) (\<lambda>h.
     and_then (ok_or (payload_under sent h) ''policy-change-document-unbound'') (\<lambda>doc.
     and_then (object_hash x doc) (\<lambda>computed.
       if computed \<noteq> h then Inl (err ''policy-change-document-unbound'')
       else
         and_then (parse_policy x doc (in_policy_key cfg)) (\<lambda>incoming.
           if as_str (index (index env ''execution'') ''target'') \<noteq> Some (''policy:'' @ policy_version incoming)
           then Inl (err ''policy-change-target-mismatch'')
           else if policy_version_exists st (policy_version incoming) then Inl (err ''policy-version-reused'')
           else
             Inr (with_projections (\<lambda>p. p\<lparr>pj_policy := Some (policy_version incoming, doc, document_hash incoming)\<rparr>) plan)))))"

definition validate_registration :: "ext \<Rightarrow> store \<Rightarrow> json \<Rightarrow> json list \<Rightarrow> append_plan \<Rightarrow> append_plan res" where
  "validate_registration x st env sent plan =
     and_then (args_hash_of env) (\<lambda>h.
     and_then (ok_or (payload_under sent h) ''manifest-malformed'') (\<lambda>doc.
     and_then (parse_manifest x doc) (\<lambda>m.
       if manifest_hash m \<noteq> h then Inl (err ''manifest-malformed'')
       else if (case manifest_component_key st (manifest_name m) of
                  Some bound_key \<Rightarrow> bound_key \<noteq> as_string (component_key m)
                | None \<Rightarrow> False)
       then Inl (err ''manifest-name-key-conflict'')
       else if manifest_version_exists st (manifest_name m) (manifest_version m) then Inl (err ''manifest-version-retained'')
       else if \<not> conformance_run_is_green st (manifest_hash m) then Inl (err ''manifest-conformance-not-green'')
       else
         Inr (with_projections (\<lambda>p. p\<lparr>pj_manifest :=
           Some (manifest_name m, manifest_version m, manifest_hash m, as_string (component_key m), doc)\<rparr>) plan))))"

definition validate_root_change ::
  "ext \<Rightarrow> json \<Rightarrow> json list \<Rightarrow> key_id list \<Rightarrow> key_id \<Rightarrow> append_plan \<Rightarrow> append_plan res" where
  "validate_root_change x env sent rts signer plan =
     (if signer \<notin> set rts then Inl (err ''mandate-root-not-enrolled'')
      else
        and_then (root_change_of x env sent) (\<lambda>change.
          Inr (case change of
                 Enrol k name \<Rightarrow> with_projections (\<lambda>p. p\<lparr>pj_enroll_root := Some (as_string k, name)\<rparr>) plan
               | Retire k \<Rightarrow> with_projections (\<lambda>p. p\<lparr>pj_retire_root := Some (as_string k)\<rparr>) plan)))"

text \<open>What the action of an effect writes besides its record, step 5 of the source's \<open>match\<close>.\<close>

definition validate_action_effect ::
  "ext \<Rightarrow> store \<Rightarrow> json \<Rightarrow> json list \<Rightarrow> key_id list \<Rightarrow> key_id \<Rightarrow> append_plan \<Rightarrow> append_plan res" where
  "validate_action_effect x st env sent rts signer plan =
     (let act = as_str (index (index env ''execution'') ''action'')
      in
        if act = Some ''kernel.register_component'' then validate_registration x st env sent plan
        else if act = Some ''kernel.enroll_root'' \<or> act = Some ''kernel.retire_root''
        then validate_root_change x env sent rts signer plan
        else if act = Some ''kernel.resume_stream''
        then and_then (stream_resume_of env sent) (\<lambda>r. Inr (with_projections (\<lambda>p. p\<lparr>pj_stream_resume := Some r\<rparr>) plan))
        else Inr plan)"

definition privileged :: "json \<Rightarrow> bool" where
  "privileged env \<longleftrightarrow>
     execution_text env ''action'' \<in> set root_approved_actions \<or> str_or_empty (index env ''kind'') = ''policy-change''"

definition withhold_unapplied :: "bool \<Rightarrow> json \<Rightarrow> append_plan \<Rightarrow> append_plan" where
  "withhold_unapplied applied env plan =
     (if \<not> applied \<and> privileged env then
        with_projections (\<lambda>p. p\<lparr>pj_policy := None, pj_manifest := None, pj_enroll_root := None, pj_retire_root := None,
          pj_stream_resume := None\<rparr>) plan
      else plan)"

section \<open>Durable objects\<close>

text \<open>The fold of the past transitions, each checked as signed by an agent.\<close>

fun fold_transitions :: "json \<Rightarrow> string \<Rightarrow> string option \<Rightarrow> string list \<Rightarrow> string option res" where
  "fold_transitions doc object_type folded [] = Inr folded"
| "fold_transitions doc object_type folded (past # rest) =
     and_then (check_transition doc object_type past ''agent'' folded) (\<lambda>state.
       fold_transitions doc object_type (Some state) rest)"

definition signer_role :: "string \<Rightarrow> string" where
  "signer_role who = (if starts_with who ''human:'' then ''human'' else ''agent'')"

definition validate_commitment :: "store \<Rightarrow> json \<Rightarrow> json option \<Rightarrow> string \<Rightarrow> unit res" where
  "validate_commitment st env manifest_doc who =
     (case get env ''commitment-ref'' of
        None \<Rightarrow> Inr ()
      | Some commitment \<Rightarrow>
          and_then (ok_or (as_str (index commitment ''object-type'')) ''schema-missing-member'') (\<lambda>object_type.
          and_then (ok_or (as_str (index commitment ''object-id'')) ''schema-missing-member'') (\<lambda>oid.
          and_then (ok_or (as_str (index commitment ''transition'')) ''schema-missing-member'') (\<lambda>transition.
          and_then (ok_or manifest_doc ''durable-transition-not-permitted'') (\<lambda>doc.
          and_then (fold_transitions doc object_type None (List.map fst (durable_transitions st object_type oid))) (\<lambda>folded.
          and_then (check_transition doc object_type transition (signer_role who) folded) (\<lambda>_.
            Inr ())))))))"

section \<open>Grants and revocations\<close>

definition grant_parent :: "ext \<Rightarrow> store \<Rightarrow> json \<Rightarrow> json option res" where
  "grant_parent x st mandate =
     (case (as_str (index mandate ''mandate-kind''), as_str (index mandate ''parent'')) of
        (Some k, Some parent_ref) \<Rightarrow>
          if k = ''delegated''
          then
            and_then (stored_mandate x st parent_ref) (\<lambda>found.
            and_then (ok_or found ''mandate-unresolved'') (\<lambda>m. Inr (Some m)))
          else Inr None
      | _ \<Rightarrow> Inr None)"

definition validate_mandate_grant :: "ext \<Rightarrow> store \<Rightarrow> json \<Rightarrow> json \<Rightarrow> key_id list \<Rightarrow> append_plan \<Rightarrow> append_plan res" where
  "validate_mandate_grant x st env doc rts plan =
     and_then (ok_or (get env ''mandate'') ''schema-missing-member'') (\<lambda>mandate.
     and_then (ok_or (as_str (index mandate ''issued-at'')) ''schema-missing-member'') (\<lambda>issued.
     and_then (grant_parent x st mandate) (\<lambda>parent.
     and_then (standing_lifetime_ceiling doc issued) (\<lambda>ceiling.
     and_then (verify_grant x mandate parent \<lparr>grant_roots = rts, max_standing_not_after = Some ceiling\<rparr>) (\<lambda>_.
     and_then (object_id x mandate) (\<lambda>i.
       Inr (with_projections (\<lambda>p. p\<lparr>pj_mandate := Some (i, mandate)\<rparr>) plan)))))))"

definition validate_revocation :: "ext \<Rightarrow> store \<Rightarrow> json \<Rightarrow> key_id list \<Rightarrow> append_plan \<Rightarrow> append_plan res" where
  "validate_revocation x st env rts plan =
     and_then (ok_or (get env ''revocation'') ''schema-missing-member'') (\<lambda>object.
       if list_ex (\<lambda>k. get env k \<noteq> get object k) [''revokes'', ''revoked-at'', ''reason'']
       then Inl (err ''revocation-object-mismatch'')
       else
         and_then (ok_or (as_str (index env ''revokes'')) ''schema-missing-member'') (\<lambda>target.
           if \<not> is_digest_hex target then Inl (err ''encoding-not-lowercase-hex'')
           else
             and_then (ok_or (as_str (index env ''revoked-at'')) ''schema-missing-member'') (\<lambda>gone.
             and_then (parse_timestamp gone) (\<lambda>_.
             and_then (mandate_ancestry x st target 16) (\<lambda>mandates.
             and_then (verify_revocation x mandates object rts) (\<lambda>_.
             and_then (object_id x env) (\<lambda>i.
               Inr (with_projections (\<lambda>p. p\<lparr>pj_revocation := Some (i, object)\<rparr>) plan))))))))"


section \<open>Approvers\<close>

definition root_approvers :: "ext \<Rightarrow> store \<Rightarrow> string \<Rightarrow> approver list res" where
  "root_approvers x st now =
     and_then (roots_at x st now) (\<lambda>found. Inr (List.map (\<lambda>ks. named (fst ks) (snd ks)) found))"

text \<open>The pattern test \<open>approver_keys\<close> writes out for itself.\<close>

definition covers_action :: "json \<Rightarrow> string \<Rightarrow> bool" where
  "covers_action mandate act \<longleftrightarrow>
     act = [] \<or>
     (case as_array (index (index mandate ''scope'') ''actions'') of
        None \<Rightarrow> False
      | Some pats \<Rightarrow>
          list_ex (\<lambda>pat.
            pat = ''*'' \<or> pat = act \<or>
            (case strip_suffix pat ''.*'' of
               None \<Rightarrow> False
             | Some prefix \<Rightarrow> length act > length prefix \<and> starts_with act prefix \<and> act ! length prefix = CHR ''.''))
            (List.map_filter as_str pats))"

definition add_holder :: "ext \<Rightarrow> string \<Rightarrow> string \<Rightarrow> approver list \<Rightarrow> json \<Rightarrow> approver list" where
  "add_holder x holder act found mandate =
     (if \<not> covers_action mandate act then found
      else
        (case as_str (index (index mandate ''grantee'') ''key'') of
           None \<Rightarrow> found
         | Some text \<Rightarrow>
             (case key_id_parse x text of
                Inl _ \<Rightarrow> found
              | Inr k \<Rightarrow> if list_ex (\<lambda>a. approver_key a = k) found then found else found @ [named k holder])))"

fun add_holders :: "ext \<Rightarrow> store \<Rightarrow> string \<Rightarrow> string \<Rightarrow> approver list \<Rightarrow> string list \<Rightarrow> approver list res" where
  "add_holders x st now act found [] = Inr found"
| "add_holders x st now act found (holder # rest) =
     (if \<not> starts_with holder ''human:'' then add_holders x st now act found rest
      else
        and_then (mandates_held_by x st holder now) (\<lambda>held_now.
          add_holders x st now act (foldl (add_holder x holder act) found held_now) rest))"

definition approver_keys :: "ext \<Rightarrow> store \<Rightarrow> string list \<Rightarrow> string \<Rightarrow> string \<Rightarrow> approver list res" where
  "approver_keys x st named_subjects now act =
     and_then (roots_at x st now) (\<lambda>enrolled.
       add_holders x st now act
         (List.map (\<lambda>ks. named (fst ks) (snd ks)) (filter (\<lambda>ks. snd ks \<in> set named_subjects) enrolled)) named_subjects)"

definition approvers_for :: "ext \<Rightarrow> intake \<Rightarrow> store \<Rightarrow> string \<Rightarrow> string \<Rightarrow> string \<Rightarrow> approver list res" where
  "approvers_for x cfg st class act now =
     and_then (root_approvers x st now) (\<lambda>enrolled.
       if act \<in> set root_approved_actions then Inr enrolled
       else
         and_then (current_policy x st) (\<lambda>doc.
           case doc of
             None \<Rightarrow> Inr enrolled
           | Some d \<Rightarrow>
               and_then (parse_policy x d (in_policy_key cfg)) (\<lambda>p.
                 case decision_for (document p) class act of
                   Gate named_subjects \<Rightarrow> approver_keys x st named_subjects now act
                 | _ \<Rightarrow> Inr enrolled)))"

definition subject_of :: "ext \<Rightarrow> store \<Rightarrow> key_id \<Rightarrow> string \<Rightarrow> string option res" where
  "subject_of x st k now =
     and_then (roots_at x st now) (\<lambda>enrolled.
       Inr (case List.find (\<lambda>ks. fst ks = k) enrolled of
              Some ks \<Rightarrow> Some (snd ks)
            | None \<Rightarrow> mandated_subject_of st (as_string k) now))"

section \<open>Decisions recorded on the chain\<close>

definition decision_verdict :: "json \<Rightarrow> unit res" where
  "decision_verdict decision =
     (case as_str (index decision ''decision'') of
        None \<Rightarrow> Inl (err ''gate-decision-unknown'')
      | Some verdict \<Rightarrow>
          if verdict = ''approve'' then Inr ()
          else if verdict = ''deny'' then
            (if str_or_empty (index decision ''reason'') = [] then Inl (err ''gate-denial-without-reason'') else Inr ())
          else Inl (err ''gate-decision-unknown''))"

definition decision_row_of :: "gate_decision_ok \<Rightarrow> gate_decision_row" where
  "decision_row_of d =
     \<lparr>dr_request_hash = gd_request_hash d, dr_verdict = gd_verdict d, dr_reason = gd_reason d,
      dr_decided_by = as_string (gd_decided_by d), dr_decided_at = gd_decided_at d, dr_decision = gd_decision d\<rparr>"

text \<open>The binding to a request this kernel queued; one it never saw adds nothing.\<close>

definition bind_queued :: "ext \<Rightarrow> store \<Rightarrow> string \<Rightarrow> string \<Rightarrow> json \<Rightarrow> append_plan \<Rightarrow> append_plan res" where
  "bind_queued x st decision_of now decision plan =
     and_then (gate_request_of x st decision_of) (\<lambda>queued.
       case queued of
         None \<Rightarrow> Inr plan
       | Some (request, _) \<Rightarrow>
           (let requested = (case as_str (index request ''requested-at'') of Some t \<Rightarrow> t | None \<Rightarrow> now)
            in
              and_then (validate_request x request requested) (\<lambda>rq.
              and_then (check_decision x decision rq) (\<lambda>d.
              and_then (subject_of x st (gd_decided_by d) now) (\<lambda>who.
                if who = Some (gr_subject rq) then Inl (err ''gate-self-approval'')
                else Inr (with_projections (\<lambda>p. p\<lparr>pj_gate_decision := Some (decision_row_of d)\<rparr>) plan))))))"

definition validate_gate_decision ::
  "ext \<Rightarrow> store \<Rightarrow> json \<Rightarrow> key_id list \<Rightarrow> json \<Rightarrow> string \<Rightarrow> append_plan \<Rightarrow> append_plan res" where
  "validate_gate_decision x st env rts doc now plan =
     and_then (ok_or (as_str (index env ''decision-of'')) ''schema-missing-member'') (\<lambda>decision_of.
       if \<not> is_digest_hex decision_of then Inl (err ''encoding-not-lowercase-hex'')
       else
         (case get env ''decision'' of
            None \<Rightarrow> Inr plan
          | Some decision \<Rightarrow>
              and_then (map_err (\<lambda>_. err ''gate-decision-sig-invalid'') (verify_signed_object x decision)) (\<lambda>signer.
                if as_str (index decision ''request-hash'') \<noteq> Some decision_of
                then Inl (err ''gate-authorization-request-hash-mismatch'')
                else
                  and_then (decision_verdict decision) (\<lambda>_.
                  and_then
                    (case decision_for doc ''consequential'' ''*'' of
                       Gate named_subjects \<Rightarrow> approver_keys x st named_subjects now []
                     | _ \<Rightarrow> root_approvers x st now) (\<lambda>permitted.
                    if \<not> list_ex (\<lambda>a. approver_key a = signer) permitted \<and> signer \<notin> set rts
                    then Inl (err ''gate-approver-not-permitted'')
                    else bind_queued x st decision_of now decision plan)))))"

section \<open>Checkpoints\<close>

definition checkpoint_members :: "string list" where
  "checkpoint_members = [''stream'', ''from-seq'', ''to-seq'', ''head-hash'', ''count'', ''observed-at'']"

text \<open>The identifier of the envelope stored at the end of the attested range.\<close>

definition attested_head :: "ext \<Rightarrow> store \<Rightarrow> string \<Rightarrow> u64 \<Rightarrow> string res" where
  "attested_head x st s to_seq =
     and_then (range_of x st s to_seq to_seq) (\<lambda>found.
       case found of
         [] \<Rightarrow> Inl (err ''checkpoint-head-mismatch'')
       | e # _ \<Rightarrow> object_id x e)"

definition validate_checkpoint :: "ext \<Rightarrow> intake \<Rightarrow> store \<Rightarrow> json \<Rightarrow> append_plan \<Rightarrow> append_plan res" where
  "validate_checkpoint x cfg st env plan =
     and_then (ok_or (Option.bind (get env ''checkpoint'') as_object) ''schema-missing-member'') (\<lambda>m.
     and_then (only_members checkpoint_members m) (\<lambda>_.
       if as_str (index (index env ''sig'') ''key'') \<noteq> Some (kernel_key_text x cfg) then Inl (err ''checkpoint-signer-not-kernel'')
       else
         (let body = JObject m
          in
            and_then (ok_or (get_str body ''stream'') ''schema-missing-member'') (\<lambda>target.
            and_then (ok_or (get_u64 body ''from-seq'') ''schema-missing-member'') (\<lambda>from_seq.
            and_then (ok_or (get_u64 body ''to-seq'') ''schema-missing-member'') (\<lambda>to_seq.
            and_then (ok_or (get_u64 body ''count'') ''schema-missing-member'') (\<lambda>counted.
            and_then (ok_or (get_str body ''head-hash'') ''schema-missing-member'') (\<lambda>head.
            and_then (ok_or (get_str body ''observed-at'') ''schema-missing-member'') (\<lambda>observed.
            and_then (parse_timestamp observed) (\<lambda>_.
            and_then (attested_count from_seq to_seq) (\<lambda>covering.
              if counted \<noteq> covering then Inl (err ''checkpoint-count-mismatch'')
              else if stream_kind st target = None then Inl (err ''checkpoint-stream-unknown'')
              else
                and_then (attested_head x st target to_seq) (\<lambda>stored_head.
                  if stored_head \<noteq> head then Inl (err ''checkpoint-head-mismatch'')
                  else
                    Inr (with_projections (\<lambda>p. p\<lparr>pj_checkpoint :=
                      Some \<lparr>cc_stream = target, cc_from_seq = from_seq, cc_to_seq = to_seq, cc_head_hash = head,
                            cc_observed_at = observed\<rparr>\<rparr>) plan)))))))))))))"

section \<open>Payloads\<close>

definition payload_bytes :: "ext \<Rightarrow> string \<Rightarrow> json \<Rightarrow> string res" where
  "payload_bytes x media_type body =
     (if media_type = json_media_type then canonicalize x body
      else ok_or (hex_decode x (str_or_empty body)) ''encoding-not-lowercase-hex'')"

definition plan_payload :: "ext \<Rightarrow> json \<Rightarrow> json \<Rightarrow> payload_plan res" where
  "plan_payload x env p =
     and_then (ok_or (as_str (index p ''payload-hash'')) ''schema-missing-member'') (\<lambda>h.
     and_then (ok_or (as_str (index p ''media-type'')) ''schema-missing-member'') (\<lambda>media_type.
     and_then (payload_bytes x media_type (index p ''payload'')) (\<lambda>octets.
       Inr \<lparr>pp_hash = h, pp_media_type = media_type, pp_bytes = octets,
            pp_retain_until = (case retain_until_for env h of
                                 Some t \<Rightarrow> t | None \<Rightarrow> str_or_empty (index env ''emitted-at''))\<rparr>)))"

text \<open>The retention clamp: \<open>False\<close> when the policy stores nothing of this class.\<close>

definition clamp_retention :: "json \<Rightarrow> json \<Rightarrow> string option \<Rightarrow> bool res" where
  "clamp_retention env doc class =
     (case (class, get env ''evidence'') of
        (Some c, Some evidence) \<Rightarrow>
          if stores_payloads doc c then
            and_then (ok_or (as_str (index evidence ''retain-until'')) ''schema-missing-member'') (\<lambda>claimed.
            and_then (retention_ceiling doc c (str_or_empty (index env ''emitted-at''))) (\<lambda>ceiling.
              if claimed > ceiling then Inl (err ''evidence-retention-too-long'') else Inr True))
          else Inr False
      | _ \<Rightarrow> Inr True)"

definition collect_payloads :: "ext \<Rightarrow> json \<Rightarrow> json list \<Rightarrow> json \<Rightarrow> string option \<Rightarrow> append_plan \<Rightarrow> append_plan res" where
  "collect_payloads x env sent doc class plan =
     and_then (clamp_retention env doc class) (\<lambda>kept.
       if \<not> kept then Inr plan
       else
         and_then (map_res (plan_payload x env) sent) (\<lambda>rows.
           Inr (plan\<lparr>ap_payloads := ap_payloads plan @ rows\<rparr>)))"

end
