(* ===== verification/Ingest.thy ===== *)
theory Ingest
  imports Intake Logs
begin

text \<open>
  The intake pipeline, \<open>stozher-kernel/src/ingest.rs\<close>: the gate step, the kinds, the ceremony before a policy exists, and
  \<open>submit\<close> with its three answers. \<open>validate_submission\<close> reads one store; \<open>submit\<close> appends what it planned, and another
  writer may have moved the store in between.
\<close>

section \<open>The gate step of an effect\<close>

definition has_code :: "string \<Rightarrow> error \<Rightarrow> bool" where
  "has_code c e \<longleftrightarrow> (case e of Err d _ \<Rightarrow> d = c | Panic \<Rightarrow> False)"

definition outcome_of :: "json \<Rightarrow> string" where
  "outcome_of env = (case as_str (index (index env ''execution'') ''outcome'') of Some o1 \<Rightarrow> o1 | None \<Rightarrow> ''applied'')"

definition applied :: "json \<Rightarrow> bool" where
  "applied env \<longleftrightarrow> outcome_of env \<in> {''applied'', ''failed''} \<or> str_or_empty (index env ''kind'') = ''aggregate''"

definition requires_gate :: "gate_decision \<Rightarrow> json \<Rightarrow> bool" where
  "requires_gate d env \<longleftrightarrow> (case d of Gate _ \<Rightarrow> applied env | _ \<Rightarrow> privileged env \<and> applied env)"

definition flag_denied :: "gate_decision \<Rightarrow> json \<Rightarrow> append_plan \<Rightarrow> append_plan" where
  "flag_denied d env plan = (case d of Deny \<Rightarrow> if applied env then flag_violation ''policy-denied-applied'' plan else plan | _ \<Rightarrow> plan)"

definition effect_approvers :: "ext \<Rightarrow> store \<Rightarrow> json \<Rightarrow> gate_decision \<Rightarrow> approver list res" where
  "effect_approvers x st env d =
     (let now = str_or_empty (index env ''emitted-at'')
      in
        if privileged env then root_approvers x st now
        else (case d of Gate named_subjects \<Rightarrow> approver_keys x st named_subjects now (execution_text env ''action'') | _ \<Rightarrow> Inr []))"

text \<open>An approval counts as seen only when another envelope spent it.\<close>

definition seen_hashes :: "store \<Rightarrow> json \<Rightarrow> string \<Rightarrow> string set" where
  "seen_hashes st env own_id =
     (case as_str (index (index (index env ''authorization'') ''decision'') ''request-hash'') of
        None \<Rightarrow> {}
      | Some h \<Rightarrow>
          (case gate_request_spent_by st h of
             None \<Rightarrow> {}
           | Some spender \<Rightarrow> if spender \<noteq> own_id then {h} else {}))"

definition use_of :: "json \<Rightarrow> authorization_ok \<Rightarrow> gate_use" where
  "use_of env ok =
     \<lparr>us_request_hash = request_hash ok, us_decided_by = as_string (decided_by ok), us_single_use = single_use ok,
      us_not_after = (case as_str (index (index (index env ''authorization'') ''decision'') ''not-after'') of
                        Some t \<Rightarrow> t | None \<Rightarrow> str_or_empty (index env ''emitted-at''))\<rparr>"

definition settle_gate :: "json \<Rightarrow> authorization_ok option res \<Rightarrow> append_plan \<Rightarrow> append_plan res" where
  "settle_gate env verified plan =
     (case verified of
        Inr (Some ok) \<Rightarrow> Inr (plan\<lparr>ap_gate_use := if applied env then Some (use_of env ok) else None\<rparr>)
      | Inr None \<Rightarrow> Inr plan
      | Inl e \<Rightarrow> if has_code ''gate-denied'' e \<and> \<not> applied env then Inr plan else Inl e)"

definition gate_step :: "ext \<Rightarrow> store \<Rightarrow> json \<Rightarrow> json \<Rightarrow> string \<Rightarrow> append_plan \<Rightarrow> append_plan res" where
  "gate_step x st env doc class plan =
     (let d = decision_for doc class (execution_text env ''action'')
      in
        and_then (effect_approvers x st env d) (\<lambda>permitted.
        and_then (case get env ''authorization'' of Some a \<Rightarrow> validate_embedded x a | None \<Rightarrow> Inr ()) (\<lambda>_.
          settle_gate env
            (verify_authorization x env (requires_gate d env) permitted (seen_hashes st env (ap_id plan)))
            (flag_denied d env plan))))"

section \<open>Effects\<close>

definition registered_manifest :: "ext \<Rightarrow> store \<Rightarrow> string \<Rightarrow> json option res" where
  "registered_manifest x st name =
     and_then (latest_manifest x st name) (\<lambda>doc.
       case doc of
         None \<Rightarrow> Inr None
       | Some d \<Rightarrow> and_then (parse_manifest x d) (\<lambda>m. Inr (Some (manifest_document m))))"

definition effect_state :: "ext \<Rightarrow> intake \<Rightarrow> store \<Rightarrow> json \<Rightarrow> json list \<Rightarrow> json \<Rightarrow> key_id list \<Rightarrow> key_id \<Rightarrow> append_plan \<Rightarrow> append_plan res" where
  "effect_state x cfg st env sent doc rts signer plan =
     and_then (accrue_budget x st env plan) (\<lambda>plan.
     and_then (validate_trigger x st env) (\<lambda>_.
     and_then (if str_or_empty (index env ''kind'') = ''aggregate'' then validate_aggregate_window env doc else Inr ()) (\<lambda>_.
     and_then (if str_or_empty (index env ''kind'') = ''policy-change'' then validate_policy_change x cfg st env sent plan
               else Inr plan) (\<lambda>plan.
     and_then (validate_action_effect x st env sent rts signer plan) (\<lambda>plan.
       Inr (withhold_unapplied (applied env) env plan))))))"

text \<open>The computed class, and the violation of one that nothing permits.\<close>

definition open_effect :: "json \<Rightarrow> string \<Rightarrow> append_plan \<Rightarrow> append_plan" where
  "open_effect env effective plan =
     (let plan = plan\<lparr>ap_effective_class := Some effective\<rparr>
      in if effective = ''prohibited'' \<and> applied env then plan\<lparr>ap_policy_violation := Some ''prohibited-applied''\<rparr> else plan)"

definition validate_effect_kind ::
  "ext \<Rightarrow> intake \<Rightarrow> store \<Rightarrow> json \<Rightarrow> json list \<Rightarrow> json \<Rightarrow> key_id list \<Rightarrow> key_id \<Rightarrow> append_plan \<Rightarrow> append_plan res" where
  "validate_effect_kind x cfg st env sent doc rts signer plan =
     (let owner = str_or_empty (index (index env ''identity'') ''component'');
          who = str_or_empty (index (index env ''identity'') ''subject'');
          declared = str_or_empty (index env ''classification'')
      in
        and_then (effect_requests env) (\<lambda>requests.
        and_then (registered_manifest x st owner) (\<lambda>manifest_doc.
          (let effective = effective_class doc who manifest_doc requests
           in
             if class_weight declared < class_weight effective then Inl (err ''policy-component-override-attempt'')
             else
               and_then (walk_effect_mandate x st env rts signer doc requests) (\<lambda>root.
               and_then
                 (effect_state x cfg st env sent doc rts signer ((open_effect env effective plan)\<lparr>ap_human_root := root\<rparr>)) (\<lambda>plan.
               and_then (validate_commitment st env manifest_doc who) (\<lambda>_.
               and_then (gate_step x st env doc effective plan) (\<lambda>plan.
                 collect_payloads x env sent doc (Some effective) plan))))))))"

section \<open>The ceremony\<close>

definition validate_genesis ::
  "ext \<Rightarrow> intake \<Rightarrow> store \<Rightarrow> json \<Rightarrow> json list \<Rightarrow> key_id list \<Rightarrow> key_id \<Rightarrow> append_plan \<Rightarrow> append_plan res" where
  "validate_genesis x cfg st env sent rts signer plan =
     (let kind = str_or_empty (index env ''kind'');
          seq = (case as_u64 (index env ''seq'') of Some n \<Rightarrow> n | None \<Rightarrow> - 1);
          now = str_or_empty (index env ''emitted-at'');
          declared = str_or_empty (index env ''classification'');
          refuse = Inl (err ''policy-not-published'')
      in
        if as_str (index env ''stream'') \<noteq> Some (in_core_stream cfg) then refuse
        else if kind = ''mandate'' \<and> seq = 0 then
          and_then (ok_or (get env ''mandate'') ''schema-missing-member'') (\<lambda>mandate.
            if as_str (index mandate ''mandate-kind'') \<noteq> Some ''interactive'' then refuse
            else
              and_then (verify_grant x mandate None \<lparr>grant_roots = rts, max_standing_not_after = None\<rparr>) (\<lambda>_.
              and_then (object_id x mandate) (\<lambda>i.
                Inr (with_projections (\<lambda>p. p\<lparr>pj_mandate := Some (i, mandate)\<rparr>) plan))))
        else if kind = ''policy-change'' \<and> seq = 1 then
          (if declared \<noteq> ''consequential'' then Inl (err ''policy-component-override-attempt'')
           else
             and_then (validate_policy_change x cfg st env sent plan) (\<lambda>plan.
             and_then
               (walk_mandate_with_depth x st env rts signer now 3
                  \<lparr>component = str_or_empty (index (index env ''identity'') ''component''),
                   action = execution_text env ''action'', classification = declared,
                   resource = execution_text env ''target''\<rparr>) (\<lambda>root.
             and_then (root_approvers x st now) (\<lambda>permitted.
             and_then (verify_authorization x env True permitted {}) (\<lambda>verified.
             and_then (ok_or verified ''gate-authorization-missing'') (\<lambda>ok.
               Inr (plan\<lparr>ap_human_root := Some root, ap_effective_class := Some declared,
                         ap_gate_use := Some (use_of env ok)\<rparr>)))))))
        else refuse)"

section \<open>Every kind\<close>

definition validate_cognition ::
  "ext \<Rightarrow> store \<Rightarrow> json \<Rightarrow> json \<Rightarrow> key_id list \<Rightarrow> key_id \<Rightarrow> append_plan \<Rightarrow> append_plan res" where
  "validate_cognition x st env doc rts signer plan =
     (case (as_str (index (index env ''resource'') ''kind''), as_str (index (index env ''resource'') ''name'')) of
        (Some k, Some name) \<Rightarrow>
          and_then (walk_mandate_for_resource x st env rts signer (str_or_empty (index env ''emitted-at'')) doc (k @ '':'' @ name)) (\<lambda>root.
            accrue_budget x st env (plan\<lparr>ap_human_root := Some root\<rparr>))
      | _ \<Rightarrow> Inl (err ''schema-missing-member''))"

definition validate_kind_rules ::
  "ext \<Rightarrow> intake \<Rightarrow> store \<Rightarrow> json \<Rightarrow> json list \<Rightarrow> json \<Rightarrow> key_id list \<Rightarrow> key_id \<Rightarrow> append_plan \<Rightarrow> append_plan res" where
  "validate_kind_rules x cfg st env sent doc rts signer plan =
     (let kind = str_or_empty (index env ''kind'')
      in
        if kind \<in> set effect_kinds then validate_effect_kind x cfg st env sent doc rts signer plan
        else if kind = ''cognition'' then validate_cognition x st env doc rts signer plan
        else if kind = ''signal'' then collect_payloads x env sent doc None plan
        else if kind = ''mandate'' then validate_mandate_grant x st env doc rts plan
        else if kind = ''revocation'' then validate_revocation x st env rts plan
        else if kind = ''gate-decision''
        then validate_gate_decision x st env rts doc (str_or_empty (index env ''emitted-at'')) plan
        else if kind = ''checkpoint'' then validate_checkpoint x cfg st env plan
        else Inl (err ''envelope-unknown-kind''))"

definition refuse_stray_authorization :: "json \<Rightarrow> append_plan \<Rightarrow> unit res" where
  "refuse_stray_authorization env plan =
     (if ap_gate_use plan = None \<and> get env ''authorization'' \<noteq> None \<and> str_or_empty (index env ''kind'') \<notin> set effect_kinds
      then Inl (err ''schema-unknown-member'') else Inr ())"


section \<open>A submission\<close>

text \<open>\<open>str::from_utf8\<close>: the well-formed octet sequences, without overlong forms, surrogates and values past the last plane.\<close>

definition continues :: "nat \<Rightarrow> bool" where "continues b \<longleftrightarrow> 128 \<le> b \<and> b < 192"

fun utf8_wellformed :: "nat list \<Rightarrow> bool" where
  "utf8_wellformed [] = True"
| "utf8_wellformed (a # s) =
     (if a < 128 then utf8_wellformed s
      else if 194 \<le> a \<and> a < 224 then (case s of b # t \<Rightarrow> continues b \<and> utf8_wellformed t | _ \<Rightarrow> False)
      else if 224 \<le> a \<and> a < 240 then
        (case s of
           b # c # t \<Rightarrow>
             continues b \<and> continues c \<and> (a = 224 \<longrightarrow> 160 \<le> b) \<and> (a = 237 \<longrightarrow> b < 160) \<and> utf8_wellformed t
         | _ \<Rightarrow> False)
      else if 240 \<le> a \<and> a < 245 then
        (case s of
           b # c # d # t \<Rightarrow>
             continues b \<and> continues c \<and> continues d \<and> (a = 240 \<longrightarrow> 144 \<le> b) \<and> (a = 244 \<longrightarrow> b < 144)
             \<and> utf8_wellformed t
         | _ \<Rightarrow> False)
      else False)"

definition is_utf8 :: "string \<Rightarrow> bool" where
  "is_utf8 raw \<longleftrightarrow> utf8_wellformed (List.map octet raw)"

definition parse_raw :: "ext \<Rightarrow> string \<Rightarrow> json res" where
  "parse_raw x raw = (if is_utf8 raw then parse x raw else Inl (err ''jcs-malformed-json''))"

record claims =
  cl_stream :: "string option"
  cl_seq :: "u64 option"
  cl_kind :: "string option"

text \<open>What the intake is given besides the store: the lenient reader \<open>serde_json::from_str\<close>, and the text an error
  carries, which is recorded and never decided on.\<close>

record reading =
  from_str :: "string \<Rightarrow> json option"
  detail_of :: "string \<Rightarrow> error \<Rightarrow> string"

definition no_claims :: claims where
  "no_claims = \<lparr>cl_stream = None, cl_seq = None, cl_kind = None\<rparr>"

definition claims_of :: "reading \<Rightarrow> string \<Rightarrow> claims" where
  "claims_of rd raw =
     (case (if is_utf8 raw then from_str rd raw else None) of
        None \<Rightarrow> no_claims
      | Some v \<Rightarrow>
          (let env = (case get v ''envelope'' of Some e \<Rightarrow> e | None \<Rightarrow> v)
           in \<lparr>cl_stream = as_str (index env ''stream''), cl_seq = as_u64 (index env ''seq''),
               cl_kind = as_str (index env ''kind'')\<rparr>))"

definition rejected_bytes_hash :: "ext \<Rightarrow> string \<Rightarrow> string" where
  "rejected_bytes_hash x raw =
     (case and_then (parse_raw x raw) (object_hash x) of Inr h \<Rightarrow> h | Inl _ \<Rightarrow> sha256_hex x raw)"

text \<open>Cut at the last character boundary not past the limit, with an ellipsis.\<close>

fun boundary_before :: "string \<Rightarrow> nat \<Rightarrow> nat" where
  "boundary_before text 0 = 0"
| "boundary_before text (Suc n) =
     (if Suc n < length text \<and> continues (octet (text ! Suc n)) then boundary_before text n else Suc n)"

definition ellipsis :: string where "ellipsis = [CHR 0xE2, CHR 0x80, CHR 0xA6]"

definition truncate_text :: "string \<Rightarrow> nat \<Rightarrow> string" where
  "truncate_text text limit =
     (if length text \<le> limit then text else take (boundary_before text limit) text @ ellipsis)"

datatype validated = Already appended | Fresh append_plan

definition request_payloads :: "json \<Rightarrow> json list res" where
  "request_payloads request =
     (case get request ''payloads'' of
        None \<Rightarrow> Inr []
      | Some v \<Rightarrow> (case v of JArray sent \<Rightarrow> Inr sent | _ \<Rightarrow> Inl (err ''schema-type-mismatch'')))"

text \<open>The plan before any check of the kind.\<close>

definition blank_plan :: "json \<Rightarrow> string \<Rightarrow> string \<Rightarrow> string \<Rightarrow> append_plan" where
  "blank_plan env i text received_at =
     \<lparr>ap_envelope = env, ap_id = i, ap_canonical_json = text,
      ap_stream_kind = (if str_or_empty (index env ''kind'') = ''signal'' then ''signal'' else ''effect''),
      ap_received_at = received_at, ap_human_root = None, ap_effective_class = None, ap_policy_violation = None,
      ap_payloads = [], ap_gate_use = None, ap_projections = no_projections, ap_spend = None\<rparr>"

definition policy_in_force :: "ext \<Rightarrow> intake \<Rightarrow> store \<Rightarrow> json option res" where
  "policy_in_force x cfg st =
     and_then (current_policy x st) (\<lambda>doc.
       case doc of
         None \<Rightarrow> Inr None
       | Some d \<Rightarrow> and_then (parse_policy x d (in_policy_key cfg)) (\<lambda>p. Inr (Some (document p))))"

text \<open>Steps 6 to 11, on an envelope that is authentic, well formed, fresh and bound to its payloads.\<close>

definition decide_envelope ::
  "ext \<Rightarrow> intake \<Rightarrow> store \<Rightarrow> json \<Rightarrow> json list \<Rightarrow> key_id \<Rightarrow> append_plan \<Rightarrow> append_plan res" where
  "decide_envelope x cfg st env sent signer plan =
     and_then (policy_in_force x cfg st) (\<lambda>doc.
     and_then (roots_at x st (str_or_empty (index env ''emitted-at''))) (\<lambda>enrolled.
       case doc of
         None \<Rightarrow> validate_genesis x cfg st env sent (List.map fst enrolled) signer plan
       | Some d \<Rightarrow>
           and_then (validate_kind_rules x cfg st env sent d (List.map fst enrolled) signer plan) (\<lambda>plan.
           and_then (refuse_stray_authorization env plan) (\<lambda>_. Inr plan))))"

definition validate_envelope ::
  "ext \<Rightarrow> intake \<Rightarrow> store \<Rightarrow> string \<Rightarrow> json \<Rightarrow> json list \<Rightarrow> validated res" where
  "validate_envelope x cfg st received_at env sent =
     and_then (object_id x env) (\<lambda>i.
     and_then (canonicalize x env) (\<lambda>text.
       case envelope_by_id st i of
         Some row \<Rightarrow>
           Inr (Already \<lparr>ad_id = i, ad_stream = er_stream row, ad_seq = er_seq row, ad_idempotent = True\<rparr>)
       | None \<Rightarrow>
           and_then (verify_signed_object x env) (\<lambda>signer.
           and_then (validate x env) (\<lambda>_.
           and_then (shift received_at (in_max_future_skew cfg)) (\<lambda>horizon.
             if str_or_empty (index env ''emitted-at'') > horizon then Inl (err ''envelope-emitted-in-future'')
             else
               and_then (verify_ingest x env sent) (\<lambda>_.
               and_then (decide_envelope x cfg st env sent signer (blank_plan env i text received_at)) (\<lambda>plan.
                 Inr (Fresh plan))))))))"

definition validate_submission :: "ext \<Rightarrow> intake \<Rightarrow> store \<Rightarrow> string \<Rightarrow> string \<Rightarrow> validated res" where
  "validate_submission x cfg st received_at raw =
     and_then (parse_raw x raw) (\<lambda>request.
     and_then (ok_or (as_object request) ''schema-type-mismatch'') (\<lambda>m.
     and_then (only_members [''envelope'', ''payloads''] m) (\<lambda>_.
     and_then (ok_or (get request ''envelope'') ''schema-missing-member'') (\<lambda>env.
     and_then (request_payloads request) (\<lambda>sent.
       validate_envelope x cfg st received_at env sent)))))"

section \<open>The answer\<close>

datatype outcome =
    Accepted appended
  | Rejected string "rejection_record option"
  | Unavailable
  | Trapped

definition reject_submission ::
  "ext \<Rightarrow> intake \<Rightarrow> reading \<Rightarrow> string \<Rightarrow> error \<Rightarrow> string option \<Rightarrow> string \<Rightarrow> claims \<Rightarrow> store \<Rightarrow> store \<times> outcome" where
  "reject_submission x cfg rd raw e submitted_by received_at claimed st =
     (let input = \<lparr>ri_reason = code e, ri_detail = truncate_text (detail_of rd raw e) 1024,
                   ri_object_hash = rejected_bytes_hash x raw, ri_submitted_by = submitted_by,
                   ri_received_at = received_at, ri_claimed_stream = cl_stream claimed, ri_claimed_seq = cl_seq claimed,
                   ri_claimed_kind = cl_kind claimed\<rparr>
      in case record_rejection x (in_secret cfg) input st of
           Inr (st', r) \<Rightarrow> (st', Rejected (code e) (Some r))
         | Inl _ \<Rightarrow> (st, Rejected (code e) None))"

text \<open>An error turned into the answer: an outage is not a rejection and is not recorded as one.\<close>

definition refuse_submission ::
  "ext \<Rightarrow> intake \<Rightarrow> reading \<Rightarrow> string \<Rightarrow> error \<Rightarrow> string option \<Rightarrow> string \<Rightarrow> claims \<Rightarrow> store \<Rightarrow> store \<times> outcome" where
  "refuse_submission x cfg rd raw e submitted_by received_at claimed st =
     (if e = Panic then (st, Trapped)
      else if has_code store_unavailable e then (st, Unavailable)
      else reject_submission x cfg rd raw e submitted_by received_at claimed st)"

definition claims_of_plan :: "append_plan \<Rightarrow> claims" where
  "claims_of_plan plan =
     (let env = ap_envelope plan
      in \<lparr>cl_stream = Some (str_or_empty (index env ''stream'')),
          cl_seq = Some (case as_u64 (index env ''seq'') of Some n \<Rightarrow> n | None \<Rightarrow> 0),
          cl_kind = Some (str_or_empty (index env ''kind''))\<rparr>)"

text \<open>\<open>submit\<close>: validated on one store, appended or refused on the store as it is by then.\<close>

definition submit ::
  "ext \<Rightarrow> intake \<Rightarrow> reading \<Rightarrow> string \<Rightarrow> string \<Rightarrow> string option \<Rightarrow> store \<Rightarrow> store \<Rightarrow> store \<times> outcome" where
  "submit x cfg rd received_at raw submitted_by seen st =
     (case validate_submission x cfg seen received_at raw of
        Inr (Already a) \<Rightarrow> (st, Accepted a)
      | Inr (Fresh plan) \<Rightarrow>
          (case append_envelope x plan st of
             Inr (st', a) \<Rightarrow> (st', Accepted a)
           | Inl e \<Rightarrow> refuse_submission x cfg rd raw e submitted_by received_at (claims_of_plan plan) st)
      | Inl e \<Rightarrow> refuse_submission x cfg rd raw e submitted_by received_at (claims_of rd raw) st)"

end
