(* ===== verification/Admission.thy ===== *)
theory Admission
  imports Ingest
begin

text \<open>
  What the intake guarantees: every answer of \<open>submit\<close> is accounted for in the store, accepted plans are the plans the
  ledger's state machine takes, and no submission changes what governs without a root's signature.
\<close>

section \<open>The answer and the store\<close>

lemma record_rejection_row:
  "yields (\<lambda>(s', r). \<exists>row. s' = s\<lparr>rejections := rejections s @ [row]\<rparr> \<and> rj_reason row = ri_reason input
      \<and> rj_object_hash row = ri_object_hash input \<and> rj_claimed_stream row = ri_claimed_stream input
      \<and> rj_submitted_by row = ri_submitted_by input
      \<and> rj_claimed_seq row = claimed_column (ri_claimed_seq input) \<and> rr_id r = rj_id row \<and> rr_seq r = rj_seq row
      \<and> rr_reason r = rj_reason row \<and> rj_received_at row = ri_received_at input \<and> rj_claimed_kind row = ri_claimed_kind input)
    (record_rejection x secret input s)"
  unfolding record_rejection_def Let_def by (intro yields_rules) (auto split: prod.splits)

text \<open>The row a refusal leaves.\<close>

definition refusal_row :: "ext \<Rightarrow> string \<Rightarrow> string \<Rightarrow> string option \<Rightarrow> string \<Rightarrow> rejection_row \<Rightarrow> bool" where
  "refusal_row x raw why submitted_by received_at row \<longleftrightarrow>
     rj_reason row = why \<and> rj_object_hash row = rejected_bytes_hash x raw \<and> rj_submitted_by row = submitted_by
     \<and> rj_received_at row = received_at"

lemma reject_submission_cases:
  obtains (recorded) row r where "reject_submission x cfg rd raw e by_whom t cl st
      = (st\<lparr>rejections := rejections st @ [row]\<rparr>, Rejected (code e) (Some r))"
      "refusal_row x raw (code e) by_whom t row" "rr_id r = rj_id row" "rr_seq r = rj_seq row"
      "rj_claimed_stream row = cl_stream cl" "rj_claimed_seq row = claimed_column (cl_seq cl)"
    | (lost) "reject_submission x cfg rd raw e by_whom t cl st = (st, Rejected (code e) None)"
proof -
  let ?i = "\<lparr>ri_reason = code e, ri_detail = truncate_text (detail_of rd raw e) 1024,
      ri_object_hash = rejected_bytes_hash x raw, ri_submitted_by = by_whom, ri_received_at = t,
      ri_claimed_stream = cl_stream cl, ri_claimed_seq = cl_seq cl, ri_claimed_kind = cl_kind cl\<rparr>"
  show thesis
  proof (cases "record_rejection x (in_secret cfg) ?i st")
    case (Inl q)
    then show thesis by (intro lost) (simp add: reject_submission_def)
  next
    case (Inr q)
    obtain s' r where q: "q = (s', r)" by (cases q)
    from yieldsD [OF record_rejection_row Inr] q obtain row where row: "s' = st\<lparr>rejections := rejections st @ [row]\<rparr>"
      "refusal_row x raw (code e) by_whom t row" "rr_id r = rj_id row" "rr_seq r = rj_seq row"
      "rj_claimed_stream row = cl_stream cl" "rj_claimed_seq row = claimed_column (cl_seq cl)"
      by (auto simp: refusal_row_def)
    show thesis
      by (rule recorded [of row r]) (use Inr q row in \<open>simp_all add: reject_submission_def\<close>)
  qed
qed

lemma refuse_submission_cases:
  "refuse_submission x cfg rd raw e by_whom t cl st \<in> {(st, Trapped), (st, Unavailable), (st, Rejected (code e) None)}
   \<or> code e \<noteq> store_unavailable
      \<and> (\<exists>row r. refuse_submission x cfg rd raw e by_whom t cl st
              = (st\<lparr>rejections := rejections st @ [row]\<rparr>, Rejected (code e) (Some r))
            \<and> refusal_row x raw (code e) by_whom t row \<and> rr_id r = rj_id row \<and> rr_seq r = rj_seq row)"
proof -
  have "e \<noteq> Panic \<Longrightarrow> \<not> has_code store_unavailable e \<Longrightarrow> code e \<noteq> store_unavailable"
    by (cases e) (simp_all add: has_code_def)
  then show ?thesis
    by (cases rule: reject_submission_cases [of x cfg rd raw e by_whom t cl st]) (auto simp: refuse_submission_def)
qed



section \<open>What the checks leave of the plan\<close>

definition same_record :: "append_plan \<Rightarrow> append_plan \<Rightarrow> bool" where
  "same_record p q \<longleftrightarrow>
     ap_envelope q = ap_envelope p \<and> ap_id q = ap_id p \<and> ap_canonical_json q = ap_canonical_json p
     \<and> ap_stream_kind q = ap_stream_kind p \<and> ap_received_at q = ap_received_at p"

named_theorems record_rules

lemma same_record_refl [simp, record_rules]: "same_record p p"
  by (simp add: same_record_def)

lemma same_record_trans: "same_record p q \<Longrightarrow> same_record q r \<Longrightarrow> same_record p r"
  by (simp add: same_record_def)

lemma same_record_projections [simp]: "same_record p (with_projections f q) \<longleftrightarrow> same_record p q"
  by (simp add: same_record_def with_projections_def)

lemma same_record_update [simp]:
  "same_record p (q\<lparr>ap_human_root := a\<rparr>) \<longleftrightarrow> same_record p q"
  "same_record p (q\<lparr>ap_effective_class := a\<rparr>) \<longleftrightarrow> same_record p q"
  "same_record p (q\<lparr>ap_policy_violation := a\<rparr>) \<longleftrightarrow> same_record p q"
  "same_record p (q\<lparr>ap_payloads := b\<rparr>) \<longleftrightarrow> same_record p q"
  "same_record p (q\<lparr>ap_gate_use := c\<rparr>) \<longleftrightarrow> same_record p q"
  "same_record p (q\<lparr>ap_spend := d\<rparr>) \<longleftrightarrow> same_record p q"
  by (simp_all add: same_record_def)

lemma same_record_flag [simp]: "same_record p (flag_violation v q) \<longleftrightarrow> same_record p q"
  by (simp add: flag_violation_def split: option.splits)

lemma same_record_flag_denied [simp]: "same_record p (flag_denied d env q) \<longleftrightarrow> same_record p q"
  by (simp add: flag_denied_def split: gate_decision.splits)

lemma same_record_withhold [simp]: "same_record p (withhold_unapplied b env q) \<longleftrightarrow> same_record p q"
  by (simp add: withhold_unapplied_def)

lemma yields_case_sum:
  "(\<And>e. r = Inl e \<Longrightarrow> yields Q (f e)) \<Longrightarrow> (\<And>v. r = Inr v \<Longrightarrow> yields Q (g v)) \<Longrightarrow> yields Q (case r of Inl e \<Rightarrow> f e | Inr v \<Rightarrow> g v)"
  by (cases r) auto

lemma yields_imp: "yields P r \<Longrightarrow> (\<And>v. P v \<Longrightarrow> Q v) \<Longrightarrow> yields Q r"
  by (auto simp: yields_def)

lemma policy_change_record [record_rules]: "yields (same_record plan) (validate_policy_change x cfg st env sent plan)"
  unfolding validate_policy_change_def by (intro yields_rules) simp_all

lemma registration_record [record_rules]: "yields (same_record plan) (validate_registration x st env sent plan)"
  unfolding validate_registration_def by (intro yields_rules) simp_all

lemma root_change_record [record_rules]: "yields (same_record plan) (validate_root_change x env sent rts signer plan)"
  unfolding validate_root_change_def by (intro yields_rules) (simp split: root_change.splits)

lemma action_effect_record [record_rules]: "yields (same_record plan) (validate_action_effect x st env sent rts signer plan)"
  unfolding validate_action_effect_def Let_def by (intro yields_rules record_rules) simp

lemma accrue_record [record_rules]: "yields (same_record plan) (accrue_budget x st env plan)"
  unfolding accrue_budget_def by (intro yields_rules) simp_all

lemma grant_record [record_rules]: "yields (same_record plan) (validate_mandate_grant x st env doc rts plan)"
  unfolding validate_mandate_grant_def by (intro yields_rules) simp

lemma revocation_record [record_rules]: "yields (same_record plan) (validate_revocation x st env rts plan)"
  unfolding validate_revocation_def by (intro yields_rules) simp

lemma bind_queued_record [record_rules]: "yields (same_record plan) (bind_queued x st h now decision plan)"
  unfolding bind_queued_def Let_def by (intro yields_rules) simp_all

lemma gate_decision_record [record_rules]: "yields (same_record plan) (validate_gate_decision x st env rts doc now plan)"
  unfolding validate_gate_decision_def by (intro yields_rules record_rules)

lemma checkpoint_record [record_rules]: "yields (same_record plan) (validate_checkpoint x cfg st env plan)"
  unfolding validate_checkpoint_def Let_def by (intro yields_rules) simp

lemma collect_record [record_rules]: "yields (same_record plan) (collect_payloads x env sent doc class plan)"
  unfolding collect_payloads_def by (intro yields_rules) simp_all

lemma settle_record: "same_record plan p \<Longrightarrow> yields (same_record plan) (settle_gate env verified p)"
  unfolding settle_gate_def by (intro yields_case_sum yields_rules) simp_all

lemma gate_step_record [record_rules]: "yields (same_record plan) (gate_step x st env doc class plan)"
  unfolding gate_step_def Let_def by (intro yields_rules settle_record) simp

lemma effect_state_record [record_rules]: "yields (same_record plan) (effect_state x cfg st env sent doc rts signer plan)"
proof -
  have "yields (same_record plan) (if b then validate_policy_change x cfg st env sent p else Inr p)"
    if "same_record plan p" for b p
    using that by (intro yields_rules yields_imp [OF policy_change_record]) (auto elim: same_record_trans)
  then show ?thesis
    unfolding effect_state_def
    by (intro yields_rules(3) [where r = "validate_trigger x st env"]
        yields_then [OF accrue_record] yields_then [where P = "\<lambda>_. True"] yields_then [where P = "same_record plan"]
        yields_imp [OF action_effect_record] yields_rules(2)) (auto simp: yields_def elim: same_record_trans)
qed


lemma same_record_open [simp]: "same_record p (open_effect env effective q) \<longleftrightarrow> same_record p q"
  by (simp add: open_effect_def Let_def)

lemma effect_kind_steps:
  assumes "validate_effect_kind x cfg st env sent doc rts signer p = Inr q"
  obtains requests manifest_doc root p1 p2 u where "effect_requests env = Inr requests"
    "registered_manifest x st (str_or_empty (index (index env ''identity'') ''component'')) = Inr manifest_doc"
    "\<not> class_weight (str_or_empty (index env ''classification''))
       < class_weight (effective_class doc (str_or_empty (index (index env ''identity'') ''subject'')) manifest_doc requests)"
    "walk_effect_mandate x st env rts signer doc requests = Inr root"
    "effect_state x cfg st env sent doc rts signer
       ((open_effect env (effective_class doc (str_or_empty (index (index env ''identity'') ''subject'')) manifest_doc requests) p)
          \<lparr>ap_human_root := root\<rparr>) = Inr p1"
    "validate_commitment st env manifest_doc (str_or_empty (index (index env ''identity'') ''subject'')) = Inr u"
    "gate_step x st env doc (effective_class doc (str_or_empty (index (index env ''identity'') ''subject'')) manifest_doc requests) p1
       = Inr p2"
    "collect_payloads x env sent doc
       (Some (effective_class doc (str_or_empty (index (index env ''identity'') ''subject'')) manifest_doc requests)) p2 = Inr q"
  using assms that unfolding validate_effect_kind_def Let_def by (simp only: and_then_eq_Inr if_Inl_eq_Inr) blast

lemma effect_kind_record [record_rules]: "yields (same_record p) (validate_effect_kind x cfg st env sent doc rts signer p)"
proof (unfold yields_def, intro allI impI, erule effect_kind_steps)
  fix q root p1 p2 requests manifest_doc effective
  assume s: "effect_state x cfg st env sent doc rts signer ((open_effect env effective p)\<lparr>ap_human_root := root\<rparr>) = Inr p1"
    "gate_step x st env doc effective p1 = Inr p2" "collect_payloads x env sent doc (Some effective) p2 = Inr q"
  from yieldsD [OF effect_state_record s(1)] yieldsD [OF gate_step_record s(2)] yieldsD [OF collect_record s(3)]
  show "same_record p q" by (simp add: same_record_def open_effect_def Let_def split: if_splits)
qed

lemma cognition_record [record_rules]: "yields (same_record plan) (validate_cognition x st env doc rts signer plan)"
proof -
  have "yields (same_record plan) (accrue_budget x st env (plan\<lparr>ap_human_root := r\<rparr>))" for r
    by (rule yields_imp [OF accrue_record]) (simp add: same_record_def)
  then show ?thesis
    unfolding validate_cognition_def by (auto intro!: yields_rules split: option.splits)
qed

lemma genesis_record [record_rules]: "yields (same_record plan) (validate_genesis x cfg st env sent rts signer plan)"
  unfolding validate_genesis_def Let_def
  by (intro yields_rules yields_then [OF policy_change_record]) simp_all

lemma kind_rules_record [record_rules]: "yields (same_record plan) (validate_kind_rules x cfg st env sent doc rts signer plan)"
  unfolding validate_kind_rules_def Let_def by (intro yields_rules record_rules)

lemma decide_record: "yields (same_record plan) (decide_envelope x cfg st env sent signer plan)"
  unfolding decide_envelope_def
  by (intro yields_rules record_rules yields_then [OF kind_rules_record]) simp

lemma fresh_facts:
  assumes "validate_submission x cfg st received_at raw = Inr (Fresh plan)"
  obtains env sent signer i canon where "parse_raw x raw \<noteq> Inl Panic"
    "verify_signed_object x env = Inr signer" "validate x env = Inr ()" "object_id x env = Inr i"
    "canonicalize x env = Inr canon" "envelope_by_id st i = None" "verify_ingest x env sent \<noteq> Inl Panic"
    "decide_envelope x cfg st env sent signer (blank_plan env i canon received_at) = Inr plan"
    "same_record (blank_plan env i canon received_at) plan"
    "\<exists>request. parse_raw x raw = Inr request \<and> get request ''envelope'' = Some env"
proof -
  from assms obtain request env sent where r: "parse_raw x raw = Inr request" "get request ''envelope'' = Some env"
    "validate_envelope x cfg st received_at env sent = Inr (Fresh plan)" by (auto simp: validate_submission_def)
  then obtain i canon signer horizon q where e: "object_id x env = Inr i" "canonicalize x env = Inr canon"
    "envelope_by_id st i = None" "verify_signed_object x env = Inr signer" "validate x env = Inr ()"
    "verify_ingest x env sent = Inr q"
    "decide_envelope x cfg st env sent signer (blank_plan env i canon received_at) = Inr plan"
    by (auto simp: validate_envelope_def split: option.splits if_splits)
  with r yieldsD [OF decide_record e(7)] show thesis by (intro that) auto
qed

lemma fresh_planned:
  assumes "validate_submission x cfg st received_at raw = Inr (Fresh plan)" and "reads_back x (ap_envelope plan)"
  shows "planned x plan"
proof -
  from assms(1) obtain env sent signer i canon where f: "verify_signed_object x env = Inr signer" "validate x env = Inr ()"
    "object_id x env = Inr i" "canonicalize x env = Inr canon" "same_record (blank_plan env i canon received_at) plan"
    by (rule fresh_facts)
  moreover have "str_or_empty (index env ''kind'') = ''signal'' \<longleftrightarrow> get_str env ''kind'' = Some ''signal''"
    by (auto simp: str_or_empty_def index_str split: option.splits)
  ultimately show ?thesis using assms(2) by (auto simp: planned_def authentic_def same_record_def blank_plan_def)
qed


section \<open>Changes to what governs\<close>

text \<open>A plan that writes the policy, a manifest, the root set or a resume.\<close>

definition governs :: "append_plan \<Rightarrow> bool" where
  "governs plan \<longleftrightarrow>
     (let p = ap_projections plan
      in pj_policy p \<noteq> None \<or> pj_manifest p \<noteq> None \<or> pj_enroll_root p \<noteq> None \<or> pj_retire_root p \<noteq> None
         \<or> pj_stream_resume p \<noteq> None)"

lemma flag_projections [simp]:
  "ap_projections (flag_violation v p) = ap_projections p" "ap_projections (flag_denied d env p) = ap_projections p"
  "ap_gate_use (flag_violation v p) = ap_gate_use p" "ap_gate_use (flag_denied d env p) = ap_gate_use p"
  "ap_id (flag_violation v p) = ap_id p" "ap_id (flag_denied d env p) = ap_id p"
  by (simp_all add: flag_violation_def flag_denied_def split: option.splits gate_decision.splits)

lemma accrue_projections: "yields (\<lambda>q. ap_projections q = ap_projections p) (accrue_budget x st env p)"
  unfolding accrue_budget_def by (intro yields_rules) simp_all

lemma collect_keeps:
  "yields (\<lambda>q. ap_projections q = ap_projections p \<and> ap_gate_use q = ap_gate_use p) (collect_payloads x env sent doc class p)"
  unfolding collect_payloads_def by (intro yields_rules) simp_all

lemma settle_keeps: "yields (\<lambda>q. ap_projections q = ap_projections p) (settle_gate env verified p)"
  unfolding settle_gate_def by (intro yields_case_sum yields_rules) simp_all

lemma gate_step_keeps: "yields (\<lambda>q. ap_projections q = ap_projections p) (gate_step x st env doc class p)"
  unfolding gate_step_def Let_def by (intro yields_rules yields_imp [OF settle_keeps]) simp

text \<open>Where the envelope does not name a privileged action, or does not claim that it was applied, nothing that governs is
  written.\<close>

lemma action_effect_governs:
  "yields (\<lambda>q. governs q \<longrightarrow> governs p \<or> privileged env) (validate_action_effect x st env sent rts signer p)"
proof (cases "privileged env")
  case True
  then show ?thesis by (simp add: yields_def)
next
  case False
  then have "execution_text env ''action'' \<notin> set root_approved_actions" by (simp add: privileged_def)
  then have "as_str (index (index env ''execution'') ''action'')
      \<notin> {Some ''kernel.register_component'', Some ''kernel.enroll_root'', Some ''kernel.retire_root'', Some ''kernel.resume_stream''}"
    by (auto simp: execution_text_def str_or_empty_def root_approved_actions_def)
  then show ?thesis by (simp add: validate_action_effect_def yields_def)
qed

lemma effect_state_steps:
  assumes "effect_state x cfg st env sent doc rts signer p = Inr q"
  obtains p1 p2 p3 where "accrue_budget x st env p = Inr p1"
    "(if str_or_empty (index env ''kind'') = ''policy-change'' then validate_policy_change x cfg st env sent p1 else Inr p1) = Inr p2"
    "validate_action_effect x st env sent rts signer p2 = Inr p3" "withhold_unapplied (applied env) env p3 = q"
  using assms unfolding effect_state_def and_then_eq_Inr sum.inject
  by (elim exE conjE) (rule that; assumption)

lemma effect_state_governs:
  assumes "\<not> governs p"
  shows "yields (\<lambda>q. governs q \<longrightarrow> privileged env \<and> applied env) (effect_state x cfg st env sent doc rts signer p)"
proof (unfold yields_def, intro allI impI)
  fix q assume r: "effect_state x cfg st env sent doc rts signer p = Inr q" and g: "governs q"
  from effect_state_steps [OF r] obtain p1 p2 p3 where s: "accrue_budget x st env p = Inr p1"
    "(if str_or_empty (index env ''kind'') = ''policy-change'' then validate_policy_change x cfg st env sent p1 else Inr p1) = Inr p2"
    "validate_action_effect x st env sent rts signer p2 = Inr p3" "withhold_unapplied (applied env) env p3 = q" .
  have p1: "\<not> governs p1" using yieldsD [OF accrue_projections s(1)] assms by (simp add: governs_def)
  from s(2) p1 have p2: "governs p2 \<Longrightarrow> privileged env"
    by (cases "str_or_empty (index env ''kind'') = ''policy-change''") (simp_all add: privileged_def)
  with yieldsD [OF action_effect_governs s(3)] have p3: "governs p3 \<Longrightarrow> privileged env" by blast
  show "privileged env \<and> applied env"
  proof (cases "applied env")
    case True
    with g s(4) [symmetric] p3 show ?thesis by (simp add: withhold_unapplied_def)
  next
    case False
    with g s(4) [symmetric] p3 show ?thesis
      by (cases "privileged env") (auto simp: withhold_unapplied_def with_projections_def governs_def Let_def)
  qed
qed

text \<open>A root's approval of exactly this envelope, recorded as the use.\<close>

definition root_approved :: "ext \<Rightarrow> store \<Rightarrow> append_plan \<Rightarrow> bool" where
  "root_approved x st plan \<longleftrightarrow>
     (\<exists>permitted seen ok. root_approvers x st (str_or_empty (index (ap_envelope plan) ''emitted-at'')) = Inr permitted
        \<and> verify_authorization x (ap_envelope plan) True permitted seen = Inr (Some ok)
        \<and> ap_gate_use plan = Some (use_of (ap_envelope plan) ok))"

lemma gate_step_root:
  assumes "privileged env" and "applied env" and "gate_step x st env doc class p = Inr q"
  shows "\<exists>permitted seen ok. root_approvers x st (str_or_empty (index env ''emitted-at'')) = Inr permitted
    \<and> verify_authorization x env True permitted seen = Inr (Some ok) \<and> ap_gate_use q = Some (use_of env ok)"
proof -
  let ?d = "decision_for doc class (execution_text env ''action'')"
  have g: "requires_gate ?d env" using assms(1,2) by (simp add: requires_gate_def split: gate_decision.splits)
  from assms(3) obtain permitted where p: "effect_approvers x st env ?d = Inr permitted"
    "settle_gate env (verify_authorization x env (requires_gate ?d env) permitted (seen_hashes st env (ap_id p))) (flag_denied ?d env p) = Inr q"
    by (auto simp: gate_step_def Let_def)
  let ?v = "verify_authorization x env True permitted (seen_hashes st env (ap_id p))"
  have "?v \<noteq> Inr None" by (auto simp: verify_authorization_eq split: option.splits)
  moreover have "root_approvers x st (str_or_empty (index env ''emitted-at'')) = Inr permitted"
    using p(1) assms(1) by (simp add: effect_approvers_def)
  ultimately show ?thesis using p(2) assms(2) g
    by (auto simp: settle_gate_def split: sum.splits option.splits if_splits) (metis)
qed

lemma effect_kind_governs:
  assumes "\<not> governs p" and "validate_effect_kind x cfg st env sent doc rts signer p = Inr q" and "governs q"
  shows "\<exists>permitted seen ok. root_approvers x st (str_or_empty (index env ''emitted-at'')) = Inr permitted
    \<and> verify_authorization x env True permitted seen = Inr (Some ok) \<and> ap_gate_use q = Some (use_of env ok)"
proof -
  from assms(2) show ?thesis
  proof (rule effect_kind_steps)
    fix p1 p2 root cls
    assume s: "effect_state x cfg st env sent doc rts signer ((open_effect env cls p)\<lparr>ap_human_root := root\<rparr>) = Inr p1"
      "gate_step x st env doc cls p1 = Inr p2" "collect_payloads x env sent doc (Some cls) p2 = Inr q"
    note c = yieldsD [OF collect_keeps s(3)] and k = yieldsD [OF gate_step_keeps s(2)]
    have "\<not> governs ((open_effect env cls p)\<lparr>ap_human_root := root\<rparr>)"
      using assms(1) by (simp add: governs_def open_effect_def Let_def)
    from yieldsD [OF effect_state_governs [OF this] s(1)] assms(3) c k have "privileged env" "applied env"
      by (auto simp: governs_def)
    from gate_step_root [OF this s(2)] c show ?thesis by simp
  qed
qed

lemma not_governs_keeps [simp]:
  "governs (with_projections (\<lambda>p. p\<lparr>pj_mandate := m\<rparr>) q) = governs q"
  "governs (with_projections (\<lambda>p. p\<lparr>pj_revocation := m\<rparr>) q) = governs q"
  "governs (with_projections (\<lambda>p. p\<lparr>pj_gate_decision := d\<rparr>) q) = governs q"
  "governs (with_projections (\<lambda>p. p\<lparr>pj_checkpoint := c\<rparr>) q) = governs q"
  "governs (q\<lparr>ap_human_root := h\<rparr>) = governs q"
  by (simp_all add: governs_def with_projections_def Let_def)

lemma blank_governs [simp]: "\<not> governs (blank_plan env i canon t)"
  by (simp add: governs_def blank_plan_def no_projections_def)

lemma other_kinds_govern:
  assumes "\<not> governs p" and "str_or_empty (index env ''kind'') \<notin> set effect_kinds"
    and "validate_kind_rules x cfg st env sent doc rts signer p = Inr q"
  shows "\<not> governs q"
proof -
  have bq: "yields (\<lambda>q. \<not> governs q) (bind_queued x st h now d p)" for h now d
    unfolding bind_queued_def Let_def by (intro yields_rules) (simp_all add: assms(1))
  have ck: "yields (\<lambda>q. \<not> governs q) (validate_checkpoint x cfg st env p)"
    unfolding validate_checkpoint_def Let_def by (intro yields_rules) (simp_all add: assms(1))
  have cg: "yields (\<lambda>q. \<not> governs q) (validate_cognition x st env doc rts signer p)"
    unfolding validate_cognition_def
    by (auto intro!: yields_rules yields_imp [OF accrue_projections] simp: split: option.splits)
      (use assms(1) in \<open>simp_all add: governs_def Let_def\<close>)
  have co: "yields (\<lambda>q. \<not> governs q) (collect_payloads x env sent doc None p)"
    by (rule yields_imp [OF collect_keeps]) (use assms(1) in \<open>simp add: governs_def\<close>)
  have "yields (\<lambda>q. \<not> governs q) (validate_kind_rules x cfg st env sent doc rts signer p)"
    unfolding validate_kind_rules_def Let_def validate_mandate_grant_def validate_revocation_def validate_gate_decision_def
    using assms(2)
    by (intro yields_rules bq ck cg co) (simp_all add: assms(1))
  from yieldsD [OF this assms(3)] show ?thesis .
qed


lemma genesis_governs:
  assumes "\<not> governs p" and "validate_genesis x cfg st env sent rts signer p = Inr q" and "governs q"
  shows "\<exists>permitted seen ok. root_approvers x st (str_or_empty (index env ''emitted-at'')) = Inr permitted
    \<and> verify_authorization x env True permitted seen = Inr (Some ok) \<and> ap_gate_use q = Some (use_of env ok)"
  using assms by (auto simp: validate_genesis_def Let_def split: if_splits) metis

lemma decide_governs:
  assumes "\<not> governs p" and "decide_envelope x cfg st env sent signer p = Inr q" and "governs q"
  shows "\<exists>permitted seen ok. root_approvers x st (str_or_empty (index env ''emitted-at'')) = Inr permitted
    \<and> verify_authorization x env True permitted seen = Inr (Some ok) \<and> ap_gate_use q = Some (use_of env ok)"
proof -
  from assms(2) obtain doc and enrolled :: "(key_id \<times> string) list" where
    s: "(case doc of None \<Rightarrow> validate_genesis x cfg st env sent (List.map fst enrolled) signer p
         | Some d \<Rightarrow> and_then (validate_kind_rules x cfg st env sent d (List.map fst enrolled) signer p) (\<lambda>plan.
             and_then (refuse_stray_authorization env plan) (\<lambda>_. Inr plan))) = Inr q"
    unfolding decide_envelope_def and_then_eq_Inr by (elim exE conjE) (erule that)
  consider "validate_genesis x cfg st env sent (List.map fst enrolled) signer p = Inr q"
    | d where "validate_kind_rules x cfg st env sent d (List.map fst enrolled) signer p = Inr q"
    using s by (cases doc) auto
  then show ?thesis
  proof cases
    case 1
    from genesis_governs [OF assms(1) this assms(3)] show ?thesis .
  next
    case 2
    show ?thesis
    proof (cases "str_or_empty (index env ''kind'') \<in> set effect_kinds")
      case True
      with 2 have "validate_effect_kind x cfg st env sent d (List.map fst enrolled) signer p = Inr q"
        by (simp add: validate_kind_rules_def)
      from effect_kind_governs [OF assms(1) this assms(3)] show ?thesis .
    next
      case False
      from other_kinds_govern [OF assms(1) this 2] assms(3) show ?thesis by simp
    qed
  qed
qed

text \<open>A root of the store at an instant.\<close>

definition root_at :: "ext \<Rightarrow> store \<Rightarrow> string \<Rightarrow> key_id \<Rightarrow> string \<Rightarrow> bool" where
  "root_at x st now k name \<longleftrightarrow>
     (\<exists>r \<in> set (root_rows st). enrolled_at now r \<and> key_id_parse x (rt_key r) = Inr k \<and> rt_subject r = name)"

lemma roots_at_in: "roots_at x st now = Inr found \<Longrightarrow> (k, name) \<in> set found \<Longrightarrow> root_at x st now k name"
proof -
  assume f: "roots_at x st now = Inr found" and i: "(k, name) \<in> set found"
  let ?rows = "sort_key rt_key (filter (enrolled_at now) (root_rows st))"
  from f have l: "list_all2 (\<lambda>r ks. and_then (key_id_parse x (rt_key r)) (\<lambda>k. Inr (k, rt_subject r)) = Inr ks) ?rows found"
    by (simp add: roots_at_def map_res_eq_Inr)
  from i obtain j where j: "j < length found" "found ! j = (k, name)" by (auto simp: in_set_conv_nth)
  with l have "j < length ?rows" "and_then (key_id_parse x (rt_key (?rows ! j))) (\<lambda>k. Inr (k, rt_subject (?rows ! j))) = Inr (k, name)"
    by (auto simp: list_all2_conv_all_nth)
  moreover from this(1) have "?rows ! j \<in> set (filter (enrolled_at now) (root_rows st))" by (metis nth_mem set_sort)
  ultimately show ?thesis by (auto simp: root_at_def)
qed

lemma root_speaks:
  assumes "root_approvers x st now = Inr permitted" and "impartial permitted request k"
  shows "\<exists>name. root_at x st now k name \<and> get_str request ''subject'' \<noteq> Some name \<and> get_str request ''key'' \<noteq> Some (as_string k)"
proof -
  from assms(1) obtain found where f: "roots_at x st now = Inr found" "permitted = List.map (\<lambda>ks. named (fst ks) (snd ks)) found"
    by (auto simp: root_approvers_def)
  from assms(2) obtain r a where a: "get_str request ''key'' = Some r" "r \<noteq> as_string k" "speaks_as permitted k a"
    "approver_subject a = None \<or> approver_subject a \<noteq> get_str request ''subject''" by (auto simp: impartial_def)
  from find_SomeD [OF a(3) [unfolded speaks_as_def]] f(2) obtain name where "(k, name) \<in> set found" "a = named k name"
    by (auto simp: named_def)
  with roots_at_in [OF f(1), of k name] a(1,2,4) show ?thesis by (intro exI [of _ name]) (auto simp: named_def)
qed

text \<open>The tables that decide what later submissions may do.\<close>

definition governing :: "store \<Rightarrow> policy_row list \<times> manifest_row list \<times> root_row list \<times> resume_row list" where
  "governing st = (policies st, manifests st, root_rows st, stream_resumes st)"

lemma projections_not_governing:
  assumes "\<not> governs plan"
  shows "yields (\<lambda>s'. governing s' = governing s) (write_projections x plan s)"
proof -
  have n: "pj_policy (ap_projections plan) = None" "pj_manifest (ap_projections plan) = None"
    "pj_enroll_root (ap_projections plan) = None" "pj_retire_root (ap_projections plan) = None"
    "pj_stream_resume (ap_projections plan) = None"
    using assms unfolding governs_def Let_def by blast+
  show ?thesis
    by (rule write_projections_inv)
      (auto simp: governing_def n project_policy_def project_manifest_def project_enroll_root_def project_retire_root_def
        project_stream_resume_def intro: projection_keeps yields_rules(2))
qed

lemma append_not_governing:
  assumes "append_envelope x plan st = Inr (st', a)" and "\<not> governs plan"
  shows "governing st' = governing st"
proof (cases "envelope_by_id st (ap_id plan)")
  case None
  with assms(1) obtain s1 s2 s3 where s: "record_gate_use plan st = Inr s1" "insert_envelope plan s1 = Inr s2"
    "write_projections x plan (store_payloads plan s2) = Inr s3" "st' = touch_stream plan s3"
    by (auto simp: append_envelope_def append_fresh_eq)
  obtain p q where "store_payloads plan s2 = s2\<lparr>payloads := p, payload_refs := payload_refs s2 @ q\<rparr>"
    using store_payloads_frame by blast
  then have "governing (store_payloads plan s2) = governing s2" by (simp add: governing_def)
  moreover have "governing s1 = governing st"
    using yieldsD [OF record_gate_use_frame s(1)] by (cases s1) (auto simp: governing_def)
  moreover have "governing s2 = governing s1" using s(2) by (auto simp: insert_envelope_eq governing_def)
  moreover have "governing s3 = governing (store_payloads plan s2)"
    using yieldsD [OF projections_not_governing [OF assms(2)] s(3)] .
  moreover have "governing st' = governing s3" by (simp add: s(4) governing_def touch_stream_def Let_def)
  ultimately show ?thesis by simp
qed (use assms in \<open>auto simp: append_envelope_def\<close>)

end
