(* ===== verification/Ceremony.thy ===== *)
theory Ceremony
  imports Ingest Authority
begin

text \<open>
  A concrete deployment, for the witnesses of the intake: one enrolled root, the two envelopes of the ceremony as they
  are sent, the externals they are read, signed and hashed with, and the store after each of them.
\<close>

section \<open>Signing and hashing\<close>

text \<open>A hash and a signature that tell the objects of the ceremony apart by how they begin: the first 32 octets, padded.\<close>

fun head_octets :: "string \<Rightarrow> string \<Rightarrow> string" where
  "head_octets [] s = []"
| "head_octets (p # ds) [] = p # head_octets ds []"
| "head_octets (p # ds) (c # s) = c # head_octets ds s"

lemma length_head_octets [simp]: "length (head_octets ds s) = length ds"
  by (induction ds s rule: head_octets.induct) simp_all

fun begins :: "string \<Rightarrow> string \<Rightarrow> bool" where
  "begins [] s \<longleftrightarrow> True"
| "begins (p # ps) [] \<longleftrightarrow> False"
| "begins (p # ps) (c # s) \<longleftrightarrow> c = p \<and> begins ps s"

section \<open>The two envelopes\<close>

definition boot_mandate :: json where
  "boot_mandate =
     JObject [(''grantee'', JObject [(''key'', JString agent_key), (''subject'', JString ''agent:boot'')]),
     (''grantor'', JObject [(''key'', JString demo_key), (''role'', JString ''human''),
     (''subject'', JString ''human:h'')]), (''issued-at'', JString ''2026-07-26T09:00:00.000Z''),
     (''kind'', JString ''mandate''), (''mandate-kind'', JString ''interactive''), (''max-depth'', demo_num 0),
     (''nonce'', JString ''00000000000000000000000000000000''),
     (''not-after'', JString ''2026-07-26T10:00:00.000Z''), (''not-before'', JString ''2026-07-26T09:00:00.000Z''),
     (''parent'', JNull), (''scope'', JObject [(''actions'', JArray [JString ''*'']),
     (''classes'', JArray [JString ''consequential'']), (''components'', JArray [JString ''*'']),
     (''resources'', JArray [JString ''*''])]), (''sig'', JObject [(''alg'', JString ''ed25519''),
     (''key'', JString demo_key),
     (''value'', JString ''66666666666666666666666666666666666666666666666666666666666666667b226772616e746565223a7b226b6579223a22656432353531393a3635363536'')]),
     (''v'', JString version)]"

definition boot_grant :: json where
  "boot_grant =
     JObject [(''emitted-at'', JString ''2026-07-26T09:01:00.000Z''),
     (''identity'', JObject [(''component'', JString ''kernel''), (''key'', JString demo_key),
     (''subject'', JString ''human:h'')]), (''kind'', JString ''mandate''), (''mandate'', boot_mandate),
     (''prev-hash'', JNull), (''seq'', demo_num 0), (''sig'', JObject [(''alg'', JString ''ed25519''),
     (''key'', JString demo_key),
     (''value'', JString ''66666666666666666666666666666666666666666666666666666666666666667b22656d69747465642d6174223a22323032362d30372d32365430393a30313a'')]),
     (''stream'', JString ''kernel:core''), (''v'', JString version)]"

definition boot_policy :: json where
  "boot_policy =
     JObject [(''aggregate-max-window'', JString ''PT5M''), (''budgets'', JNull),
     (''checkpoint-interval'', JString ''PT1H''), (''classification'', JObject [(''by-action'', JObject []),
     (''default-unknown'', JString ''consequential''), (''reclassify'', JArray [])]),
     (''delegation'', JObject [(''max-depth'', demo_num 3), (''max-standing-lifetime'', JString ''P90D'')]),
     (''evidence-ttl'', JObject [(''benign'', JString ''P30D''), (''consequential'', JString ''P9D''),
     (''prohibited'', JString ''P9D''), (''read'', JString ''P0D'')]),
     (''gate-rules'', JArray [JObject [(''approvers'', JArray [JString ''human:h'']),
     (''classes'', JArray [JString ''consequential'']), (''decision'', JString ''gate'')]]),
     (''issued-at'', JString ''2026-01-01T00:00:00.000Z''), (''kind'', JString ''policy''),
     (''max-staleness-seconds'', demo_num 3), (''offline'', JObject []), (''policy-version'', JString ''1''),
     (''profile'', JString ''p''), (''revoke-cached'', JBool False),
     (''sig'', JObject [(''alg'', JString ''ed25519''), (''key'', JString demo_key),
     (''value'', JString ''66666666666666666666666666666666666666666666666666666666666666667b226167677265676174652d6d61782d77696e646f77223a225054354d222c22'')]),
     (''v'', JString version)]"

definition boot_request :: json where
  "boot_request =
     JObject [(''action'', JString ''kernel.publish_policy''),
     (''args-hash'', JString ''7b226167677265676174652d6d61782d77696e646f77223a225054354d222c22''),
     (''classification'', JString ''consequential''), (''component'', JString ''kernel''),
     (''key'', JString agent_key), (''kind'', JString ''action-request''),
     (''mandate-ref'', JString ''7b226772616e746565223a7b226b6579223a22656432353531393a3635363536''),
     (''nonce'', JString ''00000000000000000000000000000001''),
     (''not-after'', JString ''2026-07-26T09:30:00.000Z''), (''policy-version'', JString ''1''),
     (''requested-at'', JString ''2026-07-26T09:02:00.000Z''), (''subject'', JString ''agent:boot''),
     (''target'', JString ''policy:1''), (''v'', JString version)]"

definition boot_decision :: json where
  "boot_decision =
     JObject [(''decided-at'', JString ''2026-07-26T09:03:00.000Z''), (''decision'', JString ''approve''),
     (''kind'', JString ''gate-decision''), (''not-after'', JString ''2026-07-26T09:20:00.000Z''),
     (''request-hash'', JString ''7b22616374696f6e223a226b65726e656c2e7075626c6973685f706f6c696379''),
     (''sig'', JObject [(''alg'', JString ''ed25519''), (''key'', JString demo_key),
     (''value'', JString ''66666666666666666666666666666666666666666666666666666666666666667b22646563696465642d6174223a22323032362d30372d32365430393a30333a'')]),
     (''v'', JString version)]"

definition boot_change :: json where
  "boot_change =
     JObject [(''authorization'', JObject [(''decision'', boot_decision), (''request'', boot_request)]),
     (''classification'', JString ''consequential''), (''emitted-at'', JString ''2026-07-26T09:04:00.000Z''),
     (''evidence'', JObject [(''media-type'', JString ''application/json''),
     (''payload-hash'', JString ''7b226167677265676174652d6d61782d77696e646f77223a225054354d222c22''),
     (''retain-until'', JString ''2036-07-26T00:00:00.000Z''), (''schema'', JString ''s'')]),
     (''execution'', JObject [(''action'', JString ''kernel.publish_policy''),
     (''args-hash'', JString ''7b226167677265676174652d6d61782d77696e646f77223a225054354d222c22''),
     (''finished-at'', JString ''2026-07-26T09:04:00.000Z''), (''outcome'', JString ''applied''),
     (''started-at'', JString ''2026-07-26T09:04:00.000Z''), (''target'', JString ''policy:1'')]),
     (''identity'', JObject [(''component'', JString ''kernel''), (''key'', JString agent_key),
     (''subject'', JString ''agent:boot'')]), (''kind'', JString ''policy-change''),
     (''mandate-ref'', JString ''7b226772616e746565223a7b226b6579223a22656432353531393a3635363536''),
     (''policy-version'', JString ''1''),
     (''prev-hash'', JString ''7b22656d69747465642d6174223a22323032362d30372d32365430393a30313a''),
     (''seq'', demo_num 1), (''sig'', JObject [(''alg'', JString ''ed25519''), (''key'', JString agent_key),
     (''value'', JString ''65656565656565656565656565656565656565656565656565656565656565657b22617574686f72697a6174696f6e223a7b226465636973696f6e223a7b2264'')]),
     (''stream'', JString ''kernel:core''), (''v'', JString version)]"

definition boot_payload :: json where
  "boot_payload = JObject [(''media-type'', JString ''application/json''), (''payload'', boot_policy), (''payload-hash'', JString ''7b226167677265676174652d6d61782d77696e646f77223a225054354d222c22'')]"

definition request_of :: "json \<Rightarrow> json list \<Rightarrow> json" where
  "request_of env sent = JObject [(''envelope'', env), (''payloads'', JArray sent)]"

text \<open>Their identifiers and canonical texts.\<close>

definition mandate_id :: string where "mandate_id = ''7b226772616e746565223a7b226b6579223a22656432353531393a3635363536''"
definition grant_id :: string where "grant_id = ''7b22656d69747465642d6174223a22323032362d30372d32365430393a30313a''"
definition policy_id :: string where "policy_id = ''7b226167677265676174652d6d61782d77696e646f77223a225054354d222c22''"
definition request_id :: string where "request_id = ''7b22616374696f6e223a226b65726e656c2e7075626c6973685f706f6c696379''"
definition change_id :: string where "change_id = ''7b22617574686f72697a6174696f6e223a7b226465636973696f6e223a7b2264''"

definition mandate_text :: string where
  "mandate_text = ''{\"grantee\":{\"key\":\"ed25519:6565656565656565656565656565656565656565656565656565656565656565\",\"subject\":\"agent:boot\"},\"grantor\":{\"key\":\"ed25519:6666666666666666666666666666666666666666666666666666666666666666\",\"role\":\"human\",\"subject\":\"human:h\"},\"issued-at\":\"2026-07-26T09:00:00.000Z\",\"kind\":\"mandate\",\"mandate-kind\":\"interactive\",\"max-depth\":0,\"nonce\":\"00000000000000000000000000000000\",\"not-after\":\"2026-07-26T10:00:00.000Z\",\"not-before\":\"2026-07-26T09:00:00.000Z\",\"parent\":null,\"scope\":{\"actions\":[\"*\"],\"classes\":[\"consequential\"],\"components\":[\"*\"],\"resources\":[\"*\"]},\"sig\":{\"alg\":\"ed25519\",\"key\":\"ed25519:6666666666666666666666666666666666666666666666666666666666666666\",\"value\":\"66666666666666666666666666666666666666666666666666666666666666667b226772616e746565223a7b226b6579223a22656432353531393a3635363536\"},\"v\":\"stozher/0.1\"}''"

definition grant_text :: string where
  "grant_text = ''{\"emitted-at\":\"2026-07-26T09:01:00.000Z\",\"identity\":{\"component\":\"kernel\",\"key\":\"ed25519:6666666666666666666666666666666666666666666666666666666666666666\",\"subject\":\"human:h\"},\"kind\":\"mandate\",\"mandate\":{\"grantee\":{\"key\":\"ed25519:6565656565656565656565656565656565656565656565656565656565656565\",\"subject\":\"agent:boot\"},\"grantor\":{\"key\":\"ed25519:6666666666666666666666666666666666666666666666666666666666666666\",\"role\":\"human\",\"subject\":\"human:h\"},\"issued-at\":\"2026-07-26T09:00:00.000Z\",\"kind\":\"mandate\",\"mandate-kind\":\"interactive\",\"max-depth\":0,\"nonce\":\"00000000000000000000000000000000\",\"not-after\":\"2026-07-26T10:00:00.000Z\",\"not-before\":\"2026-07-26T09:00:00.000Z\",\"parent\":null,\"scope\":{\"actions\":[\"*\"],\"classes\":[\"consequential\"],\"components\":[\"*\"],\"resources\":[\"*\"]},\"sig\":{\"alg\":\"ed25519\",\"key\":\"ed25519:6666666666666666666666666666666666666666666666666666666666666666\",\"value\":\"66666666666666666666666666666666666666666666666666666666666666667b226772616e746565223a7b226b6579223a22656432353531393a3635363536\"},\"v\":\"stozher/0.1\"},\"prev-hash\":null,\"seq\":0,\"sig\":{\"alg\":\"ed25519\",\"key\":\"ed25519:6666666666666666666666666666666666666666666666666666666666666666\",\"value\":\"66666666666666666666666666666666666666666666666666666666666666667b22656d69747465642d6174223a22323032362d30372d32365430393a30313a\"},\"stream\":\"kernel:core\",\"v\":\"stozher/0.1\"}''"

text \<open>The parser knows the values of the ceremony by how their texts begin; the two requests are sent under short names.\<close>

definition boot_texts :: "(string \<times> json) list" where
  "boot_texts =
     [(''grant'', request_of boot_grant []), (''change'', request_of boot_change [boot_payload]),
      (''{\"emitted'', boot_grant), (''{\"authorization'', boot_change), (''{\"grantee'', boot_mandate),
      (''{\"aggregate'', boot_policy)]"

definition known_text :: "string \<Rightarrow> json option" where
  "known_text t = map_option snd (List.find (\<lambda>kv. begins (fst kv) t) boot_texts)"

definition boot_ext :: ext where
  "boot_ext = demo_ext
     \<lparr>sha256 := head_octets zeros, vk_verify_strict := (\<lambda>pk m s. s = pk @ head_octets zeros m),
      ed_sign := (\<lambda>sk m. last_octets zeros sk @ head_octets zeros m),
      strict_parse := (\<lambda>t. case known_text t of Some v \<Rightarrow> Inr v | None \<Rightarrow> Inl OtherFailure)\<rparr>"

definition boot_config :: intake where
  "boot_config = \<lparr>in_secret = ''kkkkkkkkkkkkkkkkkkkkkkkkkkkkkkkk'', in_policy_key = KeyId demo_key, in_max_future_skew = 300,
                  in_core_stream = ''kernel:core''\<rparr>"

definition boot_reading :: reading where
  "boot_reading = \<lparr>from_str = known_text, detail_of = (\<lambda>_ _. ''detail'')\<rparr>"

definition text_of :: "json \<Rightarrow> string" where
  "text_of v = (case canonicalize boot_ext v of Inr s \<Rightarrow> s | Inl _ \<Rightarrow> [])"

section \<open>The stores\<close>

definition boot_store :: store where
  "boot_store = seed_configured_root (KeyId demo_key) ''human:h'' ''2026-01-01T00:00:00.000Z'' (empty_store ''kernel:rejections'')"

definition grant_plan :: append_plan where
  "grant_plan =
     (blank_plan boot_grant grant_id grant_text ''2026-07-26T09:01:01.000Z'')
       \<lparr>ap_projections := no_projections\<lparr>pj_mandate := Some (mandate_id, boot_mandate)\<rparr>\<rparr>"

definition grant_row :: envelope_row where
  "grant_row = (case envelope_row_of grant_plan of Inr r \<Rightarrow> r)"

definition boot_mandate_row :: mandate_row where
  "boot_mandate_row =
     \<lparr>mr_id = mandate_id, mr_parent = None, mr_kind = ''interactive'', mr_grantor_key = demo_key, mr_grantee_key = agent_key,
      mr_grantee_subject = ''agent:boot'', mr_not_before = ''2026-07-26T09:00:00.000Z'',
      mr_not_after = ''2026-07-26T10:00:00.000Z'', mr_document_json = mandate_text, mr_envelope_id = grant_id\<rparr>"

definition core_row :: "nat \<Rightarrow> string \<Rightarrow> string \<Rightarrow> stream_row" where
  "core_row n head now =
     \<lparr>sr_stream = ''kernel:core'', sr_kind = ''effect'', sr_head_seq = n, sr_head_hash = head,
      sr_first_seen_at = ''2026-07-26T09:01:01.000Z'', sr_last_appended_at = now\<rparr>"

definition granted_store :: store where
  "granted_store = boot_store
     \<lparr>envelopes := [grant_row], streams := [core_row 0 grant_id ''2026-07-26T09:01:01.000Z''], mandate_rows := [boot_mandate_row]\<rparr>"

definition change_plan :: append_plan where
  "change_plan =
     (blank_plan boot_change change_id (text_of boot_change) ''2026-07-26T09:04:01.000Z'')
       \<lparr>ap_human_root := Some ''human:h'', ap_effective_class := Some ''consequential'',
        ap_gate_use := Some \<lparr>us_request_hash = request_id, us_decided_by = demo_key, us_single_use = True,
                              us_not_after = ''2026-07-26T09:20:00.000Z''\<rparr>,
        ap_projections := no_projections\<lparr>pj_policy := Some (''1'', boot_policy, policy_id)\<rparr>\<rparr>"

definition change_row :: envelope_row where
  "change_row = (case envelope_row_of change_plan of Inr r \<Rightarrow> r)"

definition boot_policy_row :: policy_row where
  "boot_policy_row =
     \<lparr>pr_version = ''1'', pr_document_hash = policy_id, pr_document_json = text_of boot_policy, pr_published_by = ''agent:boot'',
      pr_envelope_id = change_id, pr_published_at = ''2026-07-26T09:04:01.000Z'', pr_ordinal = 1\<rparr>"

definition published_store :: store where
  "published_store = granted_store
     \<lparr>envelopes := [grant_row, change_row], streams := [core_row 1 change_id ''2026-07-26T09:04:01.000Z''],
      gate_uses := [\<lparr>gu_request_hash = request_id, gu_envelope_id = change_id, gu_decided_by = demo_key, gu_single_use = True,
                     gu_not_after = ''2026-07-26T09:20:00.000Z'', gu_recorded_at = ''2026-07-26T09:04:01.000Z''\<rparr>],
      policies := [boot_policy_row], counters := (counters granted_store)(''policy-ordinal'' \<mapsto> 1)\<rparr>"

section \<open>Every check of the two submissions\<close>


lemma text_ofI: "(case canonicalize boot_ext v of Inr _ \<Rightarrow> True | Inl _ \<Rightarrow> False) \<Longrightarrow> canonicalize boot_ext v = Inr (text_of v)"
  by (auto simp: text_of_def split: sum.splits)

lemma canon_mandate: "canonicalize boot_ext boot_mandate = Inr mandate_text" by code_simp
lemma canon_grant: "canonicalize boot_ext boot_grant = Inr grant_text" by code_simp
lemma canon_policy: "canonicalize boot_ext boot_policy = Inr (text_of boot_policy)" by (rule text_ofI) code_simp
lemma canon_change: "canonicalize boot_ext boot_change = Inr (text_of boot_change)" by (rule text_ofI) code_simp
lemma id_grant: "object_id boot_ext boot_grant = Inr grant_id" by code_simp
lemma id_change: "object_id boot_ext boot_change = Inr change_id" by code_simp
lemma hash_policy: "object_hash boot_ext boot_policy = Inr policy_id" by code_simp
lemma signed_grant: "verify_signed_object boot_ext boot_grant = Inr (KeyId demo_key)" by code_simp
lemma signed_change: "verify_signed_object boot_ext boot_change = Inr (KeyId agent_key)" by code_simp
lemma valid_grant: "validate boot_ext boot_grant = Inr ()" by code_simp
lemma valid_change: "validate boot_ext boot_change = Inr ()" by code_simp
lemma read_grant: "parse_raw boot_ext ''grant'' = Inr (request_of boot_grant [])" by code_simp
lemma read_change: "parse_raw boot_ext ''change'' = Inr (request_of boot_change [boot_payload])" by code_simp
lemma bound_grant: "case verify_ingest boot_ext boot_grant [] of Inr _ \<Rightarrow> True | Inl _ \<Rightarrow> False" by code_simp
lemma bound_change: "case verify_ingest boot_ext boot_change [boot_payload] of Inr _ \<Rightarrow> True | Inl _ \<Rightarrow> False" by code_simp
lemma horizons: "shift ''2026-07-26T09:01:01.000Z'' 300 = Inr ''2026-07-26T09:06:01.000Z''"
  "shift ''2026-07-26T09:04:01.000Z'' 300 = Inr ''2026-07-26T09:09:01.000Z''" by code_simp+


lemma decide_grant:
  "decide_envelope boot_ext boot_config boot_store boot_grant [] (KeyId demo_key)
     (blank_plan boot_grant grant_id grant_text ''2026-07-26T09:01:01.000Z'') = Inr grant_plan" by code_simp

lemma parsed_policy:
  "case parse_policy boot_ext boot_policy (KeyId demo_key) of
     Inr p \<Rightarrow> policy_version p = ''1'' \<and> document_hash p = policy_id | Inl _ \<Rightarrow> False" by code_simp

lemma change_roots: "roots_at boot_ext granted_store ''2026-07-26T09:04:00.000Z'' = Inr [(KeyId demo_key, ''human:h'')]" by code_simp

lemma change_walk:
  "walk_mandate_with_depth boot_ext granted_store boot_change [KeyId demo_key] (KeyId agent_key) ''2026-07-26T09:04:00.000Z'' 3
     \<lparr>component = ''kernel'', action = ''kernel.publish_policy'', classification = ''consequential'', resource = ''policy:1''\<rparr>
   = Inr ''human:h''" by code_simp

lemma change_approved:
  "verify_authorization boot_ext boot_change True [named (KeyId demo_key) ''human:h''] {}
   = Inr (Some \<lparr>request_hash = request_id, decided_by = KeyId demo_key, single_use = True\<rparr>)" by code_simp

lemma request_parts:
  "as_object (request_of e sent) = Some [(''envelope'', e), (''payloads'', JArray sent)]"
  "only_members [''envelope'', ''payloads''] [(''envelope'', e), (''payloads'', JArray sent)] = Inr ()"
  "get (request_of e sent) ''envelope'' = Some e" "request_payloads (request_of e sent) = Inr sent"
  by (simp_all add: request_of_def request_payloads_def get_def only_members_def)

lemma grant_texts:
  "str_or_empty (index boot_grant ''emitted-at'') = ''2026-07-26T09:01:00.000Z''" 
  "str_or_empty (index boot_change ''emitted-at'') = ''2026-07-26T09:04:00.000Z''"
  by code_simp+

lemma grant_fresh:
  "validate_submission boot_ext boot_config boot_store ''2026-07-26T09:01:01.000Z'' ''grant'' = Inr (Fresh grant_plan)"
proof -
  have "envelope_by_id boot_store grant_id = None"
    by (simp add: boot_store_def envelope_by_id_def seed_configured_root_def enroll_def empty_store_def)
  moreover have "\<not> ''2026-07-26T09:01:00.000Z'' > ''2026-07-26T09:06:01.000Z''" by code_simp
  moreover obtain q where "verify_ingest boot_ext boot_grant [] = Inr q" using bound_grant by (auto split: sum.splits)
  moreover have "in_max_future_skew boot_config = 300" by (simp add: boot_config_def)
  ultimately show ?thesis
    by (simp add: validate_submission_def read_grant request_parts validate_envelope_def id_grant canon_grant signed_grant
        valid_grant horizons grant_texts decide_grant del: and_then_eq_Inr)
qed

lemma change_documents:
  "args_hash_of boot_change = Inr policy_id" "payload_under [boot_payload] policy_id = Some boot_policy"
  "as_str (index (index boot_change ''execution'') ''target'') = Some (''policy:'' @ ''1'')"
  by code_simp+

lemma granted_rows:
  "policies granted_store = []" "envelope_by_id granted_store change_id = None" "mandate_rows granted_store = [boot_mandate_row]"
  by (simp_all add: granted_store_def boot_store_def envelope_by_id_def seed_configured_root_def enroll_def empty_store_def) code_simp

lemma change_policy:
  "validate_policy_change boot_ext boot_config granted_store boot_change [boot_payload] plan
   = Inr (with_projections (\<lambda>p. p\<lparr>pj_policy := Some (''1'', boot_policy, policy_id)\<rparr>) plan)"
proof -
  obtain p where "parse_policy boot_ext boot_policy (KeyId demo_key) = Inr p" "policy_version p = ''1''" "document_hash p = policy_id"
    using parsed_policy by (auto split: sum.splits)
  moreover have "in_policy_key boot_config = KeyId demo_key" by (simp add: boot_config_def)
  ultimately show ?thesis
    by (simp add: validate_policy_change_def change_documents hash_policy policy_version_exists_def granted_rows del: and_then_eq_Inr)
qed

lemma change_is_genesis:
  "as_str (index boot_change ''stream'') = Some (in_core_stream boot_config)" "str_or_empty (index boot_change ''kind'') = ''policy-change''"
  "as_u64 (index boot_change ''seq'') = Some 1" "str_or_empty (index boot_change ''classification'') = ''consequential''"
  "str_or_empty (index (index boot_change ''identity'') ''component'') = ''kernel''"
  "execution_text boot_change ''action'' = ''kernel.publish_policy''" "execution_text boot_change ''target'' = ''policy:1''"
  "as_str (index (index (index boot_change ''authorization'') ''decision'') ''not-after'') = Some ''2026-07-26T09:20:00.000Z''"
  by code_simp+

lemma decide_change:
  "decide_envelope boot_ext boot_config granted_store boot_change [boot_payload] (KeyId agent_key)
     (blank_plan boot_change change_id (text_of boot_change) ''2026-07-26T09:04:01.000Z'') = Inr change_plan"
proof -
  have "policy_in_force boot_ext boot_config granted_store = Inr None"
    by (simp add: policy_in_force_def current_policy_def granted_rows parse_optional_def)
  moreover have "root_approvers boot_ext granted_store ''2026-07-26T09:04:00.000Z'' = Inr [named (KeyId demo_key) ''human:h'']"
    by (simp add: root_approvers_def change_roots)
  ultimately show ?thesis
    by (simp add: decide_envelope_def grant_texts change_roots validate_genesis_def change_is_genesis change_policy change_walk
        change_approved use_of_def with_projections_def change_plan_def blank_plan_def del: and_then_eq_Inr)
qed

lemma change_fresh:
  "validate_submission boot_ext boot_config granted_store ''2026-07-26T09:04:01.000Z'' ''change'' = Inr (Fresh change_plan)"
proof -
  have "\<not> ''2026-07-26T09:04:00.000Z'' > ''2026-07-26T09:09:01.000Z''" by code_simp
  moreover obtain q where "verify_ingest boot_ext boot_change [boot_payload] = Inr q" using bound_change by (auto split: sum.splits)
  moreover have "in_max_future_skew boot_config = 300" by (simp add: boot_config_def)
  ultimately show ?thesis
    by (simp add: validate_submission_def read_change request_parts validate_envelope_def id_change canon_change signed_change
        valid_change horizons grant_texts granted_rows decide_change del: and_then_eq_Inr)
qed


section \<open>The two appends\<close>

lemma plan_positions:
  "stream_of grant_plan = ''kernel:core''" "seq_of_plan grant_plan = 0" "claimed_prev grant_plan = None"
  "stream_of change_plan = ''kernel:core''" "seq_of_plan change_plan = 1" "claimed_prev change_plan = Some grant_id"
  by code_simp+

lemma boot_kinds: "str_or_empty (index boot_grant ''kind'') \<noteq> ''signal''" "str_or_empty (index boot_change ''kind'') \<noteq> ''signal''"
  by code_simp+

lemma grant_plan_fields:
  "ap_id grant_plan = grant_id" "ap_stream_kind grant_plan = ''effect''" "ap_gate_use grant_plan = None" "ap_payloads grant_plan = []"
  "ap_spend grant_plan = None" "ap_received_at grant_plan = ''2026-07-26T09:01:01.000Z''"
  "ap_projections grant_plan = no_projections\<lparr>pj_mandate := Some (mandate_id, boot_mandate)\<rparr>"
  by (simp_all add: grant_plan_def blank_plan_def boot_kinds)

lemma change_plan_fields:
  "ap_id change_plan = change_id" "ap_stream_kind change_plan = ''effect''" "ap_payloads change_plan = []"
  "ap_gate_use change_plan = Some \<lparr>us_request_hash = request_id, us_decided_by = demo_key, us_single_use = True,
                              us_not_after = ''2026-07-26T09:20:00.000Z''\<rparr>"
  "ap_spend change_plan = None" "ap_received_at change_plan = ''2026-07-26T09:04:01.000Z''" "ap_envelope change_plan = boot_change"
  "ap_projections change_plan = no_projections\<lparr>pj_policy := Some (''1'', boot_policy, policy_id)\<rparr>"
  by (simp_all add: change_plan_def blank_plan_def boot_kinds)

lemma boot_fields:
  "envelopes boot_store = []" "streams boot_store = []" "stream_resumes boot_store = []" "mandate_rows boot_store = []"
  "policies boot_store = []" "gate_uses boot_store = []" "counters boot_store = Map.empty"
  by (simp_all add: boot_store_def seed_configured_root_def enroll_def empty_store_def)

lemma two_ids: "grant_id \<noteq> change_id" by code_simp

lemma grant_row_eq: "envelope_row_of grant_plan = Inr grant_row"
proof -
  have "case envelope_row_of grant_plan of Inr _ \<Rightarrow> True | Inl _ \<Rightarrow> False" by code_simp
  then show ?thesis by (auto simp: grant_row_def split: sum.splits)
qed

lemma change_row_eq: "envelope_row_of change_plan = Inr change_row"
proof -
  have m: "as_str (index boot_change ''kind'') = Some ''policy-change''" "as_str (index (index boot_change ''identity'') ''subject'') = Some ''agent:boot''"
    "as_str (index (index boot_change ''identity'') ''key'') = Some agent_key" "as_str (index (index boot_change ''identity'') ''component'') = Some ''kernel''"
    "as_str (index boot_change ''emitted-at'') = Some ''2026-07-26T09:04:00.000Z''"
    by code_simp+
  then have "case envelope_row_of change_plan of Inr _ \<Rightarrow> True | Inl _ \<Rightarrow> False"
    by (simp add: envelope_row_of_def change_plan_fields Let_def not_null_def)
  then show ?thesis by (auto simp: change_row_def split: sum.splits)
qed

lemma row_facts:
  "er_stream grant_row = ''kernel:core''" "er_seq grant_row = 0" "er_id grant_row = grant_id"
  "er_stream change_row = ''kernel:core''" "er_seq change_row = 1" "er_id change_row = change_id"
  using yieldsD [OF envelope_row_facts grant_row_eq] yieldsD [OF envelope_row_facts change_row_eq]
  by (simp_all add: plan_positions seq_column_def grant_plan_fields change_plan_fields)

lemma grant_projected:
  "not_null (as_str (index boot_mandate ''mandate-kind'')) = Inr ''interactive''"
  "not_null (as_str (index (index boot_mandate ''grantor'') ''key'')) = Inr demo_key"
  "not_null (as_str (index (index boot_mandate ''grantee'') ''key'')) = Inr agent_key"
  "not_null (as_str (index (index boot_mandate ''grantee'') ''subject'')) = Inr ''agent:boot''"
  "not_null (as_str (index boot_mandate ''not-before'')) = Inr ''2026-07-26T09:00:00.000Z''"
  "not_null (as_str (index boot_mandate ''not-after'')) = Inr ''2026-07-26T10:00:00.000Z''"
  "as_str (index boot_mandate ''parent'') = None"
  "not_null (as_str (index (index boot_change ''identity'') ''subject'')) = Inr ''agent:boot''"
  by code_simp+

lemmas append_defs = append_envelope_def append_fresh_def check_stream_kind_def check_position_def bridge_of_def stream_head_def
  of_stream_def stream_kind_def envelope_by_id_def record_gate_use_def gate_use_of_def insert_envelope_def extends_chain_def
  store_payloads_def write_projections_def project_mandate_def project_revocation_def project_policy_def project_manifest_def
  project_enroll_root_def project_retire_root_def project_gate_decision_def project_stream_resume_def project_checkpoint_def
  project_spend_def touch_stream_def next_counter_def seq_column_def no_projections_def core_row_def

lemma grant_appended:
  "append_envelope boot_ext grant_plan boot_store
   = Inr (granted_store, \<lparr>ad_id = grant_id, ad_stream = ''kernel:core'', ad_seq = 0, ad_idempotent = False\<rparr>)"
  by (simp add: append_defs plan_positions grant_row_eq row_facts Let_def grant_plan_fields boot_fields canon_mandate grant_projected
      granted_store_def boot_mandate_row_def del: and_then_eq_Inr)

lemma change_appended:
  "append_envelope boot_ext change_plan granted_store
   = Inr (published_store, \<lparr>ad_id = change_id, ad_stream = ''kernel:core'', ad_seq = 1, ad_idempotent = False\<rparr>)"
  by (simp add: append_defs plan_positions change_row_eq row_facts Let_def change_plan_fields boot_fields canon_policy grant_projected
      granted_store_def published_store_def boot_policy_row_def two_ids two_ids [symmetric] del: and_then_eq_Inr)

end
