(* ===== verification/Governance.thy ===== *)
theory Governance
  imports Admission Ceremony
begin

text \<open>
  What the intake guarantees of a deployment: that the ceremony brings a policy into force, and that afterwards nothing that
  governs changes without a root's signature on exactly that change.
\<close>

section \<open>The ceremony\<close>

lemma grant_answer:
  "submit boot_ext boot_config boot_reading ''2026-07-26T09:01:01.000Z'' ''grant'' who boot_store boot_store
   = (granted_store, Accepted \<lparr>ad_id = grant_id, ad_stream = ''kernel:core'', ad_seq = 0, ad_idempotent = False\<rparr>)"
  by (simp add: submit_def grant_fresh grant_appended)

lemma change_answer:
  "submit boot_ext boot_config boot_reading ''2026-07-26T09:04:01.000Z'' ''change'' who granted_store granted_store
   = (published_store, Accepted \<lparr>ad_id = change_id, ad_stream = ''kernel:core'', ad_seq = 1, ad_idempotent = False\<rparr>)"
  by (simp add: submit_def change_fresh change_appended)

lemma policy_read_back: "parse boot_ext (text_of boot_policy) = Inr boot_policy"
  by code_simp

lemma published_policy: "policy_in_force boot_ext boot_config published_store = Inr (Some boot_policy)"
proof -
  obtain p where p: "parse_policy boot_ext boot_policy (KeyId demo_key) = Inr p" using parsed_policy by (auto split: sum.splits)
  with parse_policy_facts have "document p = boot_policy" by metis
  with p show ?thesis
    by (simp add: policy_in_force_def current_policy_def published_store_def parse_optional_def boot_policy_row_def
        policy_read_back boot_config_def)
qed


section \<open>Changes to what governs\<close>

text \<open>A root's approval of exactly this envelope, under the hash of the request it approved.\<close>

definition root_signed :: "ext \<Rightarrow> store \<Rightarrow> json \<Rightarrow> string \<Rightarrow> bool" where
  "root_signed x st env h \<longleftrightarrow>
     (\<exists>request decision k name.
        Option.bind (get env ''authorization'') (\<lambda>a. get a ''request'') = Some request
        \<and> Option.bind (get env ''authorization'') (\<lambda>a. get a ''decision'') = Some decision
        \<and> object_hash x request = Inr h \<and> same_effect env request
        \<and> verify_signed_object x decision = Inr k \<and> get_str decision ''request-hash'' = Some h
        \<and> get_str decision ''decision'' = Some ''approve'' \<and> in_window env request decision
        \<and> root_at x st (str_or_empty (index env ''emitted-at'')) k name
        \<and> get_str request ''subject'' \<noteq> Some name \<and> get_str request ''key'' \<noteq> Some (as_string k))"

lemma authorization_root_signed:
  assumes "root_approvers x st (str_or_empty (index env ''emitted-at'')) = Inr permitted"
    and "verify_authorization x env True permitted seen = Inr (Some ok)"
  shows "root_signed x st env (request_hash ok)"
proof -
  from assms(2) obtain a where a: "get env ''authorization'' = Some a" by (auto simp: verify_authorization_eq split: option.splits)
  with assms(2) obtain request decision h k where p: "get a ''request'' = Some request" "get a ''decision'' = Some decision"
    "approval x permitted env request decision h k" "ok = \<lparr>request_hash = h, decided_by = k, single_use = (\<not> reusable decision)\<rparr>"
    by (auto simp: verify_authorization_eq)
  from p(3) have "impartial permitted request k" by (simp add: approval_def)
  from root_speaks [OF assms(1) this] p a show ?thesis unfolding root_signed_def approval_def by fastforce
qed

lemma recorded_use:
  assumes "append_fresh x plan s = Inr s'" and "ap_gate_use plan = Some use"
  shows "us_request_hash use \<in> gu_request_hash ` set (gate_uses s')"
proof -
  from append_later [OF assms(1)] obtain s1 s2 where st: "record_gate_use plan s = Inr s1" "insert_envelope plan s1 = Inr s2"
    "grows s2 s'" by blast
  from st(1) assms(2) have "us_request_hash use \<in> gu_request_hash ` set (gate_uses s1)"
    by (auto simp: record_gate_use_def gate_use_of_def split: option.splits if_splits intro: rev_image_eqI dest!: find_SomeD)
  moreover have "gate_uses s2 = gate_uses s1" using st(2) by (auto simp: insert_envelope_eq)
  moreover have "set (gate_uses s2) \<subseteq> set (gate_uses s')" using st(3) by (simp add: grows_def set_mono_prefix)
  ultimately show ?thesis by auto
qed

lemma fresh_row:
  assumes "append_fresh x plan s = Inr s'"
  shows "ap_id plan \<in> er_id ` set (envelopes s')"
proof -
  from append_later [OF assms] obtain s1 s2 where st: "insert_envelope plan s1 = Inr s2" "grows s2 s'" by blast
  from st(1) obtain row where "envelope_row_of plan = Inr row" "row \<in> set (envelopes s2)" by (auto simp: insert_envelope_eq)
  moreover from yieldsD [OF envelope_row_facts this(1)] have "er_id row = ap_id plan" by simp
  moreover have "set (envelopes s2) \<subseteq> set (envelopes s')" using st(2) by (simp add: grows_def set_mono_prefix)
  ultimately show ?thesis by (auto intro: rev_image_eqI)
qed

text \<open>C1: Nothing that governs changes without a root. Whatever is submitted, by whomever, when the policy, a manifest, the root
  set or a resume differs afterwards, then the submission was accepted as a new envelope that is valid and carries an
  authentic approval of exactly this effect, in time, by a key that was an enrolled root when the envelope was
  emitted, of a human who is not the requester; and the approval is recorded as used.\<close>

theorem governing_needs_root:
  assumes "submit x cfg rd received_at raw submitted_by seen st = (st', answer)" and "governing st' \<noteq> governing st"
  shows "\<exists>env i h a. answer = Accepted a \<and> \<not> ad_idempotent a \<and> object_id x env = Inr i \<and> validate x env = Inr ()
    \<and> envelope_by_id st i = None \<and> i \<in> er_id ` set (envelopes st')
    \<and> root_signed x seen env h \<and> h \<in> gu_request_hash ` set (gate_uses st')"
proof -
  have r: "\<exists>row. refuse_submission x cfg rd raw e submitted_by received_at cl st = (st', answer) \<longrightarrow> governing st' = governing st"
    for e cl
    using refuse_submission_cases [of x cfg rd raw e submitted_by received_at cl st] by (auto simp: governing_def)
  from assms r obtain plan a where f: "validate_submission x cfg seen received_at raw = Inr (Fresh plan)"
    "append_envelope x plan st = Inr (st', a)" "answer = Accepted a"
    by (auto simp: submit_def split: sum.splits validated.splits prod.splits)
  have g: "governs plan" using append_not_governing [OF f(2)] assms(2) by blast
  from f(1) obtain env sent signer i canon where e: "validate x env = Inr ()" "object_id x env = Inr i"
    "decide_envelope x cfg seen env sent signer (blank_plan env i canon received_at) = Inr plan"
    "same_record (blank_plan env i canon received_at) plan" by (rule fresh_facts)
  from decide_governs [OF blank_governs e(3) g] obtain permitted used ok where d:
    "root_approvers x seen (str_or_empty (index env ''emitted-at'')) = Inr permitted"
    "verify_authorization x env True permitted used = Inr (Some ok)" "ap_gate_use plan = Some (use_of env ok)" by blast
  have n: "envelope_by_id st (ap_id plan) = None"
    using f(2) assms(2) by (auto simp: append_envelope_def split: option.splits)
  then have new: "append_fresh x plan st = Inr st'" "\<not> ad_idempotent a" using f(2) by (auto simp: append_envelope_def)
  have i: "ap_id plan = i" using e(4) by (simp add: same_record_def blank_plan_def)
  show ?thesis
    using f(3) new(2) e(1,2) n i fresh_row [OF new(1)] authorization_root_signed [OF d(1,2)] recorded_use [OF new(1) d(3)]
    by (intro exI [of _ env] exI [of _ i] exI [of _ "request_hash ok"] exI [of _ a]) (simp add: use_of_def)
qed

theorem governing_needs_root_witness:
  "\<exists>env i h. object_id boot_ext env = Inr i \<and> validate boot_ext env = Inr () \<and> envelope_by_id granted_store i = None
     \<and> i \<in> er_id ` set (envelopes published_store)
     \<and> root_signed boot_ext granted_store env h \<and> h \<in> gu_request_hash ` set (gate_uses published_store)"
proof -
  have "governing published_store \<noteq> governing granted_store"
    by (simp add: governing_def published_store_def granted_rows)
  from governing_needs_root [OF change_answer [of None] this] show ?thesis by blast
qed

end
