(* ===== verification/Effects.thy ===== *)
theory Effects
  imports History Governance
begin

text \<open>
  What the intake guarantees of single submissions: acceptance is a step of the ledger's state machine, twins agree, a
  component cannot lower a class, and durable objects follow their table.
\<close>

section \<open>Acceptance is a step of the ledger\<close>

lemma accepted_step:
  assumes "submit x cfg rd received_at raw who seen st = (st', Accepted a)"
    and "\<And>plan. validate_submission x cfg seen received_at raw = Inr (Fresh plan) \<Longrightarrow> reads_back x (ap_envelope plan)"
  shows "st' = st \<or> step x st st'"
proof -
  have r: "refuse_submission x cfg rd raw e who received_at cl st \<noteq> (st', Accepted a)" for e cl
    using refuse_submission_cases [of x cfg rd raw e who received_at cl st] by auto
  show ?thesis
  proof (cases "validate_submission x cfg seen received_at raw")
    case (Inr v)
    show ?thesis
    proof (cases v)
      case (Fresh plan)
      with assms(1) Inr r have "append_envelope x plan st = Inr (st', a)" by (auto simp: submit_def split: sum.splits)
      moreover have "planned x plan" using fresh_planned [of x cfg seen received_at raw plan] assms(2) Inr Fresh by simp
      ultimately show ?thesis by (blast intro: step.append)
    qed (use assms(1) Inr in \<open>simp add: submit_def\<close>)
  qed (use assms(1) r in \<open>simp add: submit_def\<close>)
qed

text \<open>C22: The intake refines the ledger: every accepted submission, validated on whatever store its writer saw and appended to
  the store as it was by then, is a step of the ledger's state machine or leaves the store alone; so every store it
  leaves has all of the ledger's invariants, the stored rows among them being records of valid, signed envelopes
  under their identifiers.\<close>

theorem accepted_submission_is_step:
  assumes "reachable x st" and "submit x cfg rd received_at raw who seen st = (st', Accepted a)"
    and "\<And>plan. validate_submission x cfg seen received_at raw = Inr (Fresh plan) \<Longrightarrow> reads_back x (ap_envelope plan)"
  shows "(st' = st \<or> step x st st') \<and> reachable x st' \<and> chained st' \<and> recorded x st'"
proof -
  from accepted_step [OF assms(2,3)] have s: "st' = st \<or> step x st st'" .
  with assms(1) have "reachable x st'" by (auto intro: reachable_step)
  with s chained_reachable recorded_reachable show ?thesis by blast
qed

lemma grant_read_back: "reads_back boot_ext boot_grant"
proof -
  have "parse boot_ext grant_text = Inr boot_grant" by code_simp
  then show ?thesis by (simp add: reads_back_def canon_grant)
qed

lemma boot_reachable: "reachable boot_ext boot_store"
  unfolding boot_store_def by (rule reachable_step [OF reachable_empty step.seed])

theorem accepted_submission_is_step_witness:
  "reachable boot_ext granted_store \<and> chained granted_store \<and> envelopes granted_store = [grant_row]"
proof -
  have "reads_back boot_ext (ap_envelope plan)"
    if "validate_submission boot_ext boot_config boot_store ''2026-07-26T09:01:01.000Z'' ''grant'' = Inr (Fresh plan)" for plan
  proof -
    from that grant_fresh have "plan = grant_plan" by simp
    then show ?thesis by (simp add: grant_plan_def blank_plan_def grant_read_back)
  qed
  from accepted_submission_is_step [OF boot_reachable grant_answer this] show ?thesis by (simp add: granted_store_def)
qed

section \<open>Twins\<close>




section \<open>Classes\<close>

text \<open>The class the organization gives one request of the window.\<close>

definition class_of_request :: "json \<Rightarrow> string \<Rightarrow> json option \<Rightarrow> string \<times> string \<Rightarrow> string" where
  "class_of_request doc who manifest_doc r = classify doc
     \<lparr>subject = who, action_name = fst r, resource_name = snd r,
      manifest_class = Option.bind manifest_doc (\<lambda>m. proposed_class m (fst r))\<rparr>"

lemma stronger_eq:
  "stronger doc who m s r = (let c = class_of_request doc who m r in if s = [] \<or> class_weight c > class_weight s then c else s)"
  by (simp add: stronger_def class_of_request_def)

lemma class_nonempty: "c \<in> set classes \<Longrightarrow> c \<noteq> []"
  by (auto simp: classes_def)

lemma strongest_grows:
  assumes "\<forall>r \<in> set rs. class_of_request doc who m r \<in> set classes" and "s \<in> set classes"
  shows "class_weight s \<le> class_weight (foldl (stronger doc who m) s rs)"
  using assms
proof (induction rs arbitrary: s)
  case (Cons r rs)
  then have n: "stronger doc who m s r \<in> set classes" "class_weight s \<le> class_weight (stronger doc who m s r)"
    by (auto simp: stronger_eq Let_def dest: class_nonempty)
  with Cons have "class_weight (stronger doc who m s r) \<le> class_weight (foldl (stronger doc who m) (stronger doc who m s r) rs)"
    by simp
  with n(2) show ?case by simp
qed simp

lemma strongest_covers:
  assumes "\<forall>r \<in> set rs. class_of_request doc who m r \<in> set classes" and "r \<in> set rs" and "s = [] \<or> s \<in> set classes"
  shows "class_weight (class_of_request doc who m r) \<le> class_weight (foldl (stronger doc who m) s rs)"
  using assms
proof (induction rs arbitrary: s)
  case (Cons q rs)
  let ?t = "stronger doc who m s q"
  from Cons(2,4) have t: "?t \<in> set classes" "class_weight (class_of_request doc who m q) \<le> class_weight ?t"
    by (auto simp: stronger_eq Let_def dest: class_nonempty)
  show ?case
  proof (cases "r = q")
    case True
    with strongest_grows [of rs doc who m ?t] Cons(2) t show ?thesis by force
  next
    case False
    with Cons t show ?thesis by simp
  qed
qed simp

lemma registered_classes:
  assumes "registered_manifest x st owner = Inr m" and "Option.bind m (\<lambda>d. proposed_class d act) = Some c"
  shows "c \<in> set classes"
proof -
  from assms obtain d p where d: "parse_manifest x d = Inr p" "m = Some (manifest_document p)"
    by (auto simp: registered_manifest_def bind_eq_Some_conv split: option.splits)
  note f = parse_manifest_facts [OF d(1)]
  from assms(2) d f obtain entry where e: "action_entry d act = Some entry" "get_str entry ''class'' = Some c"
    by (auto simp: proposed_class_def bind_eq_Some_conv index_str)
  from action_entry_valid [OF _ e(1)] f obtain schemas where v: "validate_action (manifest_name p) schemas entry = Inr ()" by blast
  with e(2) show ?thesis unfolding validate_action_def Let_def by (auto simp: str_or_empty_index split: if_splits)
qed

text \<open>C24: A component cannot lower a class: under the policy in force, an effect or an aggregate that declares a class below the
  one the policy computes for any one of the requests it reports, whatever the component's manifest proposes, is
  refused as an attempt to override, before its mandate, budget or approval is looked at.\<close>

theorem class_cannot_be_lowered:
  assumes "policy_in_force x cfg st = Inr (Some doc)"
    and "registered_manifest x st (str_or_empty (index (index env ''identity'') ''component'')) = Inr m"
    and "effect_requests env = Inr requests" and "r \<in> set requests"
    and "class_weight (str_or_empty (index env ''classification''))
         < class_weight (class_of_request doc (str_or_empty (index (index env ''identity'') ''subject'')) m r)"
  shows "validate_effect_kind x cfg st env sent doc rts signer plan = Inl (err ''policy-component-override-attempt'')"
proof -
  let ?who = "str_or_empty (index (index env ''identity'') ''subject'')"
  from assms(1) obtain d p where "parse_policy x d (in_policy_key cfg) = Inr p" "doc = document p"
    by (auto simp: policy_in_force_def split: option.splits)
  with parse_policy_facts have "validate_document doc = Inr ()" by metis
  then have "validate_policy_classification doc = Inr ()" using validate_document_parts by blast
  moreover have "case Option.bind m (\<lambda>d. proposed_class d act) of None \<Rightarrow> True | Some c \<Rightarrow> c \<in> set classes" for act
    using registered_classes [OF assms(2)] by (auto split: option.splits)
  ultimately have "\<forall>r \<in> set requests. class_of_request doc ?who m r \<in> set classes"
    by (simp add: class_of_request_def classify_known)
  from strongest_covers [OF this assms(4), of "[]"] assms(5)
  have "class_weight (str_or_empty (index env ''classification'')) < class_weight (effective_class doc ?who m requests)"
    by (simp add: effective_class_def)
  with assms(2,3) show ?thesis by (simp add: validate_effect_kind_def Let_def)
qed

theorem class_cannot_be_lowered_witness:
  "validate_effect_kind boot_ext boot_config published_store demo_aggregate [] boot_policy [KeyId demo_key] (KeyId demo_key)
     (blank_plan demo_aggregate [] [] []) = Inl (err ''policy-component-override-attempt'')"
proof (rule class_cannot_be_lowered)
  show "policy_in_force boot_ext boot_config published_store = Inr (Some boot_policy)" by (rule published_policy)
  have "manifests published_store = []" by (simp add: published_store_def granted_store_def boot_store_def
        seed_configured_root_def enroll_def empty_store_def)
  then show "registered_manifest boot_ext published_store (str_or_empty (index (index demo_aggregate ''identity'') ''component'')) = Inr None"
    by (simp add: registered_manifest_def latest_manifest_def manifests_named_def parse_optional_def)
  show "effect_requests demo_aggregate = Inr [(''a.get'', ''-''), (''a.list'', ''-'')]" by code_simp
  show "(''a.list'', ''-'') \<in> set [(''a.get'', ''-''), (''a.list'', ''-'')]" by simp
  show "class_weight (str_or_empty (index demo_aggregate ''classification''))
      < class_weight (class_of_request boot_policy (str_or_empty (index (index demo_aggregate ''identity'') ''subject'')) None (''a.list'', ''-''))"
    by code_simp
qed

section \<open>Durable objects\<close>

text \<open>What a manifest says of one transition of a kind of object: only humans may sign it.\<close>

definition humans_only :: "json \<Rightarrow> string \<Rightarrow> string \<Rightarrow> bool" where
  "humans_only doc object_type transition \<longleftrightarrow>
     (case Option.bind (declared_object doc object_type) (\<lambda>d. declared_transition d transition) of
        None \<Rightarrow> False
      | Some entry \<Rightarrow>
          (case as_array (index entry ''signers'') of
             None \<Rightarrow> False
           | Some signers \<Rightarrow> \<not> list_ex (\<lambda>s. as_str s = Some ''agent'') signers))"

lemma humans_only_refuses_agents:
  "humans_only doc object_type t \<Longrightarrow> check_transition doc object_type t ''agent'' s = Inl (err ''durable-transition-not-permitted'')"
  by (cases "Option.bind (declared_object doc object_type) (\<lambda>d. declared_transition d t)")
    (auto simp: humans_only_def check_transition_def bind_eq_Some_conv split: option.splits)

lemma fold_stops:
  assumes "t \<in> set past" and "humans_only doc object_type t"
  shows "\<exists>e. fold_transitions doc object_type s past = Inl e"
  using assms(1)
proof (induction past arbitrary: s)
  case (Cons a past)
  show ?case
  proof (cases "check_transition doc object_type a ''agent'' s")
    case (Inr v)
    with humans_only_refuses_agents [OF assms(2)] have "a \<noteq> t" by auto
    with Cons Inr show ?thesis by simp
  qed simp
qed simp

text \<open>C25: A promoted object is frozen: as soon as an envelope that reports a transition only humans may sign is in the ledger,
  whoever signed it, every further transition of that object is refused, the humans' own included, because the past
  is folded as if an agent had signed all of it.\<close>

theorem promoted_object_is_frozen:
  assumes "get env ''commitment-ref'' = Some c"
    and "as_str (index c ''object-type'') = Some object_type" and "as_str (index c ''object-id'') = Some oid"
    and "(t, signer) \<in> set (durable_transitions st object_type oid)" and "humans_only doc object_type t"
  shows "\<exists>e. validate_commitment st env (Some doc) who = Inl e"
proof -
  from assms(4) have "t \<in> set (List.map fst (durable_transitions st object_type oid))" by force
  from fold_stops [OF this assms(5)] obtain e where e: "fold_transitions doc object_type None
      (List.map fst (durable_transitions st object_type oid)) = Inl e" by blast
  show ?thesis
    by (cases "as_str (index c ''transition'')") (simp_all add: validate_commitment_def assms(1-3) e)
qed

text \<open>The transition table of the specification's own example, a tool that a person promoted and then wants to revoke.\<close>

definition tool_entry :: "string \<Rightarrow> string list \<Rightarrow> string \<Rightarrow> string \<Rightarrow> json" where
  "tool_entry t from_states to_state signer = JObject
     [(''from'', JArray (List.map JString from_states)), (''signers'', JArray [JString signer]), (''to'', JString to_state),
      (''transition'', JString t)]"

definition tool_manifest :: json where
  "tool_manifest = JObject [(''durable-objects'', JArray [JObject
     [(''id-kind'', JString ''tool-name''), (''object-type'', JString ''foundry.tool''),
      (''transitions'', JArray
        [tool_entry ''synthesized'' [] ''provisional'' ''agent'', tool_entry ''verified'' [''provisional''] ''verified'' ''agent'',
         tool_entry ''promoted'' [''verified''] ''active'' ''human'',
         tool_entry ''revoked'' [''active'', ''verified'', ''provisional''] ''revoked'' ''human''])]])]"

definition tool_change :: "string \<Rightarrow> json" where
  "tool_change t = JObject [(''commitment-ref'', JObject
     [(''object-id'', JString ''t1''), (''object-type'', JString ''foundry.tool''), (''transition'', JString t)])]"

definition tool_row :: "nat \<Rightarrow> string \<Rightarrow> envelope_row" where
  "tool_row n t = grant_row\<lparr>er_seq := n, er_subject := (if t = ''promoted'' then ''human:h'' else ''agent:a''),
     er_commitment_type := Some ''foundry.tool'', er_commitment_id := Some ''t1'', er_commitment_transition := Some t\<rparr>"

definition tool_store :: "string list \<Rightarrow> store" where
  "tool_store ts = (empty_store ''kernel:rejections'')\<lparr>envelopes := List.map (\<lambda>(n, t). tool_row n t) (List.enumerate 0 ts)\<rparr>"

theorem promoted_object_is_frozen_witness:
  "validate_commitment (tool_store [''synthesized'', ''verified'']) (tool_change ''promoted'') (Some tool_manifest) ''human:h'' = Inr ()
   \<and> validate_commitment (tool_store [''synthesized'', ''verified'']) (tool_change ''revoked'') (Some tool_manifest) ''human:h'' = Inr ()
   \<and> (\<exists>e. validate_commitment (tool_store [''synthesized'', ''verified'', ''promoted'']) (tool_change ''revoked'') (Some tool_manifest)
        ''human:h'' = Inl e)"
proof -
  note d = durable_transitions_def tool_store_def tool_row_def row_facts
  have s: "List.map fst (durable_transitions (tool_store [''synthesized'', ''verified'']) ''foundry.tool'' ''t1'')
      = [''synthesized'', ''verified'']"
    by (simp add: d)
  have f: "(''promoted'', ''human:h'') \<in> set (durable_transitions (tool_store [''synthesized'', ''verified'', ''promoted'']) ''foundry.tool'' ''t1'')"
    by (simp add: d)
  have c: "fold_transitions tool_manifest ''foundry.tool'' None [''synthesized'', ''verified''] = Inr (Some ''verified'')"
    "check_transition tool_manifest ''foundry.tool'' ''promoted'' ''human'' (Some ''verified'') = Inr ''active''"
    "check_transition tool_manifest ''foundry.tool'' ''revoked'' ''human'' (Some ''verified'') = Inr ''revoked''"
    "signer_role ''human:h'' = ''human''"
    by code_simp+
  have h: "humans_only tool_manifest ''foundry.tool'' ''promoted''" by code_simp
  have g: "get (tool_change t) ''commitment-ref'' = Some (JObject
     [(''object-id'', JString ''t1''), (''object-type'', JString ''foundry.tool''), (''transition'', JString t)])" for t
    by (simp add: tool_change_def)
  have p: "validate_commitment (tool_store [''synthesized'', ''verified'']) (tool_change t) (Some tool_manifest) ''human:h''
      = and_then (check_transition tool_manifest ''foundry.tool'' t ''human'' (Some ''verified'')) (\<lambda>_. Inr ())" for t
    by (simp add: validate_commitment_def g index_str get_str_def s c del: fold_transitions.simps)
  from promoted_object_is_frozen [OF g _ _ f h] have "\<exists>e. validate_commitment (tool_store [''synthesized'', ''verified'', ''promoted''])
      (tool_change ''revoked'') (Some tool_manifest) ''human:h'' = Inl e" by (simp add: index_str get_str_def)
  with p c show ?thesis by simp
qed

end
