(* ===== verification/Clerk.thy ===== *)
theory Clerk
  imports Admission
begin

text \<open>
  The kernel as a client of its own intake, \<open>append_as_kernel\<close> of \<open>stozher-kernel/src/ingest.rs\<close>: an envelope of the
  kernel is built on the head of its stream, signed and submitted like any other, and tried again when another writer
  was faster. Everything that happens at the same time is a parameter: at each point where the source awaits the
  store, the other writers may have changed it.
\<close>

section \<open>Time and the other writers\<close>

text \<open>\<open>wd_others w n\<close> is what the other writers do to the store before the \<open>n\<close>-th time it is asked, \<open>wd_now w n\<close> what the
  clock reads then.\<close>

record world =
  wd_others :: "nat \<Rightarrow> store \<Rightarrow> store"
  wd_now :: "nat \<Rightarrow> string"

type_synonym session = "nat \<times> store"

definition turn :: "world \<Rightarrow> session \<Rightarrow> session" where
  "turn w s = (Suc (fst s), wd_others w (fst s) (snd s))"

definition now_at :: "world \<Rightarrow> session \<Rightarrow> string" where
  "now_at w s = wd_now w (fst s)"

text \<open>\<open>submit\<close>: what the validation reads and what the transaction finds may differ.\<close>

definition submit_now ::
  "ext \<Rightarrow> intake \<Rightarrow> reading \<Rightarrow> world \<Rightarrow> string \<Rightarrow> string option \<Rightarrow> session \<Rightarrow> session \<times> outcome" where
  "submit_now x cfg rd w raw submitted_by s =
     (let s1 = turn w s; s2 = turn w s1;
          (st, answer) = submit x cfg rd (now_at w s) raw submitted_by (snd s1) (snd s2)
      in ((fst s2, st), answer))"

section \<open>Envelopes of the kernel\<close>

definition kernel_identity :: "ext \<Rightarrow> intake \<Rightarrow> json" where
  "kernel_identity x cfg =
     JObject [(''component'', JString ''kernel''), (''key'', JString (kernel_key_text x cfg)), (''subject'', JString ''agent:kernel'')]"

definition ingest_request :: "json \<Rightarrow> json" where
  "ingest_request envelope = JObject [(''envelope'', envelope), (''payloads'', JArray [])]"

definition signed_request :: "ext \<Rightarrow> intake \<Rightarrow> json \<Rightarrow> string res" where
  "signed_request x cfg body =
     and_then (sign_object x body (in_secret cfg)) (\<lambda>envelope. canonicalize x (ingest_request envelope))"

text \<open>The position after the head of a stream, and the hash that links to it.\<close>

definition next_position :: "store \<Rightarrow> string \<Rightarrow> nat \<times> string option" where
  "next_position st stream =
     (case stream_head st stream of Some (head_seq, head_id) \<Rightarrow> (head_seq + 1, Some head_id) | None \<Rightarrow> (0, None))"

definition kernel_body :: "ext \<Rightarrow> intake \<Rightarrow> string \<Rightarrow> string \<Rightarrow> nat \<times> string option \<Rightarrow> jmap \<Rightarrow> json" where
  "kernel_body x cfg kind now position extra =
     JObject (foldl (\<lambda>m (k, v). map_insert k v m)
       [(''emitted-at'', JString now), (''identity'', kernel_identity x cfg), (''kind'', JString kind),
        (''prev-hash'', text_or_null (snd position)), (''seq'', JNumber (PosInt (of_nat (fst position)))),
        (''stream'', JString (in_core_stream cfg)), (''v'', JString version)]
       extra)"

definition lost_race :: "string \<Rightarrow> bool" where
  "lost_race why \<longleftrightarrow> why = ''chain-seq-duplicate'' \<or> why = ''chain-prev-hash-mismatch''"

text \<open>The attempts that are left: a lost race is tried again on the new head, any other answer ends it.\<close>

fun kernel_attempts ::
  "ext \<Rightarrow> intake \<Rightarrow> reading \<Rightarrow> world \<Rightarrow> string \<Rightarrow> jmap \<Rightarrow> nat \<Rightarrow> session \<Rightarrow> session \<times> string res" where
  "kernel_attempts x cfg rd w kind extra 0 s = (s, Inl (err store_unavailable))"
| "kernel_attempts x cfg rd w kind extra (Suc left) s =
     (let s1 = turn w s
      in case signed_request x cfg (kernel_body x cfg kind (now_at w s1) (next_position (snd s1) (in_core_stream cfg)) extra) of
           Inl e \<Rightarrow> (s1, Inl e)
         | Inr raw \<Rightarrow>
             (case submit_now x cfg rd w raw (Some ''agent:kernel'') s1 of
                (s2, Accepted a) \<Rightarrow> (s2, Inr (ad_id a))
              | (s2, Rejected why _) \<Rightarrow>
                  if lost_race why then kernel_attempts x cfg rd w kind extra left s2 else (s2, Inl (err why))
              | (s2, Unavailable) \<Rightarrow> (s2, Inl (err store_unavailable))
              | (s2, Trapped) \<Rightarrow> (s2, Inl Panic)))"

definition append_as_kernel ::
  "ext \<Rightarrow> intake \<Rightarrow> reading \<Rightarrow> world \<Rightarrow> string \<Rightarrow> jmap \<Rightarrow> session \<Rightarrow> session \<times> string res" where
  "append_as_kernel x cfg rd w kind extra s = kernel_attempts x cfg rd w kind extra 8 s"

section \<open>Facts\<close>

text \<open>What the other writers may do: the append-only tables only grow.\<close>

definition only_grows :: "world \<Rightarrow> bool" where
  "only_grows w \<longleftrightarrow> (\<forall>n st. grows st (wd_others w n st))"

lemma grows_turn: "only_grows w \<Longrightarrow> grows (snd s) (snd (turn w s))"
  by (simp add: only_grows_def turn_def)

lemma grows_submit:
  assumes "submit x cfg rd t raw who seen st = (st', answer)"
  shows "grows st st'"
proof -
  have r: "grows st (fst (refuse_submission x cfg rd raw e who t cl st))" for e cl
    using refuse_submission_cases [of x cfg rd raw e who t cl st] by (auto simp: grows_def)
  from assms have "st' = fst (submit x cfg rd t raw who seen st)" by simp
  also have "grows st \<dots>" by (auto simp: submit_def r dest: grows_append split: sum.splits validated.splits)
  finally show ?thesis .
qed

lemma grows_submit_now:
  assumes "only_grows w"
  shows "grows (snd s) (snd (fst (submit_now x cfg rd w raw who s)))"
proof -
  note g = grows_trans [OF grows_turn [OF assms, of s] grows_turn [OF assms, of "turn w s"]]
  show ?thesis unfolding submit_now_def Let_def by (auto split: prod.splits dest!: grows_submit intro: grows_trans [OF g])
qed

text \<open>What an acceptance names is in the ledger.\<close>

lemma stored_grows: "grows s s' \<Longrightarrow> i \<in> er_id ` set (envelopes s) \<Longrightarrow> i \<in> er_id ` set (envelopes s')"
  by (auto simp: grows_def dest: set_mono_prefix)

lemma found_stored: "envelope_by_id st i = Some row \<Longrightarrow> i \<in> er_id ` set (envelopes st)"
  by (auto simp: envelope_by_id_def dest!: find_SomeD)

lemma appended_stored:
  assumes "append_envelope x plan st = Inr (st', a)"
  shows "ad_id a = ap_id plan \<and> ad_id a \<in> er_id ` set (envelopes st')"
proof (cases "envelope_by_id st (ap_id plan)")
  case None
  with assms have f: "append_fresh x plan st = Inr st'" "ad_id a = ap_id plan" by (auto simp: append_envelope_def)
  from append_found [OF f(1) None] f(2) show ?thesis by (auto dest: found_stored)
qed (use assms in \<open>auto simp: append_envelope_def dest: found_stored\<close>)

lemma accepted_stored:
  assumes "submit x cfg rd t raw who seen st = (st', Accepted a)" and "grows seen st"
  shows "ad_id a \<in> er_id ` set (envelopes st')
    \<and> (\<exists>request env. parse_raw x raw = Inr request \<and> get request ''envelope'' = Some env \<and> object_id x env = Inr (ad_id a))"
proof -
  have r: "refuse_submission x cfg rd raw e who t cl st \<noteq> (st', Accepted a)" for e cl
    using refuse_submission_cases [of x cfg rd raw e who t cl st] by auto
  show ?thesis
  proof (cases "validate_submission x cfg seen t raw")
    case (Inr v)
    show ?thesis
    proof (cases v)
      case (Already b)
      with assms(1) Inr have "st' = st" "b = a" by (simp_all add: submit_def)
      moreover from Inr Already obtain request env row where "parse_raw x raw = Inr request" "get request ''envelope'' = Some env"
        "object_id x env = Inr (ad_id b)" "envelope_by_id seen (ad_id b) = Some row"
        by (auto simp: validate_submission_def validate_envelope_def split: option.splits if_splits)
      ultimately show ?thesis using stored_grows [OF assms(2)] found_stored by blast
    next
      case (Fresh plan)
      with assms(1) Inr r have p: "append_envelope x plan st = Inr (st', a)" by (auto simp: submit_def split: sum.splits)
      from Inr Fresh have "validate_submission x cfg seen t raw = Inr (Fresh plan)" by simp
      then obtain env i canon where "object_id x env = Inr i" "same_record (blank_plan env i canon t) plan"
        "\<exists>request. parse_raw x raw = Inr request \<and> get request ''envelope'' = Some env" by (rule fresh_facts)
      with appended_stored [OF p] show ?thesis by (auto simp: same_record_def blank_plan_def)
    qed
  qed (use assms(1) r in \<open>simp add: submit_def\<close>)
qed

lemma accepted_now_stored:
  assumes "only_grows w" and "submit_now x cfg rd w raw who s = (s', Accepted a)"
  shows "ad_id a \<in> er_id ` set (envelopes (snd s'))
    \<and> (\<exists>request env. parse_raw x raw = Inr request \<and> get request ''envelope'' = Some env \<and> object_id x env = Inr (ad_id a))"
proof -
  from assms(2) obtain st where "submit x cfg rd (now_at w s) raw who (snd (turn w s)) (snd (turn w (turn w s))) = (st, Accepted a)"
    "snd s' = st" by (auto simp: submit_now_def Let_def split: prod.splits)
  with accepted_stored [OF this(1) grows_turn [OF assms(1)]] show ?thesis by simp
qed

lemma write_value_error: "write_value x v = Inl e \<Longrightarrow> e = err ''jcs-non-finite-number''"
proof -
  have m: "\<exists>x \<in> set xs. f x = Inl e" if "map_res f xs = Inl e" for f :: "'p \<Rightarrow> 'q res" and xs
    using that by (induction xs) (auto simp: and_then_eq_Inl)
  show "write_value x v = Inl e \<Longrightarrow> e = err ''jcs-non-finite-number''"
  proof (induction x v rule: write_value.induct)
    case (4 x n)
    then show ?case by (auto simp: number_to_string_def split: option.splits if_splits)
  next
    case (6 x items)
    then show ?case by (auto simp: and_then_eq_Inl dest!: m)
  next
    case (7 x mm)
    then show ?case by (auto simp: and_then_eq_Inl dest!: m)
  qed auto
qed

definition is_lost_race :: "error \<Rightarrow> bool" where
  "is_lost_race e \<longleftrightarrow> has_code ''chain-seq-duplicate'' e \<or> has_code ''chain-prev-hash-mismatch'' e"

lemma is_lost_race_err [simp]: "is_lost_race (err c) \<longleftrightarrow> lost_race c"
  by (simp add: is_lost_race_def lost_race_def has_code_def err_def)

lemma signed_request_code: "signed_request x cfg body = Inl e \<Longrightarrow> \<not> is_lost_race e"
  unfolding signed_request_def sign_object_def Let_def canonicalize_def and_then_eq_Inl
  by (elim disjE exE conjE) (drule write_value_error | simp add: lost_race_def)+

section \<open>The attempts end\<close>

lemma attempts_settle:
  "fst (fst (kernel_attempts x cfg rd w kind extra n s)) \<le> fst s + 3 * n
   \<and> (case snd (kernel_attempts x cfg rd w kind extra n s) of Inl e \<Rightarrow> \<not> is_lost_race e | Inr i \<Rightarrow> True)"
proof (induction n arbitrary: s)
  case 0
  show ?case by (simp add: lost_race_def store_unavailable_def)
next
  case (Suc n)
  have t: "fst (fst (submit_now x cfg rd w raw who r)) = fst r + 2" for raw who r
    by (simp add: submit_now_def turn_def Let_def split: prod.splits)
  let ?r = "signed_request x cfg (kernel_body x cfg kind (now_at w (turn w s)) (next_position (snd (turn w s)) (in_core_stream cfg)) extra)"
  show ?case
  proof (cases ?r)
    case (Inl e)
    with signed_request_code [OF this] show ?thesis by (simp add: Let_def turn_def)
  next
    case (Inr raw)
    obtain s2 answer where a: "submit_now x cfg rd w raw (Some ''agent:kernel'') (turn w s) = (s2, answer)" by fastforce
    with t [of raw "Some ''agent:kernel''" "turn w s"] have f: "fst s2 = fst s + 3" by (simp add: turn_def)
    have o: "\<not> lost_race store_unavailable" "\<not> is_lost_race Panic"
      by (simp_all add: lost_race_def is_lost_race_def has_code_def store_unavailable_def)
    show ?thesis using Suc [of s2] f o by (cases answer) (simp_all add: Inr a Let_def)
  qed
qed


end
