(* ===== verification/Checkpoint.thy ===== *)
theory Checkpoint
  imports Clerk Effects
begin

text \<open>
  Signed checkpoints, \<open>stozher-kernel/src/checkpoint.rs\<close>: the checkpoint of one stream and of all of them, the decay run with the
  checkpoints that must precede it, and the verification of a stream against its checkpoints. The two loops that
  repeat them on a timer are not modelled.
\<close>

section \<open>One checkpoint\<close>

definition checkpoint_section :: "string \<Rightarrow> string \<Rightarrow> nat \<Rightarrow> nat \<Rightarrow> string \<Rightarrow> json" where
  "checkpoint_section now stream from_seq head_seq head =
     JObject
       [(''count'', JNumber (PosInt (of_nat (head_seq - from_seq + 1)))), (''from-seq'', JNumber (PosInt (of_nat from_seq))),
        (''head-hash'', JString head), (''observed-at'', JString now), (''stream'', JString stream),
        (''to-seq'', JNumber (PosInt (of_nat head_seq)))]"

definition checkpoint_body ::
  "ext \<Rightarrow> intake \<Rightarrow> string \<Rightarrow> string \<Rightarrow> nat \<Rightarrow> string option \<Rightarrow> json \<Rightarrow> json" where
  "checkpoint_body x cfg now checkpoint_stream seq prev attestation =
     JObject
       [(''checkpoint'', attestation), (''emitted-at'', JString now), (''identity'', kernel_identity x cfg),
        (''kind'', JString ''checkpoint''), (''prev-hash'', text_or_null prev), (''seq'', JNumber (PosInt (of_nat seq))),
        (''stream'', JString checkpoint_stream), (''v'', JString version)]"

text \<open>Where the next checkpoint of a stream starts, unless the last one reaches the head.\<close>

definition uncovered_from :: "store \<Rightarrow> string \<Rightarrow> nat \<Rightarrow> nat option" where
  "uncovered_from st stream head_seq =
     (case last_checkpoint st stream of
        Some c \<Rightarrow> if head_seq \<le> ck_to_seq c then None else Some (ck_to_seq c + 1)
      | None \<Rightarrow> Some 0)"

text \<open>The reads of \<open>emit\<close>: nothing to attest, or the body to sign. The head of the checkpoint stream is read twice.\<close>

definition next_checkpoint :: "ext \<Rightarrow> intake \<Rightarrow> world \<Rightarrow> string \<Rightarrow> string \<Rightarrow> session \<Rightarrow> session \<times> json option" where
  "next_checkpoint x cfg w stream checkpoint_stream s =
     (let s1 = turn w s
      in case stream_head (snd s1) stream of
           None \<Rightarrow> (s1, None)
         | Some (head_seq, head) \<Rightarrow>
             (let s2 = turn w s1
              in case uncovered_from (snd s2) stream head_seq of
                   None \<Rightarrow> (s2, None)
                 | Some from_seq \<Rightarrow>
                     (let now = now_at w s2; s3 = turn w s2; s4 = turn w s3
                      in (s4, Some (checkpoint_body x cfg now checkpoint_stream (fst (next_position (snd s4) checkpoint_stream))
                                     (map_option snd (stream_head (snd s3) checkpoint_stream))
                                     (checkpoint_section now stream from_seq head_seq head))))))"

definition provoked_codes :: "string list" where
  "provoked_codes =
     [''checkpoint-count-mismatch'', ''checkpoint-head-mismatch'', ''checkpoint-range-discontinuous'',
      ''checkpoint-signer-not-kernel'', ''chain-seq-duplicate'', ''chain-seq-gap'', ''chain-prev-hash-mismatch'',
      ''policy-not-published'']"

definition leak_code :: "string \<Rightarrow> string" where
  "leak_code why = (if why \<in> set provoked_codes then why else ''checkpoint-stream-unknown'')"

definition own_answer :: "outcome \<Rightarrow> appended res" where
  "own_answer answer =
     (case answer of
        Accepted a \<Rightarrow> Inr a
      | Rejected why _ \<Rightarrow> Inl (err (leak_code why))
      | Unavailable \<Rightarrow> Inl (err store_unavailable)
      | Trapped \<Rightarrow> Inl Panic)"

definition emit ::
  "ext \<Rightarrow> intake \<Rightarrow> reading \<Rightarrow> world \<Rightarrow> string \<Rightarrow> string \<Rightarrow> session \<Rightarrow> session \<times> appended option res" where
  "emit x cfg rd w stream checkpoint_stream s =
     (case next_checkpoint x cfg w stream checkpoint_stream s of
        (s1, None) \<Rightarrow> (s1, Inr None)
      | (s1, Some body) \<Rightarrow>
          (case signed_request x cfg body of
             Inl e \<Rightarrow> (s1, Inl e)
           | Inr raw \<Rightarrow>
               (let (s2, answer) = submit_now x cfg rd w raw (Some ''agent:kernel'') s1
                in (s2, and_then (own_answer answer) (\<lambda>a. Inr (Some a))))))"

section \<open>All streams\<close>

text \<open>An error of one stream is reported and the next is tried; a panic ends the run.\<close>

fun emit_each ::
  "ext \<Rightarrow> intake \<Rightarrow> reading \<Rightarrow> world \<Rightarrow> string \<Rightarrow> string list \<Rightarrow> session \<Rightarrow> session \<times> (string \<times> nat option res) list" where
  "emit_each x cfg rd w checkpoint_stream [] s = (s, [])"
| "emit_each x cfg rd w checkpoint_stream (name # names) s =
     (if name = checkpoint_stream then emit_each x cfg rd w checkpoint_stream names s
      else
        (let (s1, r) = emit x cfg rd w name checkpoint_stream s
         in if r = Inl Panic then (s1, [(name, Inl Panic)])
            else
              (let (s2, results) = emit_each x cfg rd w checkpoint_stream names s1
               in (s2, (name, and_then r (\<lambda>a. Inr (map_option ad_seq a))) # results))))"

definition emit_all ::
  "ext \<Rightarrow> intake \<Rightarrow> reading \<Rightarrow> world \<Rightarrow> string \<Rightarrow> session \<Rightarrow> session \<times> (string \<times> nat option res) list" where
  "emit_all x cfg rd w checkpoint_stream s =
     (let s1 = turn w s;
          (s2, results) = emit_each x cfg rd w checkpoint_stream (streams_holding_envelopes (snd s1)) s1
      in if list_ex (\<lambda>r. snd r = Inl Panic) results then (s2, results)
         else
           (let (s3, own) = emit x cfg rd w checkpoint_stream checkpoint_stream s2
            in (s3, results @ [(checkpoint_stream, and_then own (\<lambda>a. Inr (map_option ad_seq a)))])))"

section \<open>Decay\<close>

record decay_report =
  dr_at :: string
  dr_streams_checkpointed :: "string list"
  dr_payloads_deleted :: nat
  dr_deleted_hashes :: "string list"

text \<open>The checkpoints before the deletion: the first that fails ends the run.\<close>

fun checkpoint_each ::
  "ext \<Rightarrow> intake \<Rightarrow> reading \<Rightarrow> world \<Rightarrow> string \<Rightarrow> string list \<Rightarrow> session \<Rightarrow> session \<times> string list res" where
  "checkpoint_each x cfg rd w checkpoint_stream [] s = (s, Inr [])"
| "checkpoint_each x cfg rd w checkpoint_stream (name # names) s =
     (case emit x cfg rd w name checkpoint_stream s of
        (s1, Inl e) \<Rightarrow> (s1, Inl e)
      | (s1, Inr made) \<Rightarrow>
          (let (s2, rest) = checkpoint_each x cfg rd w checkpoint_stream names s1
           in (s2, and_then rest (\<lambda>l.
                Inr (case made of Some a \<Rightarrow> (name @ ''@'' @ show_nat (ad_seq a)) # l | None \<Rightarrow> l)))))"

definition decay_with_checkpoints ::
  "ext \<Rightarrow> intake \<Rightarrow> reading \<Rightarrow> world \<Rightarrow> string \<Rightarrow> session \<Rightarrow> session \<times> decay_report res" where
  "decay_with_checkpoints x cfg rd w checkpoint_stream s =
     (let now = now_at w s; s1 = turn w s; affected = streams_with_expiring_payloads (snd s1) now
      in case checkpoint_each x cfg rd w checkpoint_stream affected s1 of
           (s2, Inl e) \<Rightarrow> (s2, Inl e)
         | (s2, Inr made) \<Rightarrow>
             (let s3 = turn w s2; (st, hashes) = decay_payloads now (snd s3)
              in ((fst s3, st),
                  Inr \<lparr>dr_at = now, dr_streams_checkpointed = made, dr_payloads_deleted = length hashes,
                       dr_deleted_hashes = hashes\<rparr>)))"

section \<open>Nothing decays before it is attested\<close>

text \<open>An envelope attests a stream up to a position, and what a ledger has published of a stream.\<close>

definition attests :: "json \<Rightarrow> string \<Rightarrow> nat \<Rightarrow> bool" where
  "attests env stream n \<longleftrightarrow>
     (\<exists>now from_seq head. from_seq \<le> n \<and> get env ''checkpoint'' = Some (checkpoint_section now stream from_seq n head))"

definition published :: "ext \<Rightarrow> store \<Rightarrow> string \<Rightarrow> nat \<Rightarrow> bool" where
  "published x st stream n \<longleftrightarrow>
     (\<exists>c \<in> set (checkpoints st). ck_stream c = stream \<and> n \<le> ck_to_seq c)
     \<or> (\<exists>env i m. n \<le> m \<and> attests env stream m \<and> object_id x env = Inr i \<and> i \<in> er_id ` set (envelopes st))"

lemma published_grows:
  assumes "grows s s'" and "published x s stream n"
  shows "published x s' stream n"
proof -
  from assms(1) have c: "set (checkpoints s) \<subseteq> set (checkpoints s')" by (simp add: grows_def set_mono_prefix)
  from assms(2) consider (row) k where "k \<in> set (checkpoints s)" "ck_stream k = stream" "n \<le> ck_to_seq k"
    | (envelope) env i m where "n \<le> m" "attests env stream m" "object_id x env = Inr i" "i \<in> er_id ` set (envelopes s)"
    unfolding published_def by blast
  then show ?thesis
  proof cases
    case row
    with c show ?thesis unfolding published_def by blast
  next
    case envelope
    with stored_grows [OF assms(1) envelope(4)] show ?thesis unfolding published_def by blast
  qed
qed

lemma published_below:
  assumes "published x s stream n" and "m \<le> n"
  shows "published x s stream m"
  using assms(1) unfolding published_def using le_trans [OF assms(2)] by blast

lemma head_grows:
  assumes "grows s s'" and "stream_head s stream = Some (n, h)"
  shows "\<exists>m g. stream_head s' stream = Some (m, g) \<and> n \<le> m"
proof -
  from stream_head_SomeD [OF assms(2)] obtain r where r: "r \<in> set (envelopes s)" "er_stream r = stream" "er_seq r = n" by blast
  with assms(1) have m: "r \<in> set (envelopes s')" by (auto simp: grows_def dest: set_mono_prefix)
  with r(2) obtain q g where q: "stream_head s' stream = Some (q, g)"
    using stream_head_None [of s' stream] by (cases "stream_head s' stream") auto
  with stream_head_SomeD [OF q] m r show ?thesis by blast
qed

text \<open>The kernel reads its own request back.\<close>

definition legible :: "ext \<Rightarrow> intake \<Rightarrow> json \<Rightarrow> bool" where
  "legible x cfg body \<longleftrightarrow>
     (case and_then (sign_object x body (in_secret cfg)) (\<lambda>env.
             and_then (canonicalize x (ingest_request env)) (\<lambda>raw. Inr (env, raw))) of
        Inl e \<Rightarrow> True
      | Inr (env, raw) \<Rightarrow> parse_raw x raw = Inr (ingest_request env))"

lemma legibleD:
  assumes "legible x cfg body" and "signed_request x cfg body = Inr raw"
  shows "\<exists>env. sign_object x body (in_secret cfg) = Inr env \<and> parse_raw x raw = Inr (ingest_request env)"
  using assms by (auto simp: legible_def signed_request_def)

lemma map_insert_other: "k \<noteq> l \<Longrightarrow> map_of (map_insert l v m) k = map_of m k"
  by (induction l v m rule: map_insert.induct) auto

lemma signed_attestation:
  assumes "sign_object x (checkpoint_body x cfg now cs n prev section) secret = Inr env"
  shows "get env ''checkpoint'' = Some section"
  using assms by (auto simp: sign_object_def checkpoint_body_def Let_def map_insert_other map_of_remove)

lemma accepted_checkpoint:
  assumes "only_grows w" and "legible x cfg body" and "signed_request x cfg body = Inr raw"
    and "submit_now x cfg rd w raw who s = (s', Accepted a)"
  shows "\<exists>env. sign_object x body (in_secret cfg) = Inr env \<and> object_id x env = Inr (ad_id a)
    \<and> ad_id a \<in> er_id ` set (envelopes (snd s'))"
proof -
  from legibleD [OF assms(2,3)] obtain env where e: "sign_object x body (in_secret cfg) = Inr env"
    "parse_raw x raw = Inr (ingest_request env)" by blast
  moreover have "get (ingest_request env) ''envelope'' = Some env" by (simp add: ingest_request_def)
  ultimately show ?thesis using accepted_now_stored [OF assms(1,4)] by auto
qed

lemma own_answer_Inr: "own_answer answer = Inr a \<longleftrightarrow> answer = Accepted a"
  by (cases answer) (auto simp: own_answer_def)

text \<open>What the reads of \<open>emit\<close> find, and what it has published when it answers.\<close>

lemma next_checkpoint_cases:
  assumes "only_grows w" and "next_checkpoint x cfg w stream cs s = (s', found)"
    and "stream_head (snd s) stream = Some (n, h)"
  shows "grows (snd s) (snd s') \<and> (case found of
       None \<Rightarrow> \<exists>c \<in> set (checkpoints (snd s')). ck_stream c = stream \<and> n \<le> ck_to_seq c
     | Some body \<Rightarrow> \<exists>now q prev from_seq m head. from_seq \<le> m \<and> n \<le> m
         \<and> body = checkpoint_body x cfg now cs q prev (checkpoint_section now stream from_seq m head))"
proof -
  note t = grows_turn [OF assms(1)]
  from head_grows [OF t assms(3)] obtain m g where m: "stream_head (snd (turn w s)) stream = Some (m, g)" "n \<le> m" by blast
  have g2: "grows (snd s) (snd (turn w (turn w s)))" using t grows_trans by blast
  then have g4: "grows (snd s) (snd (turn w (turn w (turn w (turn w s)))))" using t grows_trans by blast
  show ?thesis
  proof (cases "uncovered_from (snd (turn w (turn w s))) stream m")
    case None
    then obtain c where "last_checkpoint (snd (turn w (turn w s))) stream = Some c" "m \<le> ck_to_seq c"
      by (auto simp: uncovered_from_def split: option.splits if_splits)
    then have "c \<in> set (checkpoints (snd (turn w (turn w s))))" "ck_stream c = stream" "n \<le> ck_to_seq c"
      using m(2) by (auto simp: last_checkpoint_def dest!: greatest_SomeD)
    with assms(2) m None g2 show ?thesis by (auto simp: next_checkpoint_def Let_def)
  next
    case (Some from_seq)
    then have "from_seq \<le> m" by (auto simp: uncovered_from_def split: option.splits if_splits)
    with m assms(2) Some obtain now q prev where "s' = turn w (turn w (turn w (turn w s)))"
      "found = Some (checkpoint_body x cfg now cs q prev (checkpoint_section now stream from_seq m g))"
      by (simp add: next_checkpoint_def Let_def) (metis (no_types))
    with g4 m(2) \<open>from_seq \<le> m\<close> show ?thesis by (simp only: option.case) blast
  qed
qed

lemma emit_publishes:
  assumes "only_grows w" and "emit x cfg rd w stream cs s = (s', Inr r)" and "stream_head (snd s) stream = Some (n, h)"
    and "\<And>body. snd (next_checkpoint x cfg w stream cs s) = Some body \<Longrightarrow> legible x cfg body"
  shows "published x (snd s') stream n"
proof -
  obtain s1 found where f: "next_checkpoint x cfg w stream cs s = (s1, found)" by fastforce
  note c = next_checkpoint_cases [OF assms(1) f assms(3)]
  show ?thesis
  proof (cases found)
    case None
    with assms(2) f have "s' = s1" by (simp add: emit_def)
    with c None show ?thesis by (auto simp: published_def)
  next
    case (Some body)
    with assms(2) f obtain raw a where a: "signed_request x cfg body = Inr raw"
      "submit_now x cfg rd w raw (Some ''agent:kernel'') s1 = (s', Accepted a)"
      by (auto simp: emit_def Let_def own_answer_Inr split: sum.splits prod.splits)
    from assms(4) f Some have "legible x cfg body" by simp
    from accepted_checkpoint [OF assms(1) this a] obtain env where e: "sign_object x body (in_secret cfg) = Inr env"
      "object_id x env = Inr (ad_id a)" "ad_id a \<in> er_id ` set (envelopes (snd s'))" by blast
    from c Some obtain now q prev from_seq m head where b: "from_seq \<le> m" "n \<le> m"
      "body = checkpoint_body x cfg now cs q prev (checkpoint_section now stream from_seq m head)" by auto
    with signed_attestation [OF e(1) [unfolded b(3)]] have "attests env stream m" by (auto simp: attests_def)
    with e b(2) show ?thesis unfolding published_def by blast
  qed
qed

lemma grows_emit:
  assumes "only_grows w"
  shows "grows (snd s) (snd (fst (emit x cfg rd w stream cs s)))"
proof -
  note t = grows_turn [OF assms]
  have g2: "grows (snd s) (snd (turn w (turn w s)))" using t grows_trans by blast
  then have g4: "grows (snd s) (snd (turn w (turn w (turn w (turn w s)))))" using t grows_trans by blast
  have "grows (snd s) (snd (fst (next_checkpoint x cfg w stream cs s)))"
    using t g2 g4 by (simp add: next_checkpoint_def Let_def split: option.splits prod.splits)
  note n = this
  have "snd (fst (emit x cfg rd w stream cs s)) = snd (fst (next_checkpoint x cfg w stream cs s))
      \<or> (\<exists>raw. fst (emit x cfg rd w stream cs s)
             = fst (submit_now x cfg rd w raw (Some ''agent:kernel'') (fst (next_checkpoint x cfg w stream cs s))))"
  proof -
    obtain s1 found where f: "next_checkpoint x cfg w stream cs s = (s1, found)" by fastforce
    show ?thesis
    proof (cases "Option.bind found (\<lambda>body. case signed_request x cfg body of Inl _ \<Rightarrow> None | Inr raw \<Rightarrow> Some raw)")
      case (Some raw)
      then have "fst (emit x cfg rd w stream cs s) = fst (submit_now x cfg rd w raw (Some ''agent:kernel'') s1)"
        by (cases found) (auto simp: emit_def f Let_def split: sum.splits prod.splits)
      with f show ?thesis by auto
    qed (auto simp: emit_def f split: option.splits sum.splits)
  qed
  then show ?thesis
  proof (elim disjE exE)
    fix raw
    assume "fst (emit x cfg rd w stream cs s)
      = fst (submit_now x cfg rd w raw (Some ''agent:kernel'') (fst (next_checkpoint x cfg w stream cs s)))"
    then show ?thesis using grows_trans [OF n grows_submit_now [OF assms]] by simp
  qed (use n in simp)
qed

section \<open>The decay run\<close>

text \<open>The bodies of the checkpoints a run signs, in order.\<close>

fun checkpoints_signed ::
  "ext \<Rightarrow> intake \<Rightarrow> reading \<Rightarrow> world \<Rightarrow> string \<Rightarrow> string list \<Rightarrow> session \<Rightarrow> json list" where
  "checkpoints_signed x cfg rd w cs [] s = []"
| "checkpoints_signed x cfg rd w cs (name # names) s =
     (case snd (next_checkpoint x cfg w name cs s) of None \<Rightarrow> [] | Some body \<Rightarrow> [body])
     @ checkpoints_signed x cfg rd w cs names (fst (emit x cfg rd w name cs s))"

lemma grows_checkpoint_each:
  assumes "only_grows w"
  shows "grows (snd s) (snd (fst (checkpoint_each x cfg rd w cs names s)))"
proof (induction names arbitrary: s)
  case (Cons name names)
  obtain s1 r where e: "emit x cfg rd w name cs s = (s1, r)" by fastforce
  with grows_emit [OF assms, of s x cfg rd name cs] have g: "grows (snd s) (snd s1)" by simp
  with Cons [of s1] grows_trans have "grows (snd s) (snd (fst (checkpoint_each x cfg rd w cs names s1)))" by blast
  with g show ?case by (cases r) (simp_all add: e Let_def case_prod_beta)
qed simp

lemma each_publishes:
  assumes w: "only_grows w"
  shows "checkpoint_each x cfg rd w cs names s = (s', Inr made) \<Longrightarrow> stream \<in> set names \<Longrightarrow>
    stream_head (snd s) stream = Some (n, h) \<Longrightarrow>
    (\<And>body. body \<in> set (checkpoints_signed x cfg rd w cs names s) \<Longrightarrow> legible x cfg body) \<Longrightarrow>
    published x (snd s') stream n"
proof (induction names arbitrary: s made n h)
  case (Cons name names)
  obtain s1 r where e: "emit x cfg rd w name cs s = (s1, r)" by fastforce
  with Cons.prems(1) obtain a where r: "r = Inr a" by (cases r) auto
  with e Cons.prems(1) obtain rest where c: "checkpoint_each x cfg rd w cs names s1 = (s', Inr rest)"
    by (auto simp: Let_def split: prod.splits)
  from c grows_checkpoint_each [OF w, of s1 x cfg rd cs names] have g: "grows (snd s1) (snd s')" by simp
  show ?case
  proof (cases "stream = name")
    case True
    with e r have "emit x cfg rd w stream cs s = (s1, Inr a)" by simp
    from emit_publishes [OF w this Cons.prems(3)] Cons.prems(4) True have "published x (snd s1) stream n" by simp
    with g show ?thesis by (rule published_grows)
  next
    case False
    from grows_emit [OF w, of s x cfg rd name cs] e have "grows (snd s) (snd s1)" by simp
    from head_grows [OF this Cons.prems(3)] obtain m k where m: "stream_head (snd s1) stream = Some (m, k)" "n \<le> m" by blast
    have "legible x cfg body" if "body \<in> set (checkpoints_signed x cfg rd w cs names s1)" for body
      using that Cons.prems(4) e by simp
    with Cons.IH [OF c _ m(1)] Cons.prems(2) False have "published x (snd s') stream m" by simp
    with m(2) show ?thesis by (blast intro: published_below)
  qed
qed simp


text \<open>A stream with one record, attested, and its expired payload.\<close>

definition attested_store :: store where
  "attested_store = demo_store
     \<lparr>payloads := [\<lparr>py_hash = ''p'', py_media_type = ''text/plain'', py_bytes = ''x'', py_first_seen_at = ''2026-07-26T09:00:00.000Z''\<rparr>],
      payload_refs := [\<lparr>rf_hash = ''p'', rf_envelope_id = demo_id (demo_record 0 JNull), rf_stream = ''gw'',
                         rf_retain_until = ''2026-07-26T09:00:00.000Z''\<rparr>],
      checkpoints := [\<lparr>ck_stream = ''gw'', ck_from_seq = 0, ck_to_seq = 0, ck_head_hash = demo_id (demo_record 0 JNull),
                        ck_envelope_id = ''c'', ck_observed_at = ''2026-07-26T09:00:00.000Z''\<rparr>]\<rparr>"

definition alone :: world where
  "alone = \<lparr>wd_others = (\<lambda>n st. st), wd_now = (\<lambda>n. ''2026-07-27T09:00:00.000Z'')\<rparr>"


section \<open>A payload that arrives during the run\<close>

text \<open>The append of a record with a payload whose retention is over.\<close>

definition demo_payer :: append_plan where
  "demo_payer = (demo_plan (demo_record 0 JNull))\<lparr>ap_payloads :=
     [\<lparr>pp_hash = ''p'', pp_media_type = ''text/plain'', pp_bytes = ''x'', pp_retain_until = ''2026-07-26T09:00:00.000Z''\<rparr>]\<rparr>"

definition demo_paid :: store where
  "demo_paid = after (append_envelope (reader [demo_record 0 JNull]) demo_payer (empty_store ''kernel:rejections''))"



section \<open>Verifying a stream against its checkpoints\<close>

definition verified_range :: "ext \<Rightarrow> store \<Rightarrow> string \<Rightarrow> nat \<Rightarrow> chain_result res" where
  "verified_range x st stream to_seq =
     and_then (range_of x st stream 0 (of_nat to_seq)) (\<lambda>es. verify_chain x es stream None)"

definition stream_report :: "string \<Rightarrow> chain_result \<Rightarrow> json \<Rightarrow> json" where
  "stream_report stream verified attested_at =
     JObject
       [(''anchored'', JBool (anchored verified)), (''count'', JNumber (PosInt (of_nat (count verified)))),
        (''head-hash'', JString (head_hash verified)), (''last-checkpoint'', attested_at),
        (''payloads-consulted'', JNumber (PosInt 0)), (''stream'', JString stream)]"

text \<open>The chain up to the last checkpoint has to reproduce the head the checkpoint attests.\<close>

definition check_attested :: "ext \<Rightarrow> store \<Rightarrow> string \<Rightarrow> checkpoint_row \<Rightarrow> json res" where
  "check_attested x st stream c =
     and_then (verified_range x st stream (ck_to_seq c)) (\<lambda>observed.
       if head_hash observed \<noteq> ck_head_hash c then Inl (err ''checkpoint-head-mismatch'')
       else
         Inr (JObject
           [(''from-seq'', JNumber (PosInt (of_nat (ck_from_seq c)))), (''head-hash'', JString (ck_head_hash c)),
            (''to-seq'', JNumber (PosInt (of_nat (ck_to_seq c))))]))"

definition verify_stream :: "ext \<Rightarrow> world \<Rightarrow> string \<Rightarrow> session \<Rightarrow> session \<times> json res" where
  "verify_stream x w stream s =
     (let s1 = turn w s
      in case stream_head (snd s1) stream of
           None \<Rightarrow> (s1, Inl (err ''chain-empty-range''))
         | Some (head_seq, _) \<Rightarrow>
             (let s2 = turn w s1
              in case verified_range x (snd s2) stream head_seq of
                   Inl e \<Rightarrow> (s2, Inl e)
                 | Inr result \<Rightarrow>
                     (let s3 = turn w s2
                      in case last_checkpoint (snd s3) stream of
                           None \<Rightarrow> (s3, Inr (stream_report stream result JNull))
                         | Some c \<Rightarrow>
                             (let s4 = turn w s3
                              in (s4, and_then (check_attested x (snd s4) stream c) (\<lambda>attested_at.
                                        Inr (stream_report stream result attested_at)))))))"

text \<open>A stream that was never resumed, read up to any position: it verifies, and its head is the row at that position, or the
  head of the stream.\<close>

lemma range_rows:
  "List.map er_seq l = [0..<length l] \<Longrightarrow> filter (\<lambda>r. er_seq r \<le> m) l = take (Suc m) l"
proof (induction l rule: rev_induct)
  case (snoc r l)
  then have "List.map er_seq l = [0..<length l]" "er_seq r = length l" by simp_all
  with snoc(1) show ?case by (cases "length l \<le> m") auto
qed simp

lemma prefix_verifies:
  assumes "reachable x st" and "unresumed st s" and "stream_head st s = Some (n, h)"
  shows "\<exists>g. verified_range x st s m
      = Inr \<lparr>count = Suc (min (seq_column (of_nat m)) n), head_hash = g, anchored = True\<rparr>
    \<and> (\<exists>r \<in> set (envelopes st). er_stream r = s \<and> er_seq r = min (seq_column (of_nat m)) n \<and> er_id r = g)"
proof -
  note c = chained_reachable [OF assms(1)] and rc = recorded_reachable [OF assms(1)]
  let ?l = "chain_rows st s" and ?k = "Suc (seq_column (of_nat m))"
  define t where "t = take ?k ?l"
  have pos: "List.map er_seq ?l = [0..<length ?l]" by (rule chain_rows_positions [OF c assms(2)])
  have "\<forall>r \<in> set t. \<exists>e. records x r e" using rc by (auto simp: recorded_def t_def dest!: in_set_takeD)
  then obtain es where es: "map_res (\<lambda>r. parse x (er_canonical_json r)) t = Inr es" "list_all2 (records x) t es"
    using map_res_records [of t x] by blast
  have i: "er_stream (t ! i) = s \<and> er_seq (t ! i) = i \<and> er_prev_hash (t ! i) = id_before t i" if "i < length t" for i
    using chain_rows_prev [OF c assms(2), of i] nth_mem [of i ?l] that by (auto simp: id_before_def t_def)
  from stream_head_SomeD [OF assms(3)] obtain q where q: "q \<in> set ?l" "er_seq q = n" "\<forall>q \<in> set ?l. er_seq q \<le> n" by auto
  then obtain j where j: "j < length ?l" "?l ! j = q" by (meson in_set_conv_nth)
  have e: "er_seq (?l ! i) = i" if "i < length ?l" for i using chain_rows_prev [OF c assms(2) that] by simp
  have len: "length ?l = Suc n"
    using e [OF j(1)] j q(2,3) e [of "length ?l - 1"] nth_mem [of "length ?l - 1" ?l] by (cases "length ?l") fastforce+
  then have lt: "length t = Suc (min (seq_column (of_nat m)) n)" by (simp add: t_def)
  let ?r = "t ! (length t - 1)"
  have h: "id_before t (length t) = Some (er_id ?r)" using lt by (simp add: id_before_def)
  with chain_of_rows [OF es(2) i, of 0] have ch: "chain_of x s 0 None es (Some (er_id ?r))" by (simp add: id_before_def)
  obtain e rest where e: "es = e # rest" using list_all2_lengthD [OF es(2)] lt by (cases es) auto
  with ch have z: "seq_no e = 0" by simp
  with ch have "chain_of x s (seq_no e) None es (Some (er_id ?r))" by (simp only:)
  then have "verify_chain x es s None = Inr \<lparr>count = length t, head_hash = er_id ?r, anchored = True\<rparr>"
    unfolding verify_chain_iff using e z list_all2_lengthD [OF es(2)] by (intro exI conjI) (auto simp: anchor_ok_def)
  moreover have "range_of x st s 0 (of_nat m) = Inr es"
  proof -
    have "sort_key er_seq (filter (\<lambda>r. er_seq r \<le> seq_column (of_nat m)) (of_stream s (envelopes st))) = t"
      using range_rows [OF pos] by (simp add: chain_rows_def filter_sort t_def)
    then show ?thesis using es(1) by (simp add: range_of_def seq_column_def [of 0])
  qed
  moreover have "?r \<in> set t" using lt by (intro nth_mem) simp
  then have "?r \<in> set ?l" unfolding t_def by (rule in_set_takeD)
  moreover have "er_seq ?r = min (seq_column (of_nat m)) n" using i [of "length t - 1"] lt by simp
  ultimately show ?thesis using lt by (intro exI [of _ "er_id ?r"]) (auto simp: verified_range_def)
qed

definition attestation_of :: "checkpoint_row \<Rightarrow> json" where
  "attestation_of c =
     JObject
       [(''from-seq'', JNumber (PosInt (of_nat (ck_from_seq c)))), (''head-hash'', JString (ck_head_hash c)),
        (''to-seq'', JNumber (PosInt (of_nat (ck_to_seq c))))]"

text \<open>C28: Verification of a stream answers for its last checkpoint: in every reachable store, for a stream that was never resumed,
  the answer is the report of the whole chain with the head the store holds, anchored, and with the last checkpoint
  if there is one; except when the row at the end of the attested range is not the one the checkpoint names, and
  then it is that mismatch.\<close>

theorem stream_verification_decides:
  assumes "reachable x st" and "unresumed st s" and "stream_head st s = Some (n, h)" and "wd_others w = (\<lambda>k t. t)"
  shows "case last_checkpoint st s of
      None \<Rightarrow> snd (verify_stream x w s (k, st))
        = Inr (stream_report s \<lparr>count = Suc n, head_hash = h, anchored = True\<rparr> JNull)
    | Some c \<Rightarrow> \<exists>r \<in> set (envelopes st). er_stream r = s \<and> er_seq r = min (seq_column (of_nat (ck_to_seq c))) n
        \<and> snd (verify_stream x w s (k, st))
          = (if er_id r = ck_head_hash c
             then Inr (stream_report s \<lparr>count = Suc n, head_hash = h, anchored = True\<rparr> (attestation_of c))
             else Inl (err ''checkpoint-head-mismatch''))"
proof -
  note c = chained_reachable [OF assms(1)] and rc = recorded_reachable [OF assms(1)]
  from stream_head_SomeD [OF assms(3)] obtain q where q: "q \<in> set (envelopes st)" "er_stream q = s" "er_seq q = n" "er_id q = h"
    by blast
  have "n \<le> 9007199254740991" using stored_position_bound [OF rc q(1)] q(3) by simp
  then have n: "seq_column (of_nat n) = n" by (simp add: seq_column_def unat_of_nat)
  from prefix_verifies [OF assms(1-3), of n] n obtain g r where
    g: "verified_range x st s n = Inr \<lparr>count = Suc n, head_hash = g, anchored = True\<rparr>"
    "r \<in> set (envelopes st)" "er_stream r = s" "er_seq r = n" "er_id r = g" by auto
  with same_position [OF c g(2) q(1)] q have v: "verified_range x st s n = Inr \<lparr>count = Suc n, head_hash = h, anchored = True\<rparr>"
    by auto
  have t: "snd (turn w u) = snd u" for u using assms(4) by (simp add: turn_def)
  show ?thesis
  proof (cases "last_checkpoint st s")
    case None
    then show ?thesis by (simp add: verify_stream_def Let_def t assms(3) v)
  next
    case (Some k)
    from prefix_verifies [OF assms(1-3), of "ck_to_seq k"] obtain f r where
      f: "verified_range x st s (ck_to_seq k)
        = Inr \<lparr>count = Suc (min (seq_column (of_nat (ck_to_seq k))) n), head_hash = f, anchored = True\<rparr>"
      "r \<in> set (envelopes st)" "er_stream r = s" "er_seq r = min (seq_column (of_nat (ck_to_seq k))) n" "er_id r = f" by blast
    have "snd (verify_stream x w s (k', st))
        = (if er_id r = ck_head_hash k
           then Inr (stream_report s \<lparr>count = Suc n, head_hash = h, anchored = True\<rparr> (attestation_of k))
           else Inl (err ''checkpoint-head-mismatch''))" for k'
      by (simp add: verify_stream_def Let_def t assms(3) v Some check_attested_def f(1,5) attestation_of_def)
    with f Some show ?thesis by auto
  qed
qed

theorem stream_verification_decides_witness:
  "snd (verify_stream (reader [demo_record 0 JNull]) alone ''gw'' (0, demo_store))
   = Inr (stream_report ''gw'' \<lparr>count = 1, head_hash = demo_id (demo_record 0 JNull), anchored = True\<rparr> JNull)"
proof -
  have "unresumed demo_store ''gw''" "stream_head demo_store ''gw'' = Some (0, demo_id (demo_record 0 JNull))"
    "last_checkpoint demo_store ''gw'' = None"
    unfolding unresumed_def by code_simp+
  with stream_verification_decides [OF demo_store_reachable, of "''gw''" 0 _ alone 0] show ?thesis by (simp add: alone_def)
qed

section \<open>Positions\<close>

text \<open>C29: The kernel's own positions fit: in every reachable store the position it takes next in a stream is above every stored one
  and at most one above the greatest safe integer, so neither the addition nor the conversion to 64 bits nor the
  column wraps or saturates, and there is no predecessor exactly at the start of a stream.\<close>

theorem next_position_fits:
  assumes "reachable x st" and "next_position st stream = (n, prev)"
  shows "n \<le> 2 ^ 53 \<and> unat (of_nat n :: u64) = n \<and> seq_column (of_nat n) = n \<and> (prev = None \<longleftrightarrow> n = 0)
    \<and> list_all (\<lambda>r. er_seq r < n) (of_stream stream (envelopes st))"
proof (cases "stream_head st stream")
  case None
  with assms(2) show ?thesis
    by (auto simp: next_position_def seq_column_def stream_head_def list_all_iff)
next
  case (Some p)
  obtain m h where p: "p = (m, h)" by fastforce
  from stream_head_SomeD [OF Some [unfolded p]] obtain r where r: "r \<in> set (envelopes st)" "er_seq r = m"
    "\<forall>q \<in> set (envelopes st). er_stream q = stream \<longrightarrow> er_seq q \<le> m" by blast
  from assms(2) Some p have n: "n = Suc m" "prev = Some h" by (simp_all add: next_position_def)
  have m: "m \<le> 9007199254740991" using stored_position_bound [OF recorded_reachable [OF assms(1)] r(1)] r(2) by simp
  then have "n < 2 ^ LENGTH(64)" by (simp add: n)
  then have u: "unat (of_nat n :: u64) = n" by (simp only: unat_of_nat mod_less)
  with m n have "seq_column (of_nat n) = n" by (simp add: seq_column_def)
  with u m n r(3) show ?thesis by (auto simp: list_all_iff of_stream_def less_Suc_eq_le)
qed

theorem next_position_fits_witness:
  "next_position demo_store ''gw'' = (1, Some (demo_id (demo_record 0 JNull)))
   \<and> seq_column (of_nat 1) = 1 \<and> list_all (\<lambda>r. er_seq r < 1) (of_stream ''gw'' (envelopes demo_store))"
proof -
  have "next_position demo_store ''gw'' = (1, Some (demo_id (demo_record 0 JNull)))" by code_simp
  with next_position_fits [OF demo_store_reachable this] show ?thesis by simp
qed

end
