(* ===== verification/Config.thy ===== *)
theory Config
  imports Gatequeue
begin

text \<open>
  The configuration of a deployment, \<open>stozher-kernel/src/config.rs\<close>: the validation of a parsed document, and the
  authentication of a caller by the digest of its token. Reading the file is not modelled.
\<close>

unbundle bit_operations_syntax

section \<open>What a configuration holds\<close>

record configured_root =
  cr_key :: key_id
  cr_subject :: string
  cr_enrolled_at :: string

record configured_caller =
  ca_subject :: string
  ca_token_sha256 :: string

datatype configured_channel =
    Slack string
  | Webhook string "string option"
  | Smtp string "16 word" string "string list" "string option" "string option"

record rate_limit =
  rl_per_subject :: u32
  rl_window_seconds :: int

record config =
  cf_bind :: string
  cf_database :: string
  cf_kernel_seed :: string
  cf_policy_key :: key_id
  cf_kernel_core_stream :: string
  cf_checkpoint_stream :: string
  cf_rejection_stream :: string
  cf_max_future_skew_seconds :: int
  cf_roots :: "configured_root list"
  cf_callers :: "configured_caller list"
  cf_notifications :: "configured_channel list"
  cf_console_base_url :: "string option"
  cf_gate_rate_limit :: rate_limit
  cf_decay_interval_seconds :: int
  cf_clock_advance :: "clock_advance option"

definition default_rate_limit :: rate_limit where
  "default_rate_limit = \<lparr>rl_per_subject = 30, rl_window_seconds = 300\<rparr>"

definition config_members :: "string list" where
  "config_members =
     [''bind'', ''database'', ''kernel-seed'', ''policy-key'', ''kernel-core-stream'', ''checkpoint-stream'',
      ''rejection-stream'', ''max-future-skew-seconds'', ''roots'', ''callers'', ''notifications'', ''console-base-url'',
      ''gate-rate-limit'', ''decay-interval'', ''clock-advance'']"

definition default_decay_interval_seconds :: int where "default_decay_interval_seconds = 86400"

definition channel_members :: "(string \<times> string list) list" where
  "channel_members =
     [(''slack'', [''channel'', ''webhook-url-env'']), (''webhook'', [''channel'', ''url-env'', ''token-env'']),
      (''smtp'', [''channel'', ''host'', ''port'', ''from'', ''to'', ''username'', ''password-env''])]"

definition malformed :: error where "malformed = err ''config-malformed''"

definition known_only :: "string list \<Rightarrow> jmap \<Rightarrow> unit res" where
  "known_only names m = for_each (\<lambda>key. check (key \<in> set names) ''config-malformed'') (List.map fst m)"

definition text_at :: "jmap \<Rightarrow> string \<Rightarrow> string option" where
  "text_at m name = Option.bind (map_of m name) as_str"

definition text_or :: "jmap \<Rightarrow> string \<Rightarrow> string \<Rightarrow> string" where
  "text_or m name default_text = (case text_at m name of Some s \<Rightarrow> s | None \<Rightarrow> default_text)"

text \<open>A list member: anything that is not an array counts as no entries.\<close>

definition entries_of :: "jmap \<Rightarrow> string \<Rightarrow> json list" where
  "entries_of m name = (case Option.bind (map_of m name) as_array of Some l \<Rightarrow> l | None \<Rightarrow> [])"

section \<open>The entries\<close>

definition named_human :: "string \<Rightarrow> bool" where
  "named_human s \<longleftrightarrow> starts_with s ''human:'' \<and> length s > length ''human:''"

definition parse_root :: "ext \<Rightarrow> json \<Rightarrow> configured_root res" where
  "parse_root x entry =
     and_then (ok_or (as_str (index entry ''key'')) ''config-malformed'') (\<lambda>k.
     and_then (key_id_parse x k) (\<lambda>key.
     and_then (ok_or (Option.bind (as_str (index entry ''subject'')) (\<lambda>s. if named_human s then Some s else None))
        ''config-malformed'') (\<lambda>who.
     and_then (ok_or (as_str (index entry ''enrolled-at'')) ''config-malformed'') (\<lambda>since.
     and_then (parse_timestamp since) (\<lambda>_.
       Inr \<lparr>cr_key = key, cr_subject = who, cr_enrolled_at = since\<rparr>)))))"

definition parse_caller :: "json \<Rightarrow> configured_caller res" where
  "parse_caller entry =
     and_then (ok_or (as_str (index entry ''subject'')) ''config-malformed'') (\<lambda>who.
     and_then (ok_or (Option.bind (as_str (index entry ''token-sha256'')) (\<lambda>h. if is_digest_hex h then Some h else None))
        ''config-malformed'') (\<lambda>h.
       Inr \<lparr>ca_subject = who, ca_token_sha256 = h\<rparr>))"

definition required_text :: "jmap \<Rightarrow> string \<Rightarrow> string res" where
  "required_text m name =
     ok_or (Option.bind (text_at m name) (\<lambda>v. if v = [] then None else Some v)) ''config-malformed''"

definition parse_smtp :: "jmap \<Rightarrow> configured_channel res" where
  "parse_smtp m =
     (let recipients = List.map_filter as_str (entries_of m ''to'')
      in if recipients = [] then Inl malformed
         else
           (let port = (case Option.bind (map_of m ''port'') as_u64 of Some p \<Rightarrow> p | None \<Rightarrow> 25)
            in
              and_then (required_text m ''host'') (\<lambda>host.
              and_then (check (unat port < 2 ^ 16) ''config-malformed'') (\<lambda>_.
              and_then (required_text m ''from'') (\<lambda>sender.
                Inr (Smtp host (ucast port) sender recipients (text_at m ''username'') (text_at m ''password-env'')))))))"

definition parse_channel :: "json \<Rightarrow> configured_channel res" where
  "parse_channel entry =
     and_then (ok_or (as_object entry) ''config-malformed'') (\<lambda>m.
     and_then (ok_or (text_at m ''channel'') ''config-malformed'') (\<lambda>channel.
     and_then (ok_or (map_of channel_members channel) ''config-malformed'') (\<lambda>allowed.
     and_then (known_only allowed m) (\<lambda>_.
       if channel = ''slack'' then and_then (required_text m ''webhook-url-env'') (\<lambda>u. Inr (Slack u))
       else if channel = ''webhook'' then
         and_then (required_text m ''url-env'') (\<lambda>u. Inr (Webhook u (text_at m ''token-env'')))
       else parse_smtp m))))"

section \<open>Bounded members\<close>

definition positive_duration :: "json \<Rightarrow> int res" where
  "positive_duration v =
     and_then (ok_or (as_str v) ''config-malformed'') (\<lambda>d.
     and_then (parse_duration_seconds d) (\<lambda>n.
       if n \<le> 0 then Inl malformed else Inr n))"

definition parse_per_subject :: "json \<Rightarrow> u32 res" where
  "parse_per_subject v =
     and_then (ok_or (Option.bind (as_u64 v) (\<lambda>c. if unat c < 2 ^ 32 then Some (ucast c :: u32) else None)) ''config-malformed'') (\<lambda>n.
       if n = 0 then Inl malformed else Inr n)"

definition parse_rate_limit :: "json option \<Rightarrow> rate_limit res" where
  "parse_rate_limit entry =
     (case entry of
        None \<Rightarrow> Inr default_rate_limit
      | Some v \<Rightarrow>
          and_then (ok_or (as_object v) ''config-malformed'') (\<lambda>m.
          and_then (known_only [''per-subject'', ''window''] m) (\<lambda>_.
          and_then (case map_of m ''per-subject'' of
                      None \<Rightarrow> Inr (rl_per_subject default_rate_limit) | Some p \<Rightarrow> parse_per_subject p) (\<lambda>n.
          and_then (case map_of m ''window'' of
                      None \<Rightarrow> Inr (rl_window_seconds default_rate_limit) | Some d \<Rightarrow> positive_duration d) (\<lambda>w.
            Inr \<lparr>rl_per_subject = n, rl_window_seconds = w\<rparr>)))))"

definition parse_decay_interval :: "json option \<Rightarrow> int res" where
  "parse_decay_interval entry =
     (case entry of None \<Rightarrow> Inr default_decay_interval_seconds | Some v \<Rightarrow> positive_duration v)"

definition clock_advance_acknowledgement :: string where
  "clock_advance_acknowledgement = ''records emitted by this deployment are not evidence of when anything happened''"

definition parse_clock_advance :: "json option \<Rightarrow> clock_advance option res" where
  "parse_clock_advance entry =
     (case entry of
        None \<Rightarrow> Inr None
      | Some v \<Rightarrow>
          and_then (ok_or (as_object v) ''config-malformed'') (\<lambda>m.
          and_then (known_only [''advance'', ''acknowledged''] m) (\<lambda>_.
            if text_at m ''acknowledged'' \<noteq> Some clock_advance_acknowledgement then Inl malformed
            else
              and_then (ok_or (text_at m ''advance'') ''config-malformed'') (\<lambda>d.
              and_then (parse_duration_seconds d) (\<lambda>n.
                if n \<le> 0 then Inl malformed
                else if n > max_clock_advance_seconds then Inl malformed
                else Inr (Some \<lparr>seconds = n, duration = d\<rparr>))))))"

section \<open>The document\<close>

definition parse_config :: "ext \<Rightarrow> json \<Rightarrow> config res" where
  "parse_config x document =
     and_then (ok_or (as_object document) ''config-malformed'') (\<lambda>m.
     and_then (known_only config_members m) (\<lambda>_.
     and_then (ok_or (text_at m ''policy-key'') ''config-malformed'') (\<lambda>k.
     and_then (key_id_parse x k) (\<lambda>policy_key.
     and_then (map_res (parse_root x) (entries_of m ''roots'')) (\<lambda>enrolled.
     and_then (map_res parse_caller (entries_of m ''callers'')) (\<lambda>known.
     and_then (map_res parse_channel (entries_of m ''notifications'')) (\<lambda>channels.
     and_then (parse_rate_limit (map_of m ''gate-rate-limit'')) (\<lambda>limit.
     and_then (parse_decay_interval (map_of m ''decay-interval'')) (\<lambda>interval.
     and_then (parse_clock_advance (map_of m ''clock-advance'')) (\<lambda>advance.
       Inr \<lparr>cf_bind = text_or m ''bind'' ''127.0.0.1:8787'', cf_database = text_or m ''database'' ''var/stozher.db'',
            cf_kernel_seed = text_or m ''kernel-seed'' ''keys/kernel.seed'', cf_policy_key = policy_key,
            cf_kernel_core_stream = text_or m ''kernel-core-stream'' ''kernel:core'',
            cf_checkpoint_stream = text_or m ''checkpoint-stream'' ''kernel:checkpoints'',
            cf_rejection_stream = text_or m ''rejection-stream'' ''kernel:rejections'',
            cf_max_future_skew_seconds =
              (case Option.bind (map_of m ''max-future-skew-seconds'') as_i64 of Some n \<Rightarrow> n | None \<Rightarrow> 300),
            cf_roots = enrolled, cf_callers = known, cf_notifications = channels,
            cf_console_base_url = text_at m ''console-base-url'', cf_gate_rate_limit = limit,
            cf_decay_interval_seconds = interval, cf_clock_advance = advance\<rparr>))))))))))"

section \<open>Authentication\<close>

text \<open>The comparison looks at every octet, whatever the difference so far.\<close>

definition constant_time_eq :: "u8 list \<Rightarrow> u8 list \<Rightarrow> bool" where
  "constant_time_eq a b \<longleftrightarrow>
     (if length a \<noteq> length b then False
      else foldl (\<lambda>difference (p, q). difference OR (p XOR q)) 0 (zip a b) = 0)"

definition octets_of :: "string \<Rightarrow> u8 list" where
  "octets_of s = List.map (\<lambda>c. of_nat (octet c)) s"

text \<open>Every caller is compared, and the last that matches is the answer.\<close>

definition authenticate :: "ext \<Rightarrow> config \<Rightarrow> string \<Rightarrow> string res" where
  "authenticate x cf token =
     (let presented = sha256_hex x token
      in ok_or (foldl (\<lambda>found ca.
             if constant_time_eq (octets_of (ca_token_sha256 ca)) (octets_of presented) then Some (ca_subject ca) else found)
           None (cf_callers cf)) ''x-caller-unauthenticated'')"

section \<open>What a parsed configuration guarantees\<close>

lemma known_onlyD: "known_only names m = Inr u \<Longrightarrow> fst ` set m \<subseteq> set names"
  by (auto simp: known_only_def for_each_eq_Inr check_def)

lemma parse_root_facts:
  "parse_root x entry = Inr r \<Longrightarrow> named_human (cr_subject r) \<and> (\<exists>t. parse_timestamp (cr_enrolled_at r) = Inr t)
    \<and> key_id_parse x (as_string (cr_key r)) = Inr (cr_key r)"
  by (auto simp: parse_root_def key_id_parse_def bind_eq_Some_conv split: if_splits)

lemma parse_caller_facts: "parse_caller entry = Inr c \<Longrightarrow> is_digest_hex (ca_token_sha256 c)"
  by (auto simp: parse_caller_def bind_eq_Some_conv split: if_splits)

lemma parse_rate_limit_facts: "parse_rate_limit v = Inr l \<Longrightarrow> 0 < rl_per_subject l \<and> 0 < rl_window_seconds l"
  by (auto simp: parse_rate_limit_def default_rate_limit_def parse_per_subject_def positive_duration_def word_neq_0_conv
      split: option.splits if_splits)

lemma parse_decay_facts: "parse_decay_interval v = Inr n \<Longrightarrow> 0 < n"
  by (auto simp: parse_decay_interval_def default_decay_interval_seconds_def positive_duration_def split: option.splits if_splits)

lemma parse_advance_facts: "parse_clock_advance v = Inr (Some a) \<Longrightarrow> new_advanced_clock a = Inr a"
  by (auto simp: parse_clock_advance_def new_advanced_clock_def split: option.splits if_splits)

lemma map_res_all: "map_res f xs = Inr ys \<Longrightarrow> (\<And>x y. f x = Inr y \<Longrightarrow> P y) \<Longrightarrow> list_all P ys"
  by (induction xs arbitrary: ys) auto

text \<open>A kernel that starts has a sound configuration: every root is a named human with a well-formed key, enrolled at an instant
  of the calendar; credentials are digests only; the cap and the window of the approver queue and the decay interval
  are positive; and a clock that was moved runs ahead, by no more than the bound, so the clock's own constructor takes it.\<close>

lemma parsed_config_sound:
  assumes "parse_config x document = Inr cf"
  shows "list_all (\<lambda>r. named_human (cr_subject r) \<and> (\<exists>t. parse_timestamp (cr_enrolled_at r) = Inr t)
        \<and> key_id_parse x (as_string (cr_key r)) = Inr (cr_key r)) (cf_roots cf)
    \<and> list_all (\<lambda>c. is_digest_hex (ca_token_sha256 c)) (cf_callers cf)
    \<and> 0 < rl_per_subject (cf_gate_rate_limit cf) \<and> 0 < rl_window_seconds (cf_gate_rate_limit cf)
    \<and> 0 < cf_decay_interval_seconds cf
    \<and> (case cf_clock_advance cf of None \<Rightarrow> True | Some a \<Rightarrow> new_advanced_clock a = Inr a)"
proof -
  from assms obtain m enrolled known channels limit interval advance where
    p: "map_res (parse_root x) (entries_of m ''roots'') = Inr enrolled" "map_res parse_caller (entries_of m ''callers'') = Inr known"
    "parse_rate_limit (map_of m ''gate-rate-limit'') = Inr limit" "parse_decay_interval (map_of m ''decay-interval'') = Inr interval"
    "parse_clock_advance (map_of m ''clock-advance'') = Inr advance"
    and c: "cf_roots cf = enrolled" "cf_callers cf = known" "cf_gate_rate_limit cf = limit" "cf_decay_interval_seconds cf = interval"
    "cf_clock_advance cf = advance"
    by (auto simp: parse_config_def)
  show ?thesis
    unfolding c using p parse_rate_limit_facts [OF p(3)] parse_decay_facts [OF p(4)]
    by (auto elim!: map_res_all simp: parse_root_facts parse_caller_facts dest: parse_advance_facts split: option.splits)
qed

section \<open>Authentication decides\<close>

lemma xor_octets: "(p :: u8) XOR q = 0 \<longleftrightarrow> p = q"
proof
  assume "p XOR q = 0"
  then have "p XOR (p XOR q) = p" by simp
  then have "(p XOR p) XOR q = p" by (simp only: xor.assoc)
  then show "p = q" by simp
qed simp

lemma differences:
  assumes "length a = length b"
  shows "foldl (\<lambda>d (p, q). d OR (p XOR q)) d (zip a b) = (0 :: u8) \<longleftrightarrow> d = 0 \<and> a = b"
  using assms
proof (induction a b arbitrary: d rule: list_induct2)
  case (Cons p a q b)
  have "d OR (p XOR q) = 0 \<longleftrightarrow> d = 0 \<and> p = q" by (simp only: or_eq_0_iff xor_octets)
  with Cons.IH [of "d OR (p XOR q)"] show ?case by simp
qed simp

lemma constant_time_eq_iff: "constant_time_eq a b \<longleftrightarrow> a = b"
  by (auto simp: constant_time_eq_def differences)

lemma octets_of_inj: "octets_of s = octets_of t \<longleftrightarrow> s = t"
proof -
  have "inj (\<lambda>c. of_nat (octet c) :: u8)"
  proof (rule injI)
    fix c d
    assume "(of_nat (octet c) :: u8) = of_nat (octet d)"
    then have "unat (of_nat (octet c) :: u8) = unat (of_nat (octet d) :: u8)" by simp
    then show "c = d" by (simp add: unat_of_nat)
  qed
  then show ?thesis by (auto simp: octets_of_def inj_map_eq_map)
qed

lemma last_match:
  "foldl (\<lambda>found c. if P c then Some (f c) else found) found cs
   = (case List.find P (rev cs) of Some c \<Rightarrow> Some (f c) | None \<Rightarrow> found)"
proof (induction cs rule: rev_induct)
  case (snoc c cs)
  then show ?case by (auto split: option.splits)
qed simp

text \<open>C31: Authentication decides on the whole digest: the constant-time comparison of the octets is equality, so a token resolves
  to the subject of the last configured caller with exactly the digest of the token, and to the refusal when there
  is none.\<close>

theorem authenticate_decides:
  "authenticate x cf token
   = ok_or (map_option ca_subject (List.find (\<lambda>c. ca_token_sha256 c = sha256_hex x token) (rev (cf_callers cf))))
       ''x-caller-unauthenticated''"
  by (simp add: authenticate_def constant_time_eq_iff octets_of_inj last_match map_option_case)

text \<open>A configuration with one root and one caller.\<close>

definition demo_config :: json where
  "demo_config =
     (let k = ''ed25519:0000000000000000000000000000000000000000000000000000000000000000''
      in JObject
        [(''callers'', JArray [JObject
            [(''subject'', JString ''agent:gw''),
             (''token-sha256'', JString ''0000000000000000000000000000000000000000000000000000000000000000'')]]),
         (''decay-interval'', JString ''PT1H''), (''gate-rate-limit'', JObject [(''per-subject'', JNumber (PosInt 5))]),
         (''policy-key'', JString k),
         (''roots'', JArray [JObject
            [(''enrolled-at'', JString ''2026-07-26T09:00:00.000Z''), (''key'', JString k), (''subject'', JString ''human:h'')]])])"

theorem parsed_config_sound_witness:
  "\<exists>cf. parse_config demo_ext demo_config = Inr cf \<and> cf_decay_interval_seconds cf = 3600
     \<and> list_all (\<lambda>c. is_digest_hex (ca_token_sha256 c)) (cf_callers cf) \<and> 0 < rl_per_subject (cf_gate_rate_limit cf)"
proof -
  have "case parse_config demo_ext demo_config of Inr cf \<Rightarrow> cf_decay_interval_seconds cf = 3600 | Inl _ \<Rightarrow> False" by code_simp
  then obtain cf where "parse_config demo_ext demo_config = Inr cf" "cf_decay_interval_seconds cf = 3600"
    by (auto split: sum.splits)
  with parsed_config_sound [OF this(1)] show ?thesis by blast
qed

end
