(* ===== verification/Http.thy ===== *)
theory Http
  imports Checkpoint Config
begin

unbundle bit_operations_syntax

text \<open>
  The routes of the service, \<open>stozher-kernel/src/http.rs\<close>: who may ask, what each route does to the store and what it answers.
  An answer is its status and its body; the explanatory text of a refusal, which nothing reads, is left out, and so are
  the list routes of the console, the entity tag of a policy and the notification channels.
\<close>

section \<open>Answers\<close>

datatype response =
    Answer nat json
  | Tagged nat json string
  | Not_Modified string
  | Attachment string string
  | Refused nat string "u64 option" "u64 option"
  | Crashed

record kernel =
  kn_config :: config
  kn_intake :: intake
  kn_reading :: reading

definition refuse :: "nat \<Rightarrow> error \<Rightarrow> response" where
  "refuse status e = (case e of Err c n \<Rightarrow> Refused status c None None | Panic \<Rightarrow> Crashed)"

definition refuse_at :: "nat \<Rightarrow> error \<Rightarrow> response" where
  "refuse_at status e = (case e of Err c n \<Rightarrow> Refused status c n None | Panic \<Rightarrow> Crashed)"

definition unavailable :: "error \<Rightarrow> response" where
  "unavailable e = (if e = Panic then Crashed else Refused 503 store_unavailable None None)"

definition not_found :: "string \<Rightarrow> response" where
  "not_found c = Refused 404 c None None"

definition json_text :: "string option \<Rightarrow> json" where
  "json_text = text_or_null"

definition json_nat :: "nat \<Rightarrow> json" where
  "json_nat n = JNumber (PosInt (of_nat n))"

section \<open>Who asks\<close>

text \<open>\<open>str::trim\<close> on a header value, which holds visible ASCII characters, spaces and tabs.\<close>

definition is_blank :: "char \<Rightarrow> bool" where
  "is_blank c \<longleftrightarrow> c = CHR '' '' \<or> c = CHR 0x09"

definition trim_blank :: "string \<Rightarrow> string" where
  "trim_blank s = rev (dropWhile is_blank (rev (dropWhile is_blank s)))"

definition bearer_token :: "string option \<Rightarrow> string option" where
  "bearer_token header =
     Option.bind header (\<lambda>value.
     Option.bind (strip_prefix value ''Bearer '') (\<lambda>token.
       if trim_blank token = [] then None else Some (trim_blank token)))"

definition caller_subject :: "ext \<Rightarrow> config \<Rightarrow> string option \<Rightarrow> string res" where
  "caller_subject x cf header =
     (case bearer_token header of
        None \<Rightarrow> Inl (err ''x-caller-unauthenticated'')
      | Some token \<Rightarrow> authenticate x cf token)"

section \<open>Submissions\<close>

definition post_ingest :: "ext \<Rightarrow> kernel \<Rightarrow> world \<Rightarrow> string \<Rightarrow> string \<Rightarrow> session \<Rightarrow> session \<times> response" where
  "post_ingest x k w who body s =
     (let (s', answer) = submit_now x (kn_intake k) (kn_reading k) w body (Some who) s
      in (s',
          case answer of
            Accepted a \<Rightarrow>
              Answer (if ad_idempotent a then 200 else 201)
                (JObject [(''envelope-id'', JString (ad_id a)), (''idempotent'', JBool (ad_idempotent a)),
                          (''result'', JString ''accepted''), (''seq'', json_nat (ad_seq a)), (''stozher'', JString version),
                          (''stream'', JString (ad_stream a))])
          | Rejected why r \<Rightarrow>
              Answer 422
                (JObject [(''reason-code'', JString why), (''rejection-id'', json_text (map_option rr_id r)),
                          (''rejection-seq'', (case r of Some rec \<Rightarrow> json_nat (rr_seq rec) | None \<Rightarrow> JNull)),
                          (''result'', JString ''rejected''), (''retryable'', JBool False), (''stozher'', JString version)])
          | Unavailable \<Rightarrow> Refused 503 store_unavailable None None
          | Trapped \<Rightarrow> Crashed))"

text \<open>A revocation signed elsewhere: the members of the envelope are read from the object, never from the caller.\<close>

definition revocation_members :: "json \<Rightarrow> string \<Rightarrow> string \<Rightarrow> jmap" where
  "revocation_members object revokes revoked_at =
     map_insert ''revocation'' object
       (case get object ''reason'' of
          Some r \<Rightarrow> map_insert ''reason'' r [(''revoked-at'', JString revoked_at), (''revokes'', JString revokes)]
        | None \<Rightarrow> [(''revoked-at'', JString revoked_at), (''revokes'', JString revokes)])"

definition revoker_of :: "json \<Rightarrow> string" where
  "revoker_of object =
     (case Option.bind (Option.bind (get object ''sig'') (\<lambda>v. get v ''key'')) as_str of Some s \<Rightarrow> s | None \<Rightarrow> [])"

definition post_revocation :: "ext \<Rightarrow> kernel \<Rightarrow> world \<Rightarrow> string \<Rightarrow> session \<Rightarrow> session \<times> response" where
  "post_revocation x k w body s =
     (case (if is_utf8 body then from_str (kn_reading k) body else None) of
        None \<Rightarrow> (s, Refused 400 ''jcs-malformed-json'' None None)
      | Some object \<Rightarrow>
          (case (get_str object ''revokes'', get_str object ''revoked-at'') of
             (Some revokes, Some revoked_at) \<Rightarrow>
               (case append_as_kernel x (kn_intake k) (kn_reading k) w ''revocation''
                       (revocation_members object revokes revoked_at) s of
                  (s', Inr i) \<Rightarrow>
                    (s', Answer 201
                           (JObject [(''envelope-id'', JString i), (''result'', JString ''recorded''),
                                     (''revoked-by'', JString (revoker_of object)), (''revokes'', JString revokes),
                                     (''stozher'', JString version)]))
                | (s', Inl e) \<Rightarrow>
                    (s', if has_code store_unavailable e then Refused 503 store_unavailable None None else refuse 422 e))
           | _ \<Rightarrow> (s, Refused 400 ''schema-missing-member'' None None)))"

section \<open>The pending queue\<close>

definition argument_mismatches_since :: "store \<Rightarrow> string \<Rightarrow> string \<Rightarrow> nat" where
  "argument_mismatches_since st who since =
     length (filter (\<lambda>r. rj_submitted_by r = Some who \<and> rj_reason r = ''gate-arguments-hash-mismatch''
                       \<and> rj_received_at r \<ge> since) (rejections st))"

definition rate_limited :: "int \<Rightarrow> response" where
  "rate_limited window = Refused 429 ''gate-rate-limited'' None (Some (if window < 0 then 0 else of_int window))"

text \<open>Arguments that are not the ones the request commits to: refused, and recorded while the caller is below its cap.\<close>

definition refuse_mismatch ::
  "ext \<Rightarrow> kernel \<Rightarrow> world \<Rightarrow> string \<Rightarrow> string \<Rightarrow> string \<Rightarrow> gate_request \<Rightarrow> string \<Rightarrow> error \<Rightarrow> session \<Rightarrow> session \<times> response" where
  "refuse_mismatch x k w who now since rq body e s =
     (let limit = cf_gate_rate_limit (kn_config k); s1 = turn w s
      in if parked_count (argument_mismatches_since (snd s1) who since) \<ge> rl_per_subject limit
         then (s1, rate_limited (rl_window_seconds limit))
         else
           (case canonicalize x
                   (JObject [(''action'', JString (gr_action rq)), (''reason'', JString (detail_of (kn_reading k) body e)),
                             (''request-hash'', JString (gr_hash rq)), (''subject'', JString (gr_subject rq))]) of
              Inl f \<Rightarrow> (s1, unavailable f)
            | Inr detail \<Rightarrow>
                (let s2 = turn w s1;
                     input = \<lparr>ri_reason = ''gate-arguments-hash-mismatch'', ri_detail = detail,
                              ri_object_hash = sha256_hex x detail, ri_submitted_by = Some who, ri_received_at = now,
                              ri_claimed_stream = None, ri_claimed_seq = None, ri_claimed_kind = None\<rparr>
                 in case record_rejection x (in_secret (kn_intake k)) input (snd s2) of
                      Inl f \<Rightarrow> (s2, unavailable f)
                    | Inr (st, _) \<Rightarrow> ((fst s2, st), refuse 422 e))))"

definition queued_answer :: "kernel \<Rightarrow> gate_request \<Rightarrow> bool \<Rightarrow> response" where
  "queued_answer k rq fresh =
     Answer (if fresh then 201 else 200)
       (JObject [(''channels'', json_nat (length (cf_notifications (kn_config k)))), (''idempotent'', JBool (\<not> fresh)),
                 (''not-after'', JString (gr_not_after rq)), (''request-hash'', JString (gr_hash rq)),
                 (''result'', JString ''queued''), (''stozher'', JString version)])"

text \<open>The flood bound is read once for the message and enforced again where the row is written.\<close>

definition park_request ::
  "ext \<Rightarrow> kernel \<Rightarrow> world \<Rightarrow> string \<Rightarrow> string \<Rightarrow> string \<Rightarrow> gate_request \<Rightarrow> string option \<Rightarrow> session \<Rightarrow> session \<times> response" where
  "park_request x k w who now since rq arguments s =
     (let limit = cf_gate_rate_limit (kn_config k); s1 = turn w s
      in case gate_request_of x (snd s1) (gr_hash rq) of
           Inl e \<Rightarrow> (s1, unavailable e)
         | Inr existing \<Rightarrow>
             (let s2 = (if existing = None then turn w s1 else s1)
              in if existing = None \<and> parked_count (gate_requests_since (snd s2) (gr_subject rq) since) \<ge> rl_per_subject limit
                 then (s2, rate_limited (rl_window_seconds limit))
                 else
                   (let s3 = turn w s2; cap = (if existing = None then Some (rl_per_subject limit, since) else None)
                    in case queue_gate_request x rq who now cap arguments (snd s3) of
                         Inr (st, fresh) \<Rightarrow> ((fst s3, st), queued_answer k rq fresh)
                       | Inl e \<Rightarrow>
                           (s3, if has_code ''gate-rate-limited'' e then rate_limited (rl_window_seconds limit)
                                else unavailable e))))"

definition post_gate_request :: "ext \<Rightarrow> kernel \<Rightarrow> world \<Rightarrow> string \<Rightarrow> string \<Rightarrow> session \<Rightarrow> session \<times> response" where
  "post_gate_request x k w who body s =
     (let now = now_at w s
      in case and_then (parse_raw x body) submission of
           Inl e \<Rightarrow> (s, refuse 422 e)
         | Inr (request, arguments) \<Rightarrow>
             (case validate_request x request now of
                Inl e \<Rightarrow> (s, refuse 422 e)
              | Inr rq \<Rightarrow>
                  (case shift now (- rl_window_seconds (cf_gate_rate_limit (kn_config k))) of
                     Inl e \<Rightarrow> (s, unavailable e)
                   | Inr since \<Rightarrow>
                       (case (case arguments of
                                None \<Rightarrow> Inr None
                              | Some a \<Rightarrow> and_then (check_arguments x a (gr_args_hash rq)) (\<lambda>t. Inr (Some t))) of
                          Inr shown \<Rightarrow> park_request x k w who now since rq shown s
                        | Inl e \<Rightarrow>
                            if has_code ''gate-arguments-hash-mismatch'' e
                            then refuse_mismatch x k w who now since rq body e s
                            else (s, refuse 422 e)))))"

section \<open>What can be read\<close>

text \<open>A route that reads: one question to the store, and an answer that leaves the store alone.\<close>

definition reads :: "world \<Rightarrow> (store \<Rightarrow> response) \<Rightarrow> session \<Rightarrow> session \<times> response" where
  "reads w f s = (let s1 = turn w s in (s1, f (snd s1)))"

definition found_or :: "string \<Rightarrow> json option res \<Rightarrow> response" where
  "found_or c r = (case r of Inl e \<Rightarrow> unavailable e | Inr None \<Rightarrow> not_found c | Inr (Some doc) \<Rightarrow> Answer 200 doc)"

definition get_policy_current :: "ext \<Rightarrow> world \<Rightarrow> session \<Rightarrow> session \<times> response" where
  "get_policy_current x w = reads w (\<lambda>st. found_or ''policy-not-published'' (current_policy x st))"

definition get_policy_version :: "ext \<Rightarrow> world \<Rightarrow> string \<Rightarrow> session \<Rightarrow> session \<times> response" where
  "get_policy_version x w v = reads w (\<lambda>st. found_or ''policy-not-published'' (stored_policy_version x st v))"

text \<open>\<open>revocation_feed\<close>: the documents in the order of their identifiers, and the digest of those.\<close>

definition revocation_feed :: "ext \<Rightarrow> store \<Rightarrow> (string \<times> json list) res" where
  "revocation_feed x st =
     (let rows = sort_key rv_id (revocation_rows st)
      in and_then (map_res (\<lambda>r. parse x (rv_document_json r)) rows) (\<lambda>documents.
           Inr (sha256_hex x (concat (List.map (\<lambda>r. rv_id r @ [CHR 0x0A]) rows)), documents)))"

definition get_revocations :: "ext \<Rightarrow> world \<Rightarrow> string option \<Rightarrow> session \<Rightarrow> session \<times> response" where
  "get_revocations x w if_none_match = reads w (\<lambda>st.
     case revocation_feed x st of
       Inl e \<Rightarrow> unavailable e
     | Inr (epoch, documents) \<Rightarrow>
         (let etag = CHR 0x22 # epoch @ [CHR 0x22]
          in if (case if_none_match of None \<Rightarrow> False
                 | Some value \<Rightarrow> list_ex (\<lambda>candidate. trim_blank candidate = etag) (split_on (CHR '','') value))
             then Not_Modified etag
             else Tagged 200
               (JObject [(''count'', json_nat (length documents)), (''revocation-epoch'', JString epoch),
                         (''revocations'', JArray documents), (''stozher'', JString version)]) etag))"

definition gate_decision_of :: "ext \<Rightarrow> store \<Rightarrow> string \<Rightarrow> json option res" where
  "gate_decision_of x st h =
     parse_optional x (map_option dc_decision_json (List.find (\<lambda>d. dc_request_hash d = h) (gate_decisions st)))"

definition optional_json :: "json option \<Rightarrow> json" where
  "optional_json v = (case v of Some j \<Rightarrow> j | None \<Rightarrow> JNull)"

definition get_gate_request :: "ext \<Rightarrow> world \<Rightarrow> string \<Rightarrow> session \<Rightarrow> session \<times> response" where
  "get_gate_request x w h s =
     (let s1 = turn w s
      in case gate_request_of x (snd s1) h of
           Inl e \<Rightarrow> (s1, unavailable e)
         | Inr None \<Rightarrow> (s1, not_found ''not-found'')
         | Inr (Some (request, submitted_by)) \<Rightarrow>
             (let s2 = turn w s1
              in case gate_decision_of x (snd s2) h of
                   Inl e \<Rightarrow> (s2, unavailable e)
                 | Inr decision \<Rightarrow>
                     (let now = now_at w s2; s3 = turn w s2
                      in (s3,
                          case parse_optional x (gate_request_arguments (snd s3) h now) of
                            Inl e \<Rightarrow> unavailable e
                          | Inr arguments \<Rightarrow>
                              Answer 200
                                (JObject [(''arguments'', optional_json arguments),
                                          (''arguments-supplied'', JBool (arguments \<noteq> None)),
                                          (''decision'', optional_json decision), (''request'', request),
                                          (''request-hash'', JString h), (''stozher'', JString version),
                                          (''submitted-by'', JString submitted_by)])))))"

definition get_envelope :: "ext \<Rightarrow> world \<Rightarrow> string \<Rightarrow> session \<Rightarrow> session \<times> response" where
  "get_envelope x w i = reads w (\<lambda>st.
     case envelope_by_id st i of
       None \<Rightarrow> not_found ''not-found''
     | Some row \<Rightarrow>
         (case parse x (er_canonical_json row) of
            Inl e \<Rightarrow> unavailable e
          | Inr env \<Rightarrow>
              Answer 200
                (JObject [(''effective-class'', json_text (er_effective_class row)), (''envelope'', env),
                          (''human-root'', json_text (er_human_root row)), (''id'', JString (er_id row)),
                          (''policy-violation'', json_text (er_policy_violation row)),
                          (''received-at'', JString (er_received_at row))])))"

definition get_stream_verify :: "ext \<Rightarrow> world \<Rightarrow> string \<Rightarrow> session \<Rightarrow> session \<times> response" where
  "get_stream_verify x w stream s =
     (let (s', r) = verify_stream x w stream s
      in (s',
          case r of
            Inr report \<Rightarrow> Answer 200 report
          | Inl Panic \<Rightarrow> Crashed
          | Inl (Err c n) \<Rightarrow>
              if c = store_unavailable then Refused 503 store_unavailable None None
              else Answer 200
                (JObject [(''failed-at-seq'', (case n of Some q \<Rightarrow> JNumber (PosInt q) | None \<Rightarrow> JNull)),
                          (''reason-code'', JString c), (''stream'', JString stream), (''valid'', JBool False)])))"

definition disposition_of :: "string \<Rightarrow> string" where
  "disposition_of h =
     (if is_digest_hex h then ''attachment; filename='' @ [CHR 0x22] @ h @ ''.bin'' @ [CHR 0x22] else ''attachment'')"

definition payload_status :: "string \<Rightarrow> string \<Rightarrow> json" where
  "payload_status what h =
     JObject [(''payload-hash'', JString h), (''result'', JString what), (''stozher'', JString version)]"

text \<open>The bytes, or whether they were ever here: the second question is put to the store only when the first finds nothing.\<close>

definition get_payload :: "world \<Rightarrow> string \<Rightarrow> session \<Rightarrow> session \<times> response" where
  "get_payload w h s =
     (let s1 = turn w s
      in case stored_payload (snd s1) h of
           Some (media_type, octets) \<Rightarrow> (s1, Attachment octets (disposition_of h))
         | None \<Rightarrow>
             (let s2 = turn w s1
              in (s2, if payload_was_committed (snd s2) h then Answer 410 (payload_status ''decayed'' h)
                      else Answer 404 (payload_status ''unknown'' h))))"

section \<open>The kernel's own runs\<close>

definition run_failed :: "error \<Rightarrow> response" where
  "run_failed e = (if has_code store_unavailable e then unavailable e else refuse_at 422 e)"

definition checkpointed :: "string \<times> nat option res \<Rightarrow> json" where
  "checkpointed r =
     (case snd r of
        Inr seq \<Rightarrow> JObject [(''seq'', (case seq of Some n \<Rightarrow> json_nat n | None \<Rightarrow> JNull)), (''stream'', JString (fst r))]
      | Inl e \<Rightarrow> JObject [(''error'', JString (case e of Err c _ \<Rightarrow> c | Panic \<Rightarrow> [])), (''stream'', JString (fst r))])"

definition post_checkpoints :: "ext \<Rightarrow> kernel \<Rightarrow> world \<Rightarrow> string option \<Rightarrow> session \<Rightarrow> session \<times> response" where
  "post_checkpoints x k w stream s =
     (let cs = cf_checkpoint_stream (kn_config k)
      in case stream of
           Some name \<Rightarrow>
             (let (s', r) = emit x (kn_intake k) (kn_reading k) w name cs s
              in (s', case r of
                        Inl e \<Rightarrow> run_failed e
                      | Inr a \<Rightarrow> Answer 200 (JObject [(''checkpointed'', JArray [checkpointed (name, Inr (map_option ad_seq a))])])))
         | None \<Rightarrow>
             (let (s', results) = emit_all x (kn_intake k) (kn_reading k) w cs s
              in (s', if list_ex (\<lambda>r. snd r = Inl Panic) results then Crashed
                      else Answer 200 (JObject [(''checkpointed'', JArray (List.map checkpointed results))]))))"

definition post_decay :: "ext \<Rightarrow> kernel \<Rightarrow> world \<Rightarrow> session \<Rightarrow> session \<times> response" where
  "post_decay x k w s =
     (let (s', r) = decay_with_checkpoints x (kn_intake k) (kn_reading k) w (cf_checkpoint_stream (kn_config k)) s
      in (s', case r of
                Inl e \<Rightarrow> run_failed e
              | Inr report \<Rightarrow>
                  Answer 200
                    (JObject [(''at'', JString (dr_at report)), (''decayed-hashes'', JArray (List.map JString (dr_deleted_hashes report))),
                              (''payloads-deleted'', json_nat (dr_payloads_deleted report)),
                              (''streams-checkpointed'', JArray (List.map JString (dr_streams_checkpointed report)))])))"

section \<open>The table\<close>

datatype route =
    Health
  | Post_Ingest string
  | Policy_Current
  | Policy_Version string
  | Get_Revocations "string option"
  | Post_Revocation string
  | Post_Gate_Request string
  | Get_Gate_Request string
  | Get_Envelope string
  | Stream_Verify string
  | Get_Payload string
  | Post_Checkpoints "string option"
  | Post_Decay

text \<open>A route for a caller that is known.\<close>

definition serve_caller :: "ext \<Rightarrow> kernel \<Rightarrow> world \<Rightarrow> string \<Rightarrow> route \<Rightarrow> session \<Rightarrow> session \<times> response" where
  "serve_caller x k w who r s =
     (case r of
        Health \<Rightarrow> (s, Answer 200 (JObject [(''result'', JString ''ok''), (''stozher'', JString version)]))
      | Post_Ingest body \<Rightarrow> post_ingest x k w who body s
      | Policy_Current \<Rightarrow> get_policy_current x w s
      | Policy_Version v \<Rightarrow> get_policy_version x w v s
      | Get_Revocations etags \<Rightarrow> get_revocations x w etags s
      | Post_Revocation body \<Rightarrow> post_revocation x k w body s
      | Post_Gate_Request body \<Rightarrow> post_gate_request x k w who body s
      | Get_Gate_Request h \<Rightarrow> get_gate_request x w h s
      | Get_Envelope i \<Rightarrow> get_envelope x w i s
      | Stream_Verify name \<Rightarrow> get_stream_verify x w name s
      | Get_Payload h \<Rightarrow> get_payload w h s
      | Post_Checkpoints name \<Rightarrow> post_checkpoints x k w name s
      | Post_Decay \<Rightarrow> post_decay x k w s)"

definition serve :: "ext \<Rightarrow> kernel \<Rightarrow> world \<Rightarrow> string option \<Rightarrow> route \<Rightarrow> session \<Rightarrow> session \<times> response" where
  "serve x k w header r s =
     (if r = Health then serve_caller x k w [] r s
      else
        (case caller_subject x (kn_config k) header of
           Inl e \<Rightarrow> (s, refuse 401 e)
         | Inr who \<Rightarrow> serve_caller x k w who r s))"

section \<open>The approver queue stays bounded\<close>

lemma parked_below: "parked_count n < c \<Longrightarrow> n < unat c"
proof -
  assume a: "parked_count n < c"
  have "unat c < 2 ^ LENGTH(32)" by (rule unsigned_less)
  then have b: "unat c < 4294967296" by simp
  show "n < unat c"
  proof (cases "n < 4294967296")
    case True
    then have "unat (parked_count n) = n" by (simp add: parked_count_def unat_of_nat)
    with a show ?thesis by (metis word_less_nat_alt)
  next
    case False
    then have "unat (parked_count n) = 4294967295" by (simp add: parked_count_def)
    with a b show ?thesis by (simp add: word_less_nat_alt)
  qed
qed

lemma queued_fresh:
  assumes "queue_gate_request x rq who now cap arguments st = Inr (st', True)"
  shows "check_cap st (gr_subject rq) cap = Inr () \<and> \<not> list_ex (\<lambda>r. gq_request_hash r = gr_hash rq) (gate_requests st)
    \<and> gate_requests_since st' who' since \<le> Suc (gate_requests_since st who' since)
    \<and> gr_hash rq \<in> gq_request_hash ` set (gate_requests st')"
  using assms by (auto simp: queue_gate_request_def gate_requests_since_def Let_def split: if_splits option.splits)

lemma found_request: "gate_request_of x st h = Inr (Some v) \<Longrightarrow> list_ex (\<lambda>r. gq_request_hash r = h) (gate_requests st)"
  by (auto simp: gate_request_of_def list_ex_iff split: option.splits dest: find_SomeD)

lemma requests_grow: "grows s s' \<Longrightarrow> list_ex P (gate_requests s) \<Longrightarrow> list_ex P (gate_requests s')"
proof -
  assume "grows s s'"
  then have "set (gate_requests s) \<subseteq> set (gate_requests s')" by (simp add: grows_def set_mono_prefix)
  then show "list_ex P (gate_requests s) \<Longrightarrow> list_ex P (gate_requests s')" by (auto simp: list_ex_iff)
qed

lemma parked_fresh:
  assumes "only_grows w" and "park_request x k w who now since rq arguments s = (s', Answer 201 report)"
  shows "gate_requests_since (snd s') (gr_subject rq) since \<le> unat (rl_per_subject (cf_gate_rate_limit (kn_config k)))
    \<and> gr_hash rq \<in> gq_request_hash ` set (gate_requests (snd s'))"
proof -
  let ?s1 = "turn w s"
  have no: "unavailable e \<noteq> Answer 201 report" "rate_limited v \<noteq> Answer 201 report" for e v
    by (simp_all add: unavailable_def rate_limited_def)
  from assms(2) no obtain existing where e: "gate_request_of x (snd ?s1) (gr_hash rq) = Inr existing"
    by (cases "gate_request_of x (snd ?s1) (gr_hash rq)") (auto simp: park_request_def Let_def)
  let ?s2 = "if existing = None then turn w ?s1 else ?s1"
  let ?cap = "if existing = None then Some (rl_per_subject (cf_gate_rate_limit (kn_config k)), since) else None"
  from assms(2) e no obtain st fresh where q: "queue_gate_request x rq who now ?cap arguments (snd (turn w ?s2)) = Inr (st, fresh)"
    "s' = (fst (turn w ?s2), st)" "queued_answer k rq fresh = Answer 201 report"
    by (auto simp: park_request_def Let_def split: if_splits sum.splits prod.splits)
  then have f: "fresh" by (auto simp: queued_answer_def split: if_splits)
  note n = queued_fresh [OF q(1) [unfolded eqTrueI [OF f]], of "gr_subject rq" since]
  have "existing = None"
  proof (rule ccontr)
    assume "existing \<noteq> None"
    then obtain v where "existing = Some v" by blast
    with found_request e have "list_ex (\<lambda>r. gq_request_hash r = gr_hash rq) (gate_requests (snd ?s1))" by blast
    with requests_grow [OF grows_turn [OF assms(1)]] \<open>existing \<noteq> None\<close> n show False by auto
  qed
  with n have "parked_count (gate_requests_since (snd (turn w ?s2)) (gr_subject rq) since) < rl_per_subject (cf_gate_rate_limit (kn_config k))"
    by (auto simp: check_cap_def split: if_splits)
  from parked_below [OF this] n q(2) show ?thesis by simp
qed

text \<open>C32: The approver queue stays bounded: whatever the other writers do between the steps of the handler, a request that is
  answered as newly queued is in the queue, and the queue then holds no more requests of that subject, received within
  the window, than the configured cap: a racing flood cannot get past the count that was read before.\<close>

theorem queue_cap_holds:
  assumes "only_grows w" and "post_gate_request x k w who body s = (s', Answer 201 report)"
  shows "\<exists>request arguments rq since. and_then (parse_raw x body) submission = Inr (request, arguments)
    \<and> validate_request x request (now_at w s) = Inr rq
    \<and> shift (now_at w s) (- rl_window_seconds (cf_gate_rate_limit (kn_config k))) = Inr since
    \<and> gate_requests_since (snd s') (gr_subject rq) since \<le> unat (rl_per_subject (cf_gate_rate_limit (kn_config k)))
    \<and> gr_hash rq \<in> gq_request_hash ` set (gate_requests (snd s'))"
proof -
  have no: "unavailable e \<noteq> Answer 201 report" "refuse n e \<noteq> Answer 201 report"
    "snd (refuse_mismatch x k w who now since rq body e s) \<noteq> Answer 201 report" for e n now since rq
    by (auto simp: unavailable_def refuse_def refuse_mismatch_def rate_limited_def Let_def split: error.splits sum.splits prod.splits)
  from assms(2) no obtain request arguments where p: "and_then (parse_raw x body) submission = Inr (request, arguments)"
    by (cases "and_then (parse_raw x body) submission") (auto simp: post_gate_request_def Let_def)
  from assms(2) no p obtain rq where rq: "validate_request x request (now_at w s) = Inr rq"
    by (cases "validate_request x request (now_at w s)") (auto simp: post_gate_request_def Let_def)
  let ?since = "shift (now_at w s) (- rl_window_seconds (cf_gate_rate_limit (kn_config k)))"
  from assms(2) no p rq obtain since where since: "?since = Inr since"
    by (cases ?since) (auto simp: post_gate_request_def Let_def)
  let ?shown = "case arguments of None \<Rightarrow> Inr None | Some a \<Rightarrow> and_then (check_arguments x a (gr_args_hash rq)) (\<lambda>t. Inr (Some t))"
  from assms(2) p rq since obtain shown where
    "park_request x k w who (now_at w s) since rq shown s = (s', Answer 201 report)"
  proof (cases ?shown)
    case (Inl e)
    with assms(2) p rq since no show ?thesis
      by (auto simp: post_gate_request_def Let_def split: if_splits) (metis snd_conv)
  next
    case (Inr shown)
    with assms(2) p rq since that show ?thesis by (simp add: post_gate_request_def Let_def)
  qed
  from parked_fresh [OF assms(1) this] p rq since show ?thesis by blast
qed

section \<open>What each route may change\<close>

definition quiet :: "world \<Rightarrow> bool" where
  "quiet w \<longleftrightarrow> wd_others w = (\<lambda>n st. st)"

lemma quiet_turn: "quiet w \<Longrightarrow> snd (turn w s) = snd s"
  by (simp add: quiet_def turn_def)

text \<open>Only the queue, the arguments beside it and the rejections differ.\<close>

definition only_queue :: "store \<Rightarrow> store \<Rightarrow> bool" where
  "only_queue st st' \<longleftrightarrow>
     st' = st\<lparr>gate_requests := gate_requests st', gate_arguments := gate_arguments st', rejections := rejections st'\<rparr>"

lemma only_queue_refl [simp]: "only_queue st st"
  by (simp add: only_queue_def)

lemma only_queue_envelopes: "only_queue st st' \<Longrightarrow> envelopes st' = envelopes st"
  unfolding only_queue_def by (drule arg_cong [of _ _ envelopes]) simp

lemma queue_only: "queue_gate_request x rq who now cap arguments st = Inr (st', fresh) \<Longrightarrow> only_queue st st'"
  by (auto simp: queue_gate_request_def only_queue_def Let_def split: if_splits option.splits)

lemma rejection_only: "record_rejection x secret input st = Inr (st', r) \<Longrightarrow> only_queue st st'"
  by (auto simp: record_rejection_def only_queue_def Let_def case_prod_beta split: if_splits)

text \<open>The gate route cannot append an effect: with no other writer, whatever body is sent to it, the request queue, the
  arguments beside it and the rejections are all that can differ afterwards; no envelope, payload, use of an approval
  or projection does.\<close>

theorem gate_route_only_queues:
  assumes "quiet w"
  shows "only_queue (snd s) (snd (fst (post_gate_request x k w who body s)))"
proof -
  note q = quiet_turn [OF assms]
  have m: "only_queue (snd s) (snd (fst (refuse_mismatch x k w who now since rq body e s)))" for now since rq e
    using rejection_only by (auto simp: refuse_mismatch_def Let_def q split: sum.splits prod.splits)
  have p: "only_queue (snd s) (snd (fst (park_request x k w who now since rq shown s)))" for now since rq shown
    using queue_only by (auto simp: park_request_def Let_def q split: sum.splits prod.splits)
  show ?thesis
    using m p by (auto simp: post_gate_request_def Let_def split: sum.splits prod.splits)
qed

definition alters :: "route \<Rightarrow> bool" where
  "alters r \<longleftrightarrow>
     (case r of Post_Ingest _ \<Rightarrow> True | Post_Revocation _ \<Rightarrow> True | Post_Gate_Request _ \<Rightarrow> True | Post_Checkpoints _ \<Rightarrow> True
      | Post_Decay \<Rightarrow> True | _ \<Rightarrow> False)"

lemma reads_quiet: "quiet w \<Longrightarrow> snd (fst (reads w f s)) = snd s"
  by (simp add: reads_def Let_def quiet_turn)

lemma verify_quiet: "quiet w \<Longrightarrow> snd (fst (verify_stream x w stream s)) = snd s"
  by (simp add: verify_stream_def Let_def quiet_turn split: option.splits sum.splits)


section \<open>A deployment for the witnesses\<close>

definition demo_kernel :: "u32 \<Rightarrow> kernel" where
  "demo_kernel cap =
     \<lparr>kn_config =
        \<lparr>cf_bind = [], cf_database = [], cf_kernel_seed = [], cf_policy_key = KeyId ''k'', cf_kernel_core_stream = ''kernel:core'',
         cf_checkpoint_stream = ''kernel:checkpoints'', cf_rejection_stream = ''kernel:rejections'',
         cf_max_future_skew_seconds = 300, cf_roots = [],
         cf_callers = [\<lparr>ca_subject = ''agent:gw'', ca_token_sha256 = sha256_hex demo_ext ''token''\<rparr>], cf_notifications = [],
         cf_console_base_url = None, cf_gate_rate_limit = \<lparr>rl_per_subject = cap, rl_window_seconds = 300\<rparr>,
         cf_decay_interval_seconds = 86400, cf_clock_advance = None\<rparr>,
      kn_intake = \<lparr>in_secret = replicate 32 (CHR ''s''), in_policy_key = KeyId ''k'', in_max_future_skew = 300,
                    in_core_stream = ''kernel:core''\<rparr>,
      kn_reading = \<lparr>from_str = (\<lambda>_. None), detail_of = (\<lambda>_ _. ''mismatch'')\<rparr>\<rparr>"

definition at_nine :: world where
  "at_nine = \<lparr>wd_others = (\<lambda>n st. st), wd_now = (\<lambda>n. ''2026-07-26T09:00:01.000Z'')\<rparr>"

definition parked_text :: string where
  "parked_text = (case canonicalize demo_ext demo_parked of Inr t \<Rightarrow> t | Inl _ \<Rightarrow> [])"

lemma at_nine_facts: "only_grows at_nine" "quiet at_nine"
  by (simp_all add: only_grows_def quiet_def at_nine_def)

theorem queue_cap_holds_witness:
  "\<exists>(s' :: session) (rq :: gate_request). snd s' \<noteq> empty_store ''kernel:rejections''
     \<and> gate_requests_since (snd s') (gr_subject rq) ''2026-07-26T08:55:01.000Z'' \<le> 1
     \<and> gr_hash rq \<in> gq_request_hash ` set (gate_requests (snd s'))"
proof -
  let ?run = "post_gate_request (reader [demo_parked]) (demo_kernel 1) at_nine ''agent:gw'' parked_text
      (0, empty_store ''kernel:rejections'')"
  have "case ?run of (s', Answer n report) \<Rightarrow> n = 201 | _ \<Rightarrow> False" by code_simp
  then obtain s' report where r: "?run = (s', Answer 201 report)" by (auto split: prod.splits response.splits)
  have t: "shift (now_at at_nine (0, empty_store ''kernel:rejections''))
      (- rl_window_seconds (cf_gate_rate_limit (kn_config (demo_kernel 1)))) = Inr ''2026-07-26T08:55:01.000Z''" by code_simp
  have c: "unat (rl_per_subject (cf_gate_rate_limit (kn_config (demo_kernel 1)))) = 1" by (simp add: demo_kernel_def)
  from queue_cap_holds [OF at_nine_facts(1) r] obtain rq :: gate_request where
    q: "gate_requests_since (snd s') (gr_subject rq) ''2026-07-26T08:55:01.000Z'' \<le> 1"
    "gr_hash rq \<in> gq_request_hash ` set (gate_requests (snd s'))" unfolding t c sum.inject by blast
  then have "snd s' \<noteq> empty_store ''kernel:rejections''" by (auto simp: empty_store_def)
  with q show ?thesis by blast
qed

theorem gate_route_only_queues_witness:
  "only_queue (empty_store ''kernel:rejections'') (snd (fst (post_gate_request (reader [demo_parked]) (demo_kernel 1) at_nine
     ''agent:gw'' parked_text (0, empty_store ''kernel:rejections''))))"
  using gate_route_only_queues [OF at_nine_facts(2), of "(0, empty_store ''kernel:rejections'')"] by simp


section \<open>Evidence\<close>



section \<open>Revocations\<close>

lemma map_insert_same: "map_of (map_insert k v m) k = Some v"
  by (induction k v m rule: map_insert.induct) auto

lemma signed_get:
  assumes "sign_object x (JObject m) secret = Inr env" and "k \<noteq> ''sig''"
  shows "get env k = map_of m k"
  using assms by (auto simp: sign_object_def Let_def map_insert_other map_of_remove)

text \<open>The mismatch cannot be constructed: for every object the revocation route accepts, the envelope the kernel signs around
  it carries the object itself, and its three projected members are the object's, so the comparison of the intake
  between the envelope and the object it nests succeeds.\<close>

lemma revocation_projection_exact:
  assumes "get_str object ''revokes'' = Some revokes" and "get_str object ''revoked-at'' = Some revoked_at"
    and "sign_object x (kernel_body x cfg ''revocation'' now position (revocation_members object revokes revoked_at)) secret = Inr env"
  shows "get env ''revocation'' = Some object
    \<and> \<not> list_ex (\<lambda>k. get env k \<noteq> get object k) [''revokes'', ''revoked-at'', ''reason'']"
proof -
  note g = signed_get [OF assms(3) [unfolded kernel_body_def]]
  have o: "get object ''revokes'' = Some (JString revokes)" "get object ''revoked-at'' = Some (JString revoked_at)"
    using assms(1,2) by (simp_all add: get_str_eq_Some)
  show ?thesis
    by (cases "get object ''reason''") (simp_all add: g o revocation_members_def map_insert_same map_insert_other)
qed

theorem revocation_projection_exact_witness:
  "\<exists>env. get env ''revokes'' = Some (JString ''m'') \<and> get env ''reason'' = None
     \<and> get env ''revocation'' = Some (JObject [(''revoked-at'', JString ''t''), (''revokes'', JString ''m'')])"
proof -
  let ?o = "JObject [(''revoked-at'', JString ''t''), (''revokes'', JString ''m'')]"
  let ?b = "kernel_body demo_ext (kn_intake (demo_kernel 1)) ''revocation'' ''2026-07-26T09:00:00.000Z'' (0, None)
      (revocation_members ?o ''m'' ''t'')"
  have "case sign_object demo_ext ?b (in_secret (kn_intake (demo_kernel 1))) of Inr _ \<Rightarrow> True | Inl _ \<Rightarrow> False" by code_simp
  then obtain env where e: "sign_object demo_ext ?b (in_secret (kn_intake (demo_kernel 1))) = Inr env" by (auto split: sum.splits)
  have "get_str ?o ''revokes'' = Some ''m''" "get_str ?o ''revoked-at'' = Some ''t''" by code_simp+
  from revocation_projection_exact [OF this e] show ?thesis by auto
qed

section \<open>Racing mismatches\<close>

text \<open>A hash that keeps the first 32 octets, so that the two records have different identifiers.\<close>

definition head_ext :: ext where
  "head_ext = demo_ext\<lparr>sha256 := (\<lambda>s. take 32 (s @ zeros))\<rparr>"

text \<open>Another instance of the handler, which recorded a mismatch of the same caller in the meantime.\<close>

definition other_mismatch :: "store \<Rightarrow> store" where
  "other_mismatch st =
     (case record_rejection head_ext (replicate 32 (CHR ''s''))
             \<lparr>ri_reason = ''gate-arguments-hash-mismatch'', ri_detail = ''other'', ri_object_hash = sha256_hex head_ext ''other'',
              ri_submitted_by = Some ''agent:gw'', ri_received_at = ''2026-07-26T09:00:00.000Z'', ri_claimed_stream = None,
              ri_claimed_seq = None, ri_claimed_kind = None\<rparr> st of
        Inr (st', _) \<Rightarrow> st' | Inl _ \<Rightarrow> st)"


end
