(* ===== verification/Console.thy ===== *)
theory Console
  imports Http
begin

text \<open>
  The one route of the console that writes, \<open>stozher-kernel/src/console.rs\<close>: the answer of a human to a parked request, with the
  token that binds the form to the caller (\<open>lib.rs\<close>) and the decoding of the form. The pages are not modelled.
\<close>

section \<open>Form values\<close>

text \<open>\<open>u8::from_str_radix(_, 16)\<close> on two octets: a leading plus sign is accepted.\<close>

definition radix_value :: "char \<Rightarrow> nat" where
  "radix_value c = (if is_digit c then octet c - 48 else if is_lower c then octet c - 87 else octet c - 55)"

definition radix16 :: "char \<Rightarrow> char \<Rightarrow> char option" where
  "radix16 a b =
     (if \<not> is_hex_digit b then None
      else if is_hex_digit a then Some (char_of (16 * radix_value a + radix_value b))
      else if a = CHR ''+'' then Some (char_of (radix_value b)) else None)"

definition continues_first :: "string \<Rightarrow> bool" where
  "continues_first t \<longleftrightarrow> (case t of c # _ \<Rightarrow> continues (octet c) | [] \<Rightarrow> False)"

text \<open>The loop of \<open>form_decode\<close>. The slice after a percent sign panics when it ends inside a character.\<close>

fun decode_octets :: "string \<Rightarrow> string res" where
  "decode_octets [] = Inr []"
| "decode_octets (c # rest) =
     (if c = CHR ''+'' then and_then (decode_octets rest) (\<lambda>out. Inr (CHR '' '' # out))
      else if c = CHR ''%'' then
        (case rest of
           a # b # t \<Rightarrow>
             if continues_first t then Inl Panic
             else
               (case radix16 a b of
                  Some d \<Rightarrow> and_then (decode_octets t) (\<lambda>out. Inr (d # out))
                | None \<Rightarrow> and_then (decode_octets rest) (\<lambda>out. Inr (c # out)))
         | _ \<Rightarrow> and_then (decode_octets rest) (\<lambda>out. Inr (c # out)))
      else and_then (decode_octets rest) (\<lambda>out. Inr (c # out)))"

definition replacement :: string where "replacement = [CHR 0xEF, CHR 0xBF, CHR 0xBD]"

text \<open>What \<open>from_utf8_lossy\<close> takes at once: how many octets, and whether they are a character.\<close>

definition chunk :: "nat list \<Rightarrow> nat \<times> bool" where
  "chunk s =
     (case s of
        [] \<Rightarrow> (0, True)
      | a # s1 \<Rightarrow>
          if a < 128 then (1, True)
          else if 194 \<le> a \<and> a < 224 then
            (case s1 of b # _ \<Rightarrow> if continues b then (2, True) else (1, False) | [] \<Rightarrow> (1, False))
          else if 224 \<le> a \<and> a < 240 then
            (case s1 of
               b # s2 \<Rightarrow>
                 if \<not> (continues b \<and> (a = 224 \<longrightarrow> 160 \<le> b) \<and> (a = 237 \<longrightarrow> b < 160)) then (1, False)
                 else (case s2 of c # _ \<Rightarrow> if continues c then (3, True) else (2, False) | [] \<Rightarrow> (2, False))
             | [] \<Rightarrow> (1, False))
          else if 240 \<le> a \<and> a < 245 then
            (case s1 of
               b # s2 \<Rightarrow>
                 if \<not> (continues b \<and> (a = 240 \<longrightarrow> 144 \<le> b) \<and> (a = 244 \<longrightarrow> b < 144)) then (1, False)
                 else
                   (case s2 of
                      c # s3 \<Rightarrow>
                        if \<not> continues c then (2, False)
                        else (case s3 of d # _ \<Rightarrow> if continues d then (4, True) else (3, False) | [] \<Rightarrow> (3, False))
                    | [] \<Rightarrow> (2, False))
             | [] \<Rightarrow> (1, False))
          else (1, False))"

lemma chunk_pos: "0 < fst (chunk (a # s))"
  by (auto simp: chunk_def split: list.splits)

function utf8_lossy :: "string \<Rightarrow> string" where
  "utf8_lossy [] = []"
| "utf8_lossy (a # s) =
     (case chunk (List.map octet (a # s)) of
        (n, good) \<Rightarrow> (if good then take n (a # s) else replacement) @ utf8_lossy (drop n (a # s)))"
  by pat_completeness auto
termination
proof (relation "measure length")
  fix a :: char and s n good
  assume "(n, good) = chunk (List.map octet (a # s))"
  then have "0 < n" using chunk_pos [of "octet a" "List.map octet s"] by (metis fst_conv list.simps(9))
  then show "(drop n (a # s), a # s) \<in> measure length" by simp
qed simp

definition form_decode :: "string \<Rightarrow> string res" where
  "form_decode value = and_then (decode_octets value) (\<lambda>out. Inr (utf8_lossy out))"

definition unreserved :: "char \<Rightarrow> bool" where
  "unreserved c \<longleftrightarrow> is_upper c \<or> is_lower c \<or> is_digit c \<or> c \<in> set ''-._~''"

definition upper_hex :: "nat \<Rightarrow> char" where
  "upper_hex n = char_of (if n < 10 then 48 + n else 55 + n)"

definition percent_encode :: "string \<Rightarrow> string" where
  "percent_encode value =
     concat (List.map (\<lambda>c. if unreserved c then [c]
                      else [CHR ''%'', upper_hex (octet c div 16), upper_hex (octet c mod 16)]) value)"

section \<open>The form's token\<close>

definition csrf_token :: "ext \<Rightarrow> string \<Rightarrow> string \<Rightarrow> string \<Rightarrow> string" where
  "csrf_token x nonce who h = sha256_hex x (nonce @ who @ [CHR 0x00] @ h)"

definition csrf_ok :: "ext \<Rightarrow> string \<Rightarrow> string \<Rightarrow> string \<Rightarrow> string \<Rightarrow> bool" where
  "csrf_ok x nonce who h presented = constant_time_eq (octets_of (csrf_token x nonce who h)) (octets_of presented)"

section \<open>The submission\<close>

text \<open>One pair of a form: the last of several wins, other names are ignored.\<close>

definition form_pair :: "string \<times> string \<Rightarrow> string \<Rightarrow> (string \<times> string) res" where
  "form_pair so_far pair =
     (let (name, value) = (case split_once pair (CHR ''='') of Some nv \<Rightarrow> nv | None \<Rightarrow> (pair, []))
      in if name = ''csrf'' then and_then (form_decode value) (\<lambda>v. Inr (v, snd so_far))
         else if name = ''decision'' then and_then (form_decode value) (\<lambda>v. Inr (fst so_far, v))
         else Inr so_far)"

fun form_pairs :: "string \<times> string \<Rightarrow> string list \<Rightarrow> (string \<times> string) res" where
  "form_pairs so_far [] = Inr so_far"
| "form_pairs so_far (pair # pairs) = and_then (form_pair so_far pair) (\<lambda>next_one. form_pairs next_one pairs)"

definition submitted_decision :: "ext \<Rightarrow> string \<Rightarrow> bool \<Rightarrow> (string \<times> json) res" where
  "submitted_decision x body form =
     and_then (check (is_utf8 body) ''jcs-malformed-json'') (\<lambda>_.
     and_then
       (if form then
          and_then (form_pairs ([], []) (split_on (CHR ''&'') body)) (\<lambda>(csrf, text).
          and_then (parse x text) (\<lambda>decision. Inr (csrf, decision)))
        else
          and_then (parse x body) (\<lambda>v.
          and_then (ok_or (get v ''decision'') ''schema-missing-member'') (\<lambda>decision.
            Inr (str_or_empty (index v ''csrf''), decision)))) (\<lambda>(csrf, decision).
       if csrf = [] then Inl (err ''schema-missing-member'') else Inr (csrf, decision)))"

section \<open>The decision\<close>

datatype console_answer =
    Recorded_Page string
  | Recorded json
  | Declined nat string
  | Console_Unavailable
  | Console_Crashed

definition decline :: "nat \<Rightarrow> error \<Rightarrow> console_answer" where
  "decline status e = (case e of Err c _ \<Rightarrow> Declined status c | Panic \<Rightarrow> Console_Crashed)"

definition console_unavailable :: "error \<Rightarrow> console_answer" where
  "console_unavailable e = (if e = Panic then Console_Crashed else Console_Unavailable)"

definition decision_members :: "string \<Rightarrow> json \<Rightarrow> jmap" where
  "decision_members h decision = [(''decision'', decision), (''decision-of'', JString h)]"

definition record_decision ::
  "ext \<Rightarrow> kernel \<Rightarrow> world \<Rightarrow> string \<Rightarrow> bool \<Rightarrow> gate_decision_ok \<Rightarrow> session \<Rightarrow> session \<times> console_answer" where
  "record_decision x k w h form ok s =
     (case append_as_kernel x (kn_intake k) (kn_reading k) w ''gate-decision'' (decision_members h (gd_decision ok)) s of
        (s', Inr i) \<Rightarrow>
          (s', if form then Recorded_Page (''/console/pending?recorded='' @ i @ ''&verdict='' @ percent_encode (gd_verdict ok))
               else Recorded
                 (JObject [(''decided-by'', JString (as_string (gd_decided_by ok))), (''decision'', JString (gd_verdict ok)),
                           (''envelope-id'', JString i), (''request-hash'', JString h), (''result'', JString ''recorded''),
                           (''stozher'', JString version)]))
      | (s', Inl e) \<Rightarrow> (s', if has_code store_unavailable e then Console_Unavailable else decline 422 e))"

text \<open>The checks between the parked request and the record.\<close>

definition answer_request ::
  "ext \<Rightarrow> kernel \<Rightarrow> world \<Rightarrow> string \<Rightarrow> bool \<Rightarrow> json \<Rightarrow> json \<Rightarrow> session \<Rightarrow> session \<times> console_answer" where
  "answer_request x k w h form decision request s =
     (let requested_at = (case as_str (index request ''requested-at'') of Some t \<Rightarrow> t | None \<Rightarrow> now_at w s)
      in case validate_request x request requested_at of
           Inl e \<Rightarrow> (s, console_unavailable e)
         | Inr rq \<Rightarrow>
             (case check_decision x decision rq of
                Inl e \<Rightarrow> (s, decline 422 e)
              | Inr ok \<Rightarrow>
                  (let s1 = turn w s
                   in case approvers_for x (kn_intake k) (snd s1) (gr_classification rq) (gr_action rq) (gd_decided_at ok) of
                        Inl e \<Rightarrow> (s1, console_unavailable e)
                      | Inr allowed \<Rightarrow>
                          (case List.find (\<lambda>a. approver_key a = gd_decided_by ok) allowed of
                             None \<Rightarrow> (s1, Declined 403 ''gate-approver-not-permitted'')
                           | Some approver \<Rightarrow>
                               if approver_subject approver = Some (gr_subject rq) then (s1, Declined 403 ''gate-self-approval'')
                               else record_decision x k w h form ok s1))))"

definition decide ::
  "ext \<Rightarrow> kernel \<Rightarrow> string \<Rightarrow> world \<Rightarrow> string option \<Rightarrow> string \<Rightarrow> bool \<Rightarrow> string \<Rightarrow> session \<Rightarrow> session \<times> console_answer" where
  "decide x k nonce w header h form body s =
     (case caller_subject x (kn_config k) header of
        Inl e \<Rightarrow> (s, decline 401 e)
      | Inr who \<Rightarrow>
          (case submitted_decision x body form of
             Inl e \<Rightarrow> (s, decline 400 e)
           | Inr (csrf, decision) \<Rightarrow>
               if \<not> csrf_ok x nonce who h csrf then (s, Declined 403 ''console-csrf-invalid'')
               else
                 (let s1 = turn w s
                  in case gate_request_of x (snd s1) h of
                       Inl e \<Rightarrow> (s1, console_unavailable e)
                     | Inr None \<Rightarrow> (s1, Declined 404 ''not-found'')
                     | Inr (Some (request, _)) \<Rightarrow> answer_request x k w h form decision request s1)))"

section \<open>Forms survive their encoding\<close>

lemma octet_upper_hex: "n < 16 \<Longrightarrow> octet (upper_hex n) = (if n < 10 then 48 + n else 55 + n)"
  by (simp add: upper_hex_def)

lemma upper_hex_props:
  assumes "n < 16"
  shows "is_hex_digit (upper_hex n)" "radix_value (upper_hex n) = n" "octet (upper_hex n) < 128"
    "upper_hex n \<noteq> CHR ''+''"
proof -
  have "octet (CHR ''+'') = 43" by (simp add: octet_def)
  moreover have "octet (upper_hex n) \<noteq> 43" using assms by (simp add: octet_upper_hex)
  ultimately show "upper_hex n \<noteq> CHR ''+''" by metis
qed (use assms in \<open>simp_all add: octet_upper_hex is_hex_digit_def is_lower_hex_def is_digit_def radix_value_def is_lower_def\<close>)

lemma radix16_upper: "radix16 (upper_hex (octet c div 16)) (upper_hex (octet c mod 16)) = Some c"
proof -
  have "octet c < 16 * 16" by simp
  then have d: "octet c div 16 < 16" "octet c mod 16 < 16" by (rule less_mult_imp_div_less) simp
  have "16 * (octet c div 16) + octet c mod 16 = octet c" by simp
  then have "char_of (16 * (octet c div 16) + octet c mod 16) = c" by (simp add: octet_def)
  with upper_hex_props [OF d(1)] upper_hex_props [OF d(2)] show ?thesis by (simp add: radix16_def)
qed

lemma unreserved_plain: "unreserved c \<Longrightarrow> c \<noteq> CHR ''+'' \<and> c \<noteq> CHR ''%'' \<and> octet c < 128"
  by (auto simp: unreserved_def is_upper_def is_lower_def is_digit_def octet_def)

lemma percent_encode_Cons:
  "percent_encode (c # s) =
     (if unreserved c then [c] else [CHR ''%'', upper_hex (octet c div 16), upper_hex (octet c mod 16)]) @ percent_encode s"
  by (simp add: percent_encode_def)

lemma percent_encode_starts: "\<not> continues_first (percent_encode s)"
proof (cases s)
  case (Cons c t)
  then show ?thesis
    using unreserved_plain [of c] by (auto simp: percent_encode_Cons continues_first_def continues_def octet_def)
qed (simp add: percent_encode_def continues_first_def)

lemma decode_percent: "decode_octets (percent_encode s) = Inr s"
proof (induction s)
  case (Cons c s)
  then show ?case
    using unreserved_plain [of c] radix16_upper [of c] percent_encode_starts [of s]
    by (cases "unreserved c") (simp_all add: percent_encode_Cons)
qed (simp add: percent_encode_def)

lemma wellformed_chunk:
  assumes "utf8_wellformed (a # s)"
  shows "snd (chunk (a # s)) \<and> utf8_wellformed (drop (fst (chunk (a # s))) (a # s))"
  using assms unfolding utf8_wellformed.simps(2) chunk_def list.case
  by (auto simp del: utf8_wellformed.simps split: list.splits if_splits)

lemma lossy_wellformed: "is_utf8 s \<Longrightarrow> utf8_lossy s = s"
proof (induction s rule: utf8_lossy.induct)
  case (2 a s)
  let ?c = "chunk (List.map octet (a # s))"
  obtain n good where c: "?c = (n, good)" by fastforce
  have w: "utf8_wellformed (octet a # List.map octet s)" using 2(2) by (simp only: is_utf8_def list.map)
  from c have "chunk (octet a # List.map octet s) = (n, good)" by simp
  with wellformed_chunk [OF w] have "good" "utf8_wellformed (drop n (List.map octet (a # s)))" by simp_all
  then have "good" "is_utf8 (drop n (a # s))" by (simp_all only: is_utf8_def drop_map)
  with 2(1) [OF c [symmetric]] c show ?case by simp
qed simp

text \<open>C38: What the console writes into the location of its redirect is read back exactly by its own form decoder: decoding the
  percent encoding of any text gives that text.\<close>

theorem form_round_trip:
  assumes "is_utf8 value"
  shows "form_decode (percent_encode value) = Inr value"
  using lossy_wellformed [OF assms] by (simp add: form_decode_def decode_percent)

theorem form_round_trip_witness:
  "form_decode (percent_encode [CHR ''a'', CHR ''&'', CHR 0xE2, CHR 0x82, CHR 0xAC]) = Inr [CHR ''a'', CHR ''&'', CHR 0xE2, CHR 0x82, CHR 0xAC]"
proof (rule form_round_trip)
  have "List.map octet [CHR ''a'', CHR ''&'', CHR 0xE2, CHR 0x82, CHR 0xAC] = [97, 38, 226, 130, 172]" by (simp add: octet_def)
  moreover have "utf8_wellformed [97, 38, 226, 130, 172]" by code_simp
  ultimately show "is_utf8 [CHR ''a'', CHR ''&'', CHR 0xE2, CHR 0x82, CHR 0xAC]" by (simp only: is_utf8_def)
qed

section \<open>A form that crashes the route\<close>

lemma crash_body_utf8: "is_utf8 (''decision=%a'' @ [CHR 0xE2, CHR 0x82, CHR 0xAC])"
proof -
  have "List.map octet (''decision=%a'' @ [CHR 0xE2, CHR 0x82, CHR 0xAC])
      = [100, 101, 99, 105, 115, 105, 111, 110, 61, 37, 97, 226, 130, 172]" by (simp add: octet_def)
  moreover have "utf8_wellformed [100, 101, 99, 105, 115, 105, 111, 110, 61, 37, 97, 226, 130, 172]" by code_simp
  ultimately show ?thesis by (simp only: is_utf8_def)
qed


section \<open>The token\<close>

lemma csrf_ok_iff: "csrf_ok x nonce who h presented \<longleftrightarrow> presented = csrf_token x nonce who h"
  by (auto simp: csrf_ok_def constant_time_eq_iff octets_of_inj)

text \<open>Two tokens of one process that agree are for the same caller and the same request, or the hash has a collision.\<close>

lemma csrf_token_binds:
  assumes "csrf_token x nonce who h = csrf_token x nonce who' h'"
    and "CHR 0x00 \<notin> set who" and "CHR 0x00 \<notin> set who'"
  shows "who = who' \<and> h = h' \<or> (\<exists>a b. a \<noteq> b \<and> sha256_hex x a = sha256_hex x b)"
proof (cases "who @ [CHR 0x00] @ h = who' @ [CHR 0x00] @ h'")
  case True
  have t: "takeWhile (\<lambda>c. c \<noteq> CHR 0x00) (u @ [CHR 0x00] @ v) = u" if "CHR 0x00 \<notin> set u" for u v
    using that by (induction u) auto
  from t [OF assms(2), of h] t [OF assms(3), of h'] True have "who = who'" by simp
  with True show ?thesis by simp
next
  case False
  with assms(1) show ?thesis unfolding csrf_token_def by (metis same_append_eq)
qed

section \<open>What is recorded\<close>

lemma kernel_append_stored:
  assumes "only_grows w" and "append_as_kernel x cfg rd w kind extra s = (s', Inr i)"
  shows "i \<in> er_id ` set (envelopes (snd s'))"
proof -
  have "i \<in> er_id ` set (envelopes (snd s'))" if "kernel_attempts x cfg rd w kind extra n s = (s', Inr i)" for n s
    using that
  proof (induction n arbitrary: s)
    case (Suc n)
    from Suc.prems show ?case
      by (auto simp: Let_def split: sum.splits prod.splits outcome.splits if_splits
          dest: Suc.IH accepted_now_stored [OF assms(1)])
  qed simp
  with assms(2) show ?thesis by (simp add: append_as_kernel_def)
qed

definition recorded :: "console_answer \<Rightarrow> bool" where
  "recorded a \<longleftrightarrow> (case a of Recorded_Page _ \<Rightarrow> True | Recorded _ \<Rightarrow> True | _ \<Rightarrow> False)"

lemma not_recorded [simp]: "\<not> recorded (decline n e)" "\<not> recorded (console_unavailable e)" "\<not> recorded (Declined n c)"
  by (auto simp: recorded_def decline_def console_unavailable_def split: error.splits)

lemma record_decision_iff:
  "recorded (snd (record_decision x k w h form ok s)) \<longleftrightarrow>
     (\<exists>i. snd (append_as_kernel x (kn_intake k) (kn_reading k) w ''gate-decision'' (decision_members h (gd_decision ok)) s) = Inr i)"
  by (auto simp: record_decision_def recorded_def case_prod_beta decline_def split: sum.splits error.splits)

text \<open>The request as the form shows it, and the answer that may be recorded for it.\<close>

definition requested_at_of :: "world \<Rightarrow> session \<Rightarrow> json \<Rightarrow> string" where
  "requested_at_of w s request = (case as_str (index request ''requested-at'') of Some t \<Rightarrow> t | None \<Rightarrow> now_at w s)"

lemma answer_request_iff:
  "recorded (snd (answer_request x k w h form decision request s)) \<longleftrightarrow>
     (\<exists>rq ok allowed approver i. validate_request x request (requested_at_of w s request) = Inr rq
        \<and> check_decision x decision rq = Inr ok
        \<and> approvers_for x (kn_intake k) (snd (turn w s)) (gr_classification rq) (gr_action rq) (gd_decided_at ok) = Inr allowed
        \<and> List.find (\<lambda>a. approver_key a = gd_decided_by ok) allowed = Some approver
        \<and> approver_subject approver \<noteq> Some (gr_subject rq)
        \<and> snd (append_as_kernel x (kn_intake k) (kn_reading k) w ''gate-decision'' (decision_members h (gd_decision ok))
            (turn w s)) = Inr i)"
  by (auto simp: answer_request_def requested_at_of_def [symmetric] Let_def record_decision_iff split: sum.splits option.splits)


text \<open>The store is not asked anything for a form that was not issued to its sender: the session differs after a decision
  only if the caller is authenticated and presented the token of that caller and that request.\<close>

lemma token_guards_store:
  assumes "fst (decide x k nonce w header h form body s) \<noteq> s"
  shows "\<exists>who decision. caller_subject x (kn_config k) header = Inr who
    \<and> submitted_decision x body form = Inr (csrf_token x nonce who h, decision)"
  using assms by (auto simp: decide_def Let_def csrf_ok_iff split: sum.splits if_splits)

end
