(* ===== verification/Spec2Isabelle.thy ===== *)
theory Spec2Isabelle
  imports Timestamps Chain Authority Gate Trigger Payload Sync Policy Budget Gatequeue Manifest Effects Console
begin

text \<open>
  A verification development of the Stozher reference implementation (\<open>src/kernel\<close>): the crate \<open>stozher-core\<close>,
  which holds the checks, and the parts of the crate \<open>stozher-kernel\<close> that decide and record.

  \<^bold>\<open>The program.\<close> Stozher is a ledger of what software agents do for an organization. A component sends an
  \<^emph>\<open>envelope\<close>, a signed JSON object with a closed set of members, together with the payloads it commits to. The intake
  (\<open>ingest.rs\<close>) parses the octets, validates the envelope (\<open>envelope.rs\<close>, \<open>signed.rs\<close>), walks the chain of
  mandates from the agent to an enrolled human root (\<open>mandate.rs\<close>), classifies the effect by the policy in force
  (\<open>policy.rs\<close>), demands a human's approval of exactly this effect where the policy gates it (\<open>gate.rs\<close>,
  \<open>gatequeue.rs\<close>), checks the budget (\<open>budget.rs\<close>), the trigger, the commitment and the payloads, and makes a plan.
  The store (\<open>store.rs\<close>) commits the plan in one transaction: the position in the emitter's hash chain, the use of
  the approval, the row, and the projections the next validation reads. What is refused is written, signed by the kernel,
  into a chain of rejections. Anyone can check a chain of records (\<open>chain.rs\<close>) against the kernel's signed checkpoints.

  \<^bold>\<open>Theories and files.\<close> Every theory names the file it models in its opening text; definitions keep the names of the
  functions, and a definition that models a part of a long function is named after that part.

  \<^item> Foundations: \<open>Prelude\<close> (\<open>error.rs\<close>: the error values, the \<open>?\<close> operator as \<open>and_then\<close>, loops that
    stop at the first error, 64-bit arithmetic); \<open>Digits\<close>; \<open>Json\<close> (\<open>serde_json::Value\<close>); \<open>Externals\<close> (the record
    \<open>ext\<close> of everything the program takes from other packages, and the predicate \<open>documented\<close>).
  \<^item> Encodings: \<open>Jcs\<close> (\<open>jcs.rs\<close>), \<open>Crypto\<close> (\<open>crypto.rs\<close>), \<open>Signed\<close> (\<open>signed.rs\<close>), \<open>Decimal\<close>
    (\<open>decimal.rs\<close>), \<open>Calendar\<close>, \<open>Civil\<close> and \<open>Timestamps\<close> (\<open>is_timestamp\<close> of \<open>envelope.rs\<close>, and \<open>clock.rs\<close>).
  \<^item> Checks of \<open>stozher-core\<close>: \<open>Envelope\<close>, \<open>Chain\<close>, \<open>Scope\<close> and \<open>Mandate\<close> (\<open>mandate.rs\<close>; what the walk amounts to is
    in \<open>Authority\<close>), \<open>Gate\<close>, \<open>Payload\<close>, \<open>Trigger\<close>, \<open>Sync\<close>.
  \<^item> Checks of \<open>stozher-kernel\<close>: \<open>Policy\<close>, \<open>Budget\<close>, \<open>Gatequeue\<close>, \<open>Manifest\<close>.
  \<^item> The store: \<open>Tables\<close> (the rows and the record \<open>store\<close> of all tables), \<open>Append\<close> (\<open>Store::append\<close> and every
    projection), \<open>Upkeep\<close> (rejections, the queue, decay, roots, the rebuild of the totals), \<open>Lookups\<close> (the queries);
    \<open>Ledger\<close> and \<open>Logs\<close> hold the state machine over them and its invariants, \<open>History\<close> the properties.
  \<^item> The intake: \<open>Intake\<close> (one definition per check), \<open>Ingest\<close> (the pipeline, \<open>submit\<close> and its answers); \<open>Admission\<close>
    (what every answer means), \<open>Ceremony\<close> (a concrete deployment for the witnesses), \<open>Governance\<close> and \<open>Effects\<close>.
  \<^item> The kernel's own runs and the service: \<open>Config\<close> (\<open>config.rs\<close>), \<open>Clerk\<close> (\<open>append_as_kernel\<close>), \<open>Checkpoint\<close>
    (\<open>checkpoint.rs\<close>), \<open>Http\<close> (the routes that write, those that read one thing, and who may ask), \<open>Console\<close>
    (\<open>console.rs\<close>: the form of a decision, its token, and what is recorded).

  \<^bold>\<open>How state and effects are modelled.\<close> A function that returns \<open>Result\<close> returns \<open>error + 'a\<close>; every \<open>?\<close> is an
  \<open>and_then\<close>, every early return a branch, and what would panic (an overflow in a checked build, an index out of
  range) is the value \<open>Panic\<close>. The detail text of an error is dropped, as nothing branches on it. An unsigned 64-bit
  integer is a \<open>64 word\<close>; amounts of \<open>clock.rs\<close> are integers with the range of \<open>i64\<close> checked where the source checks it.
  A string is its list of octets (UTF-8). A table is the list of its rows in the order of insertion, a transaction a
  function from the store to an error or the next store; an error leaves the store alone, as a rolled back transaction
  does. \<open>submit\<close> takes two stores, because the source validates outside the transaction that commits: \<open>seen\<close> is what
  the validation read, \<open>st\<close> what the transaction finds, and nothing is assumed of the two unless a theorem says so.
  The kernel's own runs take a \<open>world\<close>: what the other writers do to the store before each question, and what the clock reads.
  All writers together are the inductive relation \<open>step\<close> of \<open>Ledger\<close>, closed to \<open>reaches\<close>; an invariant
  is proved for every operation and then for every \<open>reachable\<close> store, in any order of any operations.

  \<^bold>\<open>Interfaces.\<close> \<open>pattern_language\<close> (\<open>Scope\<close>) is what a mandate walk relies on of patterns, \<open>exact_amounts\<close>
  (\<open>Decimal\<close>) what accounting relies on of the decimal routines, \<open>append_log\<close> and \<open>keyed_log\<close> (\<open>Logs\<close>) what readers
  rely on of the append-only tables; each is interpreted on the code's own definitions.

  \<^bold>\<open>What the lemmas show.\<close>

  \<^item> The encoding layer: canonical texts are equal only for equal values, signing and verification are inverse, decimal
    comparison and addition agree with the rationals the strings denote, timestamps order as the instants they denote.
  \<^item> The checks: which envelopes \<open>validate\<close> lets through; that chain verification, the mandate walk and the approval
    check decide declarative specifications (\<open>Chain\<close>, \<open>authority\<close> of \<open>Mandate\<close>, \<open>Gate\<close>); that a tampered record is
    found or a hash collision is exhibited; that a revoked mandate carries nothing beneath it.
  \<^item> The ledger: in every reachable store each stream is a hash chain of validated records that \<open>verify_chain\<close>
    accepts, gaps are only where a refusal of the kernel bridges them, an approval is spent once, the rejections chain,
    every referenced row exists, decay removes exactly the payloads no live reference needs.
  \<^item> The intake: every answer is accounted for by what it left in the store; acceptance is a step of the ledger; what
    governs (policy, manifests, roots, resumes) changes only under a root's signature on exactly that change; two racing
    submissions of the same octets agree; a component cannot lower a class.
  \<^item> The kernel's own runs and the service: its appends end after at most eight submissions; nothing that had expired when a decay run looked
    is deleted before its stream is attested, and what arrives during the run is; a stream verifies against its checkpoints;
    a parsed configuration is sound and a token resolves exactly by its digest; only authenticated callers change the
    store, the gate route changes its queue alone and keeps it bounded, and the answer about a payload is the truth.

  \<^bold>\<open>Termination and bounds.\<close> Every definition is total: loops over lists are structural recursion, the mandate walk
  recurs over the chain it is given (with the measure of its \<open>termination\<close> proof), and the ancestry query carries the
  fuel of the source's own limit of levels. Nothing is evaluated with fuel that could run out silently.

  \<^bold>\<open>What is assumed.\<close> Only \<open>documented\<close>: hexadecimal is invertible, SHA-256 gives 32 octets, a signature by a key verifies
  under its public key, the number renderer writes number characters, the parser builds maps; and, where a
  stored text is read again, \<open>reads_back\<close>: the parser reads the canonical text of that value as that value. No theorem assumes that the hash has no collisions or that signatures cannot be forged: such theorems exhibit the
  collision, or speak of authenticity instead. Each such hypothesis is discharged in a witness by \<open>demo_ext\<close> or
  \<open>boot_ext\<close>. The database answers: \<open>store_unavailable\<close> is only what a violated constraint gives.

  \<^bold>\<open>Not modelled.\<close> The timer loops, the list routes and reports of \<open>http.rs\<close>, the console's pages, the command line, the notification
  channels, the generation and storage of seeds, the drivers of the conformance suite and the SQL migrations: input and
  output around what is modelled. Ed25519, SHA-256, HMAC, hexadecimal, number rendering and the JSON parser are
  parameters, as they are other packages. The text of errors, logging and timing are dropped. A single validation reads one
  store, although the source awaits several queries; what happens between a validation and its transaction, and between
  the steps of the kernel's own runs, is arbitrary.
\<close>

end
